(* ===== verification/Prelude.thy ===== *)
theory Prelude
  imports Main "HOL-Library.Sublist"
begin

text \<open>
  Generic material that the component theories share: the error type of Go functions that
  return \<open>(T, error)\<close>, the collections that the proofs of the components extend, and a few
  facts on lists and maps that the library lacks. Nothing here is about RouteMUX.
\<close>

section \<open>Collections\<close>

named_theorems go_str \<open>equations of the model of Go's package strings\<close>
named_theorems hdr_simps \<open>get/set/del laws of header maps\<close>
named_theorems cidr_simps \<open>membership in lists of networks\<close>

section \<open>Results\<close>

text \<open>
  A Go function with results \<open>(T, error)\<close> returns \<open>Inl e\<close> when \<open>err != nil\<close> and
  \<open>Inr v\<close> otherwise. The sequencing of fallible calls with an early return on error is
  \<open>rbind\<close>; a loop that returns at the first error is \<open>rfold\<close> or \<open>rmap\<close>.
\<close>

type_synonym ('e, 'a) result = "'e + 'a"

primrec rbind :: "'e + 'a \<Rightarrow> ('a \<Rightarrow> 'e + 'b) \<Rightarrow> 'e + 'b" where
  "rbind (Inl e) f = Inl e"
| "rbind (Inr a) f = f a"

primrec rfold :: "('x \<Rightarrow> 's \<Rightarrow> 'e + 's) \<Rightarrow> 'x list \<Rightarrow> 's \<Rightarrow> 'e + 's" where
  "rfold f [] s = Inr s"
| "rfold f (x # xs) s = (case f x s of Inl e \<Rightarrow> Inl e | Inr s' \<Rightarrow> rfold f xs s')"

primrec rmap :: "('x \<Rightarrow> 'e + 'y) \<Rightarrow> 'x list \<Rightarrow> 'e + 'y list" where
  "rmap f [] = Inr []"
| "rmap f (x # xs) =
     (case f x of Inl e \<Rightarrow> Inl e
      | Inr y \<Rightarrow> (case rmap f xs of Inl e \<Rightarrow> Inl e | Inr ys \<Rightarrow> Inr (y # ys)))"

lemma rbind_Inr_iff: "rbind r f = Inr b \<longleftrightarrow> (\<exists>a. r = Inr a \<and> f a = Inr b)"
  by (cases r) auto

lemma rfold_append:
  "rfold f (xs @ ys) s = (case rfold f xs s of Inl e \<Rightarrow> Inl e | Inr s' \<Rightarrow> rfold f ys s')"
  by (induction xs arbitrary: s) (auto split: sum.split)

text \<open>An invariant that every successful step keeps holds of the final state.\<close>

lemma rfold_invariant:
  assumes "rfold f xs s = Inr s'" and "P s"
    and "\<And>x t t'. x \<in> set xs \<Longrightarrow> P t \<Longrightarrow> f x t = Inr t' \<Longrightarrow> P t'"
  shows "P s'"
  using assms
proof (induction xs arbitrary: s)
  case Nil
  then show ?case by simp
next
  case (Cons x xs)
  then obtain t where t: "f x s = Inr t" and r: "rfold f xs t = Inr s'"
    by (auto split: sum.splits)
  from t Cons.prems(2,3) have "P t" by (auto intro: Cons.prems(3))
  with r Cons.prems(3) show ?case by (auto intro: Cons.IH)
qed

lemma rmap_Inr_iff: "rmap f xs = Inr ys \<longleftrightarrow> list_all2 (\<lambda>x y. f x = Inr y) xs ys"
proof (induction xs arbitrary: ys)
  case Nil
  then show ?case by auto
next
  case (Cons x xs)
  show ?case
  proof (cases "rmap f xs")
    case (Inl e)
    then have "\<not> list_all2 (\<lambda>x y. f x = Inr y) xs zs" for zs
      using Cons.IH[of zs] by simp
    with Inl show ?thesis by (cases "f x"; cases ys) auto
  next
    case (Inr zs)
    then have "list_all2 (\<lambda>x y. f x = Inr y) xs ws \<longleftrightarrow> ws = zs" for ws
      using Cons.IH[of ws] by auto
    with Inr show ?thesis by (cases "f x"; cases ys) auto
  qed
qed

lemma rmap_Inl_D: "rmap f xs = Inl e \<Longrightarrow> \<exists>x \<in> set xs. f x = Inl e"
  by (induction xs) (auto split: sum.splits)

section \<open>Lists\<close>

lemma prefix_one: "prefix [c] s \<longleftrightarrow> (\<exists>r. s = c # r)"
  by (cases s) auto

lemma find_Some_in: "find P xs = Some x \<Longrightarrow> x \<in> set xs \<and> P x"
  by (auto simp: find_Some_iff)

text \<open>A stable partition: the elements with the property first, each part in its old order.\<close>

definition stable_partition :: "('a \<Rightarrow> bool) \<Rightarrow> 'a list \<Rightarrow> 'a list" where
  "stable_partition P xs = filter P xs @ filter (\<lambda>x. \<not> P x) xs"

lemma set_stable_partition [simp]: "set (stable_partition P xs) = set xs"
  by (auto simp: stable_partition_def)

lemma length_stable_partition [simp]: "length (stable_partition P xs) = length xs"
  using sum_length_filter_compl[of P xs] by (simp add: stable_partition_def)

end
