(* ===== verification/Go_Strings.thy ===== *)
theory Go_Strings
  imports Prelude
begin

text \<open>
  The part of Go's packages \<^verbatim>\<open>strings\<close> and \<^verbatim>\<open>bytes\<close> that RouteMUX calls, on byte
  strings (\<^typ>\<open>string\<close> is a list of 8-bit characters, as a Go string is). Case mapping and
  white space are those of ASCII: on a string without bytes above 127 they agree with Go;
  bytes above 127 are left as they are, where Go decodes UTF-8 first.
\<close>

section \<open>Characters\<close>

definition lower_char :: "char \<Rightarrow> char" where
  "lower_char c = (let n = (of_char c :: nat) in if 65 \<le> n \<and> n \<le> 90 then char_of (n + 32) else c)"

definition upper_char :: "char \<Rightarrow> char" where
  "upper_char c = (let n = (of_char c :: nat) in if 97 \<le> n \<and> n \<le> 122 then char_of (n - 32) else c)"

definition is_digit :: "char \<Rightarrow> bool" where
  "is_digit c = (let n = (of_char c :: nat) in 48 \<le> n \<and> n \<le> 57)"

definition digit_val :: "char \<Rightarrow> int" where
  "digit_val c = of_char c - 48"

definition is_alpha :: "char \<Rightarrow> bool" where
  "is_alpha c = (let n = (of_char c :: nat) in (65 \<le> n \<and> n \<le> 90) \<or> (97 \<le> n \<and> n \<le> 122))"

text \<open>The ASCII white space of \<^verbatim>\<open>strings.TrimSpace\<close> and \<^verbatim>\<open>strings.Fields\<close>: tab, line feed,
  vertical tab, form feed, carriage return, space.\<close>

definition is_space :: "char \<Rightarrow> bool" where
  "is_space c = (let n = (of_char c :: nat) in (9 \<le> n \<and> n \<le> 13) \<or> n = 32)"

lemma of_char_less: "(of_char (c :: char) :: nat) < 256"
  by simp

lemma of_char_lower:
  "(of_char (lower_char c) :: nat) =
     (if 65 \<le> (of_char c :: nat) \<and> (of_char c :: nat) \<le> 90 then of_char c + 32 else of_char c)"
  by (simp add: lower_char_def Let_def)

lemma of_char_upper:
  "(of_char (upper_char c) :: nat) =
     (if 97 \<le> (of_char c :: nat) \<and> (of_char c :: nat) \<le> 122 then of_char c - 32 else of_char c)"
  using of_char_less[of c] by (auto simp: upper_char_def Let_def)

lemma char_eq_iff: "c = d \<longleftrightarrow> (of_char c :: nat) = of_char d"
  by simp

lemma lower_lower_char [simp]: "lower_char (lower_char c) = lower_char c"
  by (simp only: char_eq_iff of_char_lower) auto

lemma upper_upper_char [simp]: "upper_char (upper_char c) = upper_char c"
  by (simp only: char_eq_iff of_char_upper) auto

lemma lower_upper_char [simp]: "lower_char (upper_char c) = lower_char c"
  by (simp only: char_eq_iff of_char_upper of_char_lower) auto

lemma upper_lower_char [simp]: "upper_char (lower_char c) = upper_char c"
  by (simp only: char_eq_iff of_char_upper of_char_lower) auto

section \<open>Case mapping\<close>

definition ToLower :: "string \<Rightarrow> string" where
  "ToLower s = map lower_char s"

definition ToUpper :: "string \<Rightarrow> string" where
  "ToUpper s = map upper_char s"

definition EqualFold :: "string \<Rightarrow> string \<Rightarrow> bool" where
  "EqualFold s t = (ToLower s = ToLower t)"

lemma ToLower_ToLower [simp, go_str]: "ToLower (ToLower s) = ToLower s"
  by (simp add: ToLower_def)

lemma length_ToLower [simp]: "length (ToLower s) = length s"
  by (simp add: ToLower_def)

lemma ToLower_append [go_str]: "ToLower (s @ t) = ToLower s @ ToLower t"
  by (simp add: ToLower_def)

lemma ToLower_Nil [simp]: "ToLower [] = []"
  by (simp add: ToLower_def)

lemma ToLower_Cons: "ToLower (c # s) = lower_char c # ToLower s"
  by (simp add: ToLower_def)

lemma EqualFold_refl [simp]: "EqualFold s s"
  by (simp add: EqualFold_def)

lemma EqualFold_sym: "EqualFold s t = EqualFold t s"
  by (auto simp: EqualFold_def)

section \<open>Prefixes, suffixes, searching\<close>

definition HasPrefix :: "string \<Rightarrow> string \<Rightarrow> bool" where
  "HasPrefix s p = prefix p s"

definition HasSuffix :: "string \<Rightarrow> string \<Rightarrow> bool" where
  "HasSuffix s p = suffix p s"

definition TrimPrefix :: "string \<Rightarrow> string \<Rightarrow> string" where
  "TrimPrefix s p = (if HasPrefix s p then drop (length p) s else s)"

definition TrimSuffix :: "string \<Rightarrow> string \<Rightarrow> string" where
  "TrimSuffix s p = (if HasSuffix s p then take (length s - length p) s else s)"

text \<open>\<^verbatim>\<open>Index\<close>, \<^verbatim>\<open>IndexByte\<close> and \<^verbatim>\<open>LastIndex\<close>: \<^const>\<open>None\<close> is Go's \<open>-1\<close>.\<close>

fun Index :: "string \<Rightarrow> string \<Rightarrow> nat option" where
  "Index [] sub = (if sub = [] then Some 0 else None)"
| "Index (c # cs) sub = (if prefix sub (c # cs) then Some 0 else map_option Suc (Index cs sub))"

fun IndexByte :: "string \<Rightarrow> char \<Rightarrow> nat option" where
  "IndexByte [] b = None"
| "IndexByte (c # cs) b = (if c = b then Some 0 else map_option Suc (IndexByte cs b))"

fun LastIndex :: "string \<Rightarrow> string \<Rightarrow> nat option" where
  "LastIndex [] sub = (if sub = [] then Some 0 else None)"
| "LastIndex (c # cs) sub =
     (case LastIndex cs sub of
        Some i \<Rightarrow> Some (Suc i)
      | None \<Rightarrow> if prefix sub (c # cs) then Some 0 else None)"

definition Contains :: "string \<Rightarrow> string \<Rightarrow> bool" where
  "Contains s sub = (Index s sub \<noteq> None)"

text \<open>A successful search splits the string at its first (last) occurrence.\<close>

lemma Index_Some:
  "Index s sub = Some i \<Longrightarrow> s = take i s @ sub @ drop (i + length sub) s \<and> i + length sub \<le> length s"
proof (induction s arbitrary: i)
  case Nil
  then show ?case by (simp split: if_splits)
next
  case (Cons c cs)
  show ?case
  proof (cases "prefix sub (c # cs)")
    case True
    with Cons.prems have "i = 0" by simp
    moreover from True obtain r where "c # cs = sub @ r" by (auto simp: prefix_def)
    ultimately show ?thesis by simp
  next
    case False
    with Cons.prems obtain j where j: "Index cs sub = Some j" and i: "i = Suc j" by auto
    from Cons.IH[OF j] i show ?thesis by simp
  qed
qed

lemma Index_bound: "Index s sub = Some i \<Longrightarrow> i + length sub \<le> length s"
  by (simp add: Index_Some)

lemma Index_append_Some: "Index (s @ sub @ t) sub \<noteq> None"
proof (induction s)
  case Nil
  show ?case by (cases "sub @ t"; cases sub) auto
next
  case (Cons c s)
  then show ?case by auto
qed

lemma Index_None_iff: "Index s sub = None \<longleftrightarrow> \<not> sublist sub s"
proof
  assume none: "Index s sub = None"
  show "\<not> sublist sub s"
  proof
    assume "sublist sub s"
    then obtain a b where "s = a @ sub @ b" by (auto simp: sublist_def)
    then have "Index s sub \<noteq> None" by (simp only: Index_append_Some not_False_eq_True)
    with none show False by contradiction
  qed
next
  assume no: "\<not> sublist sub s"
  show "Index s sub = None"
  proof (cases "Index s sub")
    case (Some i)
    then have "s = take i s @ sub @ drop (i + length sub) s" by (rule Index_Some[THEN conjunct1])
    then have "sublist sub s" unfolding sublist_def by blast
    with no show ?thesis by contradiction
  qed
qed

lemma Contains_iff: "Contains s sub \<longleftrightarrow> sublist sub s"
  by (simp add: Contains_def Index_None_iff)

lemma sublist_single_iff: "sublist [c] s \<longleftrightarrow> c \<in> set s"
  by (auto simp: sublist_def in_set_conv_decomp)

lemma Contains_byte_iff: "Contains s [c] \<longleftrightarrow> c \<in> set s"
  by (simp add: Contains_iff sublist_single_iff)

lemma IndexByte_None_iff: "IndexByte s b = None \<longleftrightarrow> b \<notin> set s"
  by (induction s) auto

lemma IndexByte_Some:
  "IndexByte s b = Some i \<Longrightarrow>
     i < length s \<and> s ! i = b \<and> b \<notin> set (take i s) \<and> s = take i s @ b # drop (Suc i) s"
  by (induction s arbitrary: i) (auto split: if_splits)

lemma IndexByte_append: "b \<notin> set s \<Longrightarrow> IndexByte (s @ b # t) b = Some (length s)"
  by (induction s) auto

lemma LastIndex_Some:
  "LastIndex s sub = Some i \<Longrightarrow> s = take i s @ sub @ drop (i + length sub) s \<and> i + length sub \<le> length s"
proof (induction s arbitrary: i)
  case Nil
  then show ?case by (simp split: if_splits)
next
  case (Cons c cs)
  show ?case
  proof (cases "LastIndex cs sub")
    case (Some j)
    with Cons.prems have i: "i = Suc j" by simp
    from Cons.IH[OF Some] i show ?thesis by simp
  next
    case None
    with Cons.prems have p: "prefix sub (c # cs)" and i: "i = 0" by (auto split: if_splits)
    from p obtain r where "c # cs = sub @ r" by (auto simp: prefix_def)
    with i show ?thesis by simp
  qed
qed

lemma LastIndex_None_append: "LastIndex (s @ t) sub = None \<Longrightarrow> LastIndex t sub = None"
  by (induction s) (auto split: option.splits)

lemma LastIndex_append_Some:
  "LastIndex t sub = Some i \<Longrightarrow> LastIndex (s @ t) sub = Some (length s + i)"
  by (induction s) auto

section \<open>Cutting, splitting, joining, trimming\<close>

definition Cut :: "string \<Rightarrow> string \<Rightarrow> string \<times> string \<times> bool" where
  "Cut s sep =
     (case Index s sep of
        None \<Rightarrow> (s, [], False)
      | Some i \<Rightarrow> (take i s, drop (i + length sep) s, True))"

text \<open>\<^verbatim>\<open>strings.Split\<close> with a one-byte separator, the only kind the code uses.\<close>

fun Split :: "string \<Rightarrow> char \<Rightarrow> string list" where
  "Split [] sep = [[]]"
| "Split (c # cs) sep =
     (if c = sep then [] # Split cs sep
      else (case Split cs sep of [] \<Rightarrow> [[c]] | w # ws \<Rightarrow> (c # w) # ws))"

text \<open>\<^verbatim>\<open>strings.SplitN(s, sep, 2)\<close> with a one-byte separator.\<close>

definition SplitN2 :: "string \<Rightarrow> char \<Rightarrow> string list" where
  "SplitN2 s sep =
     (case IndexByte s sep of None \<Rightarrow> [s] | Some i \<Rightarrow> [take i s, drop (Suc i) s])"

fun Join :: "string list \<Rightarrow> string \<Rightarrow> string" where
  "Join [] sep = []"
| "Join [x] sep = x"
| "Join (x # y # xs) sep = x @ sep @ Join (y # xs) sep"

definition TrimLeft_space :: "string \<Rightarrow> string" where
  "TrimLeft_space s = dropWhile is_space s"

definition TrimSpace :: "string \<Rightarrow> string" where
  "TrimSpace s = rev (dropWhile is_space (rev (dropWhile is_space s)))"

text \<open>\<^verbatim>\<open>strings.TrimRight(s, cutset)\<close> with a one-byte cutset.\<close>

definition TrimRight :: "string \<Rightarrow> char \<Rightarrow> string" where
  "TrimRight s b = rev (dropWhile (\<lambda>c. c = b) (rev s))"

function Fields :: "string \<Rightarrow> string list" where
  "Fields s =
     (let t = dropWhile is_space s
      in if t = [] then []
         else takeWhile (\<lambda>c. \<not> is_space c) t # Fields (dropWhile (\<lambda>c. \<not> is_space c) t))"
  by pat_completeness auto
termination
proof (relation "measure length", goal_cases)
  case 1
  then show ?case by simp
next
  case (2 s t)
  from 2(2) obtain c cs where t: "t = c # cs" by (cases t) simp_all
  have nsp: "\<not> is_space c"
    using 2 t by (metis hd_dropWhile list.sel(1) list.distinct(1))
  have "length (dropWhile (\<lambda>c. \<not> is_space c) t) \<le> length cs"
    using nsp t by (simp add: length_dropWhile_le)
  also have "\<dots> < length t" by (simp add: t)
  also have "\<dots> \<le> length s" using 2 by (simp add: length_dropWhile_le)
  finally show ?case by simp
qed

declare Fields.simps [simp del]

lemma Split_not_Nil [simp]: "Split s sep \<noteq> []"
  by (cases s) (auto split: list.split)

lemma Split_append_sep: "Split (s @ sep # t) sep = Split s sep @ Split t sep"
proof (induction s)
  case (Cons c s)
  then show ?case
    by (cases "Split s sep") (auto split: list.split simp: Split_not_Nil dest: sym)
qed simp

lemma Split_no_sep: "w \<in> set (Split s sep) \<Longrightarrow> sep \<notin> set w"
  by (induction s arbitrary: w) (auto split: if_splits list.splits)

lemma Split_single: "sep \<notin> set s \<Longrightarrow> Split s sep = [s]"
  by (induction s) auto

lemma Split_append: "sep \<notin> set s \<Longrightarrow> Split (s @ sep # t) sep = s # Split t sep"
  by (induction s) auto

text \<open>Splitting what was joined gives the parts back when no part holds the separator.\<close>

lemma Split_Join:
  "xs \<noteq> [] \<Longrightarrow> \<forall>x \<in> set xs. sep \<notin> set x \<Longrightarrow> Split (Join xs [sep]) sep = xs"
  by (induction xs "[sep]" rule: Join.induct) (auto simp: Split_single Split_append)

lemma Join_Split: "Join (Split s sep) [sep] = s"
proof (induction s)
  case Nil
  then show ?case by simp
next
  case (Cons c cs)
  obtain w ws where "Split cs sep = w # ws" by (cases "Split cs sep") auto
  with Cons show ?case by (cases ws) auto
qed

lemma Join_Cons: "xs \<noteq> [] \<Longrightarrow> Join (x # xs) sep = x @ sep @ Join xs sep"
  by (cases xs) auto

lemma Join_snoc: "xs \<noteq> [] \<Longrightarrow> Join (xs @ [y]) sep = Join xs sep @ sep @ y"
proof (induction xs)
  case (Cons x xs)
  then show ?case by (cases xs) auto
qed simp

lemma TrimSpace_Nil [simp]: "TrimSpace [] = []"
  by (simp add: TrimSpace_def)

lemma dropWhile_id: "xs = [] \<or> \<not> P (hd xs) \<Longrightarrow> dropWhile P xs = xs"
  by (cases xs) auto

lemma TrimSpace_id:
  "s = [] \<or> (\<not> is_space (hd s) \<and> \<not> is_space (last s)) \<Longrightarrow> TrimSpace s = s"
  by (auto simp: TrimSpace_def dropWhile_id hd_rev)

lemma TrimSpace_no_space: "\<forall>c \<in> set s. \<not> is_space c \<Longrightarrow> TrimSpace s = s"
  by (rule TrimSpace_id) (auto simp: hd_in_set last_in_set)

lemma TrimSpace_Cons_space: "is_space c \<Longrightarrow> TrimSpace (c # s) = TrimSpace s"
  by (simp add: TrimSpace_def)

lemma Index_byte_append: "c \<notin> set s \<Longrightarrow> Index (s @ c # t) [c] = Some (length s)"
  by (induction s) (auto simp: HasPrefix_def prefix_one)

lemma Cut_byte: "c \<notin> set s \<Longrightarrow> Cut (s @ c # t) [c] = (s, t, True)"
  by (simp add: Cut_def Index_byte_append)

lemma Cut_byte_none: "c \<notin> set s \<Longrightarrow> Cut s [c] = (s, [], False)"
proof -
  assume "c \<notin> set s"
  then have "Index s [c] = None" by (simp only: Index_None_iff sublist_single_iff simp_thms)
  then show ?thesis by (simp add: Cut_def)
qed

text \<open>Every cut on a byte is one of the two.\<close>

lemma Cut_byte_cases:
  obtains (found) a b where "s = a @ c # b" "c \<notin> set a" "Cut s [c] = (a, b, True)"
  | (none) "c \<notin> set s" "Cut s [c] = (s, [], False)"
proof (cases "c \<in> set s")
  case True
  then obtain a b where "s = a @ c # b" "c \<notin> set a" by (metis split_list_first)
  with found show ?thesis by (simp add: Cut_byte)
next
  case False
  with none show ?thesis by (simp add: Cut_byte_none)
qed

end
