(* ===== verification/Go_Net.thy ===== *)
theory Go_Net
  imports Go_Strings "HOL-Library.Word"
begin

unbundle bit_operations_syntax

text \<open>
  The part of Go's packages \<^verbatim>\<open>net\<close> and \<^verbatim>\<open>net/netip\<close> that RouteMUX calls: parsing of IP
  addresses and CIDR notation, membership of an address in a network, and the splitting of
  \<^verbatim>\<open>host:port\<close>. A \<^verbatim>\<open>net.IP\<close> is a list of 4 or 16 bytes, as in Go; \<^verbatim>\<open>nil\<close> is
  \<^const>\<open>None\<close> where the code can meet it.
\<close>

type_synonym byte = "8 word"
type_synonym ip = "byte list"

record IPNet =
  net_IP :: ip
  net_Mask :: "byte list"

section \<open>Parsing addresses\<close>

definition is_hex :: "char \<Rightarrow> bool" where
  "is_hex c = (let n = (of_char c :: nat) in
     (48 \<le> n \<and> n \<le> 57) \<or> (97 \<le> n \<and> n \<le> 102) \<or> (65 \<le> n \<and> n \<le> 70))"

definition hex_val :: "char \<Rightarrow> int" where
  "hex_val c = (let n = (of_char c :: int) in
     if n \<le> 57 then n - 48 else if n \<le> 70 then n - 55 else n - 87)"

text \<open>\<^verbatim>\<open>netip.parseIPv4Fields\<close>: the byte before the current one, the value and the number of
  digits of the current octet, the octets read so far.\<close>

fun v4_fields :: "char option \<Rightarrow> int \<Rightarrow> nat \<Rightarrow> int list \<Rightarrow> string \<Rightarrow> int list option" where
  "v4_fields prev val digLen flds [] =
     (if length flds < 3 then None else Some (flds @ [val]))"
| "v4_fields prev val digLen flds (c # cs) =
     (if is_digit c then
        (if digLen = 1 \<and> val = 0 then None
         else if val * 10 + digit_val c > 255 then None
         else v4_fields (Some c) (val * 10 + digit_val c) (Suc digLen) flds cs)
      else if c = CHR ''.'' then
        (if prev = None \<or> cs = [] \<or> prev = Some CHR ''.'' then None
         else if length flds = 3 then None
         else v4_fields (Some c) 0 0 (flds @ [val]) cs)
      else None)"

definition parseIPv4 :: "string \<Rightarrow> int list option" where
  "parseIPv4 s = v4_fields None 0 0 [] s"

text \<open>The main loop of \<^verbatim>\<open>netip.parseIPv6\<close>: the bytes read so far, the position of the
  ellipsis, the rest of the input.\<close>

function v6_groups :: "byte list \<Rightarrow> nat option \<Rightarrow> string \<Rightarrow> (byte list \<times> nat option \<times> string) option" where
  "v6_groups acc ell s =
     (if 16 \<le> length acc then Some (acc, ell, s)
      else
        let ds = takeWhile is_hex s; rest = dropWhile is_hex s;
            v = foldl (\<lambda>a c. a * 16 + hex_val c) 0 ds;
            acc' = acc @ [word_of_int (v div 256), word_of_int (v mod 256)]
        in if ds = [] \<or> 4 < length ds then None
           else if rest \<noteq> [] \<and> hd rest = CHR ''.'' then
             (if (ell = None \<and> length acc \<noteq> 12) \<or> 16 < length acc + 4 then None
              else (case parseIPv4 s of
                      None \<Rightarrow> None
                    | Some fs \<Rightarrow> Some (acc @ map word_of_int fs, ell, [])))
           else if rest = [] then Some (acc', ell, [])
           else if hd rest \<noteq> CHR '':'' \<or> tl rest = [] then None
           else if hd (tl rest) = CHR '':'' then
             (if ell \<noteq> None then None
              else if tl (tl rest) = [] then Some (acc', Some (length acc'), [])
              else v6_groups acc' (Some (length acc')) (tl (tl rest)))
           else v6_groups acc' ell (tl rest))"
  by pat_completeness auto
termination
  by (relation "measure (\<lambda>(acc, ell, s). 16 - length acc)") auto

declare v6_groups.simps [simp del]

definition parseIPv6 :: "string \<Rightarrow> byte list option" where
  "parseIPv6 s =
     (let start = (if HasPrefix s ''::'' then (Some (0::nat), drop 2 s) else (None, s)) in
      if HasPrefix s ''::'' \<and> drop 2 s = [] then Some (replicate 16 0)
      else (case v6_groups [] (fst start) (snd start) of
              None \<Rightarrow> None
            | Some (acc, ell, rest) \<Rightarrow>
                if rest \<noteq> [] then None
                else if length acc < 16 then
                  (case ell of
                     None \<Rightarrow> None
                   | Some e \<Rightarrow> Some (take e acc @ replicate (16 - length acc) 0 @ drop e acc))
                else if ell \<noteq> None then None
                else Some acc))"

definition v4InV6Prefix :: "byte list" where
  "v4InV6Prefix = [0, 0, 0, 0, 0, 0, 0, 0, 0, 0, 255, 255]"

text \<open>
  \<^verbatim>\<open>netip.ParseAddr\<close> without zones (\<^verbatim>\<open>net.ParseIP\<close> and \<^verbatim>\<open>net.ParseCIDR\<close> refuse a zone):
  the bit length (32 for dotted decimal, 128 otherwise) and the 16-byte form.
\<close>

fun addr_kind :: "string \<Rightarrow> char option" where
  "addr_kind [] = None"
| "addr_kind (c # cs) = (if c \<in> {CHR ''.'', CHR '':'', CHR ''%''} then Some c else addr_kind cs)"

definition ParseAddr :: "string \<Rightarrow> (nat \<times> ip) option" where
  "ParseAddr s =
     (case addr_kind s of
        None \<Rightarrow> None
      | Some c \<Rightarrow>
          if c = CHR ''.'' then
            map_option (\<lambda>fs. (32, v4InV6Prefix @ map word_of_int fs)) (parseIPv4 s)
          else if c = CHR '':'' then
            (if CHR ''%'' \<in> set s then None else map_option (\<lambda>b. (128, b)) (parseIPv6 s))
          else None)"

definition ParseIP :: "string \<Rightarrow> ip option" where
  "ParseIP s = map_option snd (ParseAddr s)"

text \<open>\<^verbatim>\<open>IP.To4\<close>: the 4-byte form of an IPv4 or IPv4-mapped address.\<close>

definition To4 :: "ip \<Rightarrow> ip option" where
  "To4 i =
     (if length i = 4 then Some i
      else if length i = 16 \<and> take 12 i = v4InV6Prefix then Some (drop 12 i)
      else None)"

section \<open>Masks and networks\<close>

text \<open>\<^verbatim>\<open>net.CIDRMask\<close> for \<^verbatim>\<open>0 \<le> ones \<le> bits\<close> and 32 or 128 bits.\<close>

fun mask_bytes :: "nat \<Rightarrow> nat \<Rightarrow> byte list" where
  "mask_bytes 0 n = []"
| "mask_bytes (Suc l) n =
     (if 8 \<le> n then 255 # mask_bytes l (n - 8) else NOT (drop_bit n 255) # mask_bytes l 0)"

definition CIDRMask :: "nat \<Rightarrow> nat \<Rightarrow> byte list option" where
  "CIDRMask ones bits =
     (if bits \<noteq> 32 \<and> bits \<noteq> 128 then None
      else if bits < ones then None
      else Some (mask_bytes (bits div 8) ones))"

definition and_bytes :: "byte list \<Rightarrow> byte list \<Rightarrow> byte list" where
  "and_bytes xs ys = map2 (AND) xs ys"

text \<open>\<^verbatim>\<open>IP.Mask\<close>; \<^const>\<open>None\<close> is \<^verbatim>\<open>nil\<close>.\<close>

definition ip_Mask :: "ip \<Rightarrow> byte list \<Rightarrow> ip option" where
  "ip_Mask i m =
     (let m' = (if length m = 16 \<and> length i = 4 \<and> list_all (\<lambda>b. b = 255) (take 12 m)
                then drop 12 m else m);
          i' = (if length m' = 4 \<and> length i = 16 \<and> take 12 i = v4InV6Prefix
                then drop 12 i else i)
      in if length i' \<noteq> length m' then None else Some (and_bytes i' m'))"

text \<open>\<^verbatim>\<open>net.dtoi\<close> on a whole string: decimal digits only, below \<open>0xFFFFFF\<close>.\<close>

fun dtoi :: "int \<Rightarrow> string \<Rightarrow> int option" where
  "dtoi n [] = Some n"
| "dtoi n (c # cs) =
     (if is_digit c then
        (let n' = n * 10 + digit_val c in if 16777215 \<le> n' then None else dtoi n' cs)
      else None)"

definition ParseCIDR :: "string \<Rightarrow> IPNet option" where
  "ParseCIDR s =
     (case Cut s ''/'' of (addr, msk, found) \<Rightarrow>
        if \<not> found then None
        else (case ParseAddr addr of
                None \<Rightarrow> None
              | Some (bitLen, addr16) \<Rightarrow>
                  (case (if msk = [] then None else dtoi 0 msk) of
                     None \<Rightarrow> None
                   | Some n \<Rightarrow>
                       if n < 0 \<or> int bitLen < n then None
                       else (case CIDRMask (nat n) bitLen of
                               None \<Rightarrow> None
                             | Some m \<Rightarrow>
                                 map_option (\<lambda>i. \<lparr>net_IP = i, net_Mask = m\<rparr>) (ip_Mask addr16 m)))))"

text \<open>\<^verbatim>\<open>networkNumberAndMask\<close> and \<^verbatim>\<open>IPNet.Contains\<close>.\<close>

definition networkNumberAndMask :: "IPNet \<Rightarrow> (ip \<times> byte list) option" where
  "networkNumberAndMask n =
     (let i = (case To4 (net_IP n) of Some i4 \<Rightarrow> i4 | None \<Rightarrow> net_IP n); m = net_Mask n in
      if To4 (net_IP n) = None \<and> length i \<noteq> 16 then None
      else if length m = 4 then (if length i \<noteq> 4 then None else Some (i, m))
      else if length m = 16 then Some (i, if length i = 4 then drop 12 m else m)
      else None)"

definition net_Contains :: "IPNet \<Rightarrow> ip \<Rightarrow> bool" where
  "net_Contains n i =
     (let x = (case To4 i of Some i4 \<Rightarrow> i4 | None \<Rightarrow> i) in
      case networkNumberAndMask n of
        None \<Rightarrow> length x = 0
      | Some (nn, m) \<Rightarrow> length x = length nn \<and> and_bytes nn m = and_bytes x m)"

section \<open>host:port\<close>

definition SplitHostPort :: "string \<Rightarrow> (string \<times> string) option" where
  "SplitHostPort hp =
     (case LastIndex hp '':'' of
        None \<Rightarrow> None
      | Some i \<Rightarrow>
          if hd hp = CHR ''['' then
            (case IndexByte hp CHR '']'' of
               None \<Rightarrow> None
             | Some e \<Rightarrow>
                 if e + 1 \<noteq> i then None
                 else if CHR ''['' \<in> set (drop 1 hp) then None
                 else if CHR '']'' \<in> set (drop (e + 1) hp) then None
                 else Some (take (e - 1) (drop 1 hp), drop (i + 1) hp))
          else
            (let host = take i hp in
             if CHR '':'' \<in> set host then None
             else if CHR ''['' \<in> set hp then None
             else if CHR '']'' \<in> set hp then None
             else Some (host, drop (i + 1) hp)))"

text \<open>Samples of Go's own test tables.\<close>

lemma parse_samples:
  "ParseIP ''10.0.0.1'' = Some (v4InV6Prefix @ [10, 0, 0, 1])"
  "ParseIP ''01.2.3.4'' = None"
  "ParseIP ''1.2.3.256'' = None"
  "ParseIP ''::1'' = Some (replicate 15 0 @ [1])"
  "ParseIP ''::ffff:1.2.3.4'' = Some (v4InV6Prefix @ [1, 2, 3, 4])"
  "ParseIP ''2001:db8::1:'' = None"
  "ParseCIDR ''10.1.2.3/9'' = Some \<lparr>net_IP = [10, 0, 0, 0], net_Mask = [255, 128, 0, 0]\<rparr>"
  "SplitHostPort ''[::1]:80'' = Some (''::1'', ''80'')"
  "SplitHostPort ''::1:80'' = None"
  by code_simp+

end
