(* ===== verification/Cidr_Net.thy ===== *)
theory Cidr_Net
  imports Go_Net
begin

text \<open>
  What membership in a network parsed by \<^verbatim>\<open>net.ParseCIDR\<close> means: the address belongs to the
  family of the network and agrees with its base on the first bits, as many as the prefix
  length says. The bits of an address are those of its bytes, most significant first.
\<close>

section \<open>Bits\<close>

definition byte_bits :: "byte \<Rightarrow> bool list" where
  "byte_bits b = map (bit b) [7, 6, 5, 4, 3, 2, 1, 0]"

definition ip_bits :: "ip \<Rightarrow> bool list" where
  "ip_bits i = concat (map byte_bits i)"

lemma length_byte_bits [simp]: "length (byte_bits b) = 8"
  by (simp add: byte_bits_def)

lemma ip_bits_Nil [simp]: "ip_bits [] = []"
  by (simp add: ip_bits_def)

lemma ip_bits_Cons: "ip_bits (b # i) = byte_bits b @ ip_bits i"
  by (simp add: ip_bits_def)

lemma ip_bits_append: "ip_bits (i @ j) = ip_bits i @ ip_bits j"
  by (simp add: ip_bits_def)

lemma length_ip_bits [simp]: "length (ip_bits i) = 8 * length i"
  by (induction i) (simp_all add: ip_bits_Cons)

lemma byte_bits_inject: "byte_bits a = byte_bits b \<longleftrightarrow> a = b"
proof
  assume eq: "byte_bits a = byte_bits b"
  have "bit a n = bit b n" if "n < 8" for n
  proof -
    from that have "n \<in> {0, 1, 2, 3, 4, 5, 6, 7}" by auto
    with eq show ?thesis by (auto simp: byte_bits_def)
  qed
  then show "a = b" by (intro bit_word_eqI) simp
qed simp

lemma ip_bits_inject:
  "length i = length j \<Longrightarrow> ip_bits i = ip_bits j \<longleftrightarrow> i = j"
  by (induction i j rule: list_induct2) (auto simp: ip_bits_Cons byte_bits_inject)

section \<open>Masks\<close>

lemma length_mask_bytes [simp]: "length (mask_bytes l n) = l"
  by (induction l n rule: mask_bytes.induct) auto

lemma and_bytes_Cons [simp]: "and_bytes (x # xs) (m # ms) = (x AND m) # and_bytes xs ms"
  by (simp add: and_bytes_def)

lemma and_bytes_Nil [simp]: "and_bytes [] ms = []"
  by (simp add: and_bytes_def)

lemma length_and_bytes [simp]: "length (and_bytes xs ms) = min (length xs) (length ms)"
  by (simp add: and_bytes_def)

lemma and_bytes_idem: "and_bytes (and_bytes xs ms) ms = and_bytes xs ms"
proof (induction xs arbitrary: ms)
  case Nil
  then show ?case by simp
next
  case (Cons x xs)
  then show ?case by (cases ms) (auto simp: and_bytes_def and.assoc)
qed

lemma and_bytes_append:
  "length xs = length ms \<Longrightarrow> and_bytes (xs @ ys) (ms @ ns) = and_bytes xs ms @ and_bytes ys ns"
  by (simp add: and_bytes_def)

lemma bit_255: "bit (255 :: byte) k \<longleftrightarrow> k < 8"
proof -
  have "bit (mask 8 :: byte) k \<longleftrightarrow> k < 8"
    by (auto simp only: bit_mask_iff possible_bit_def) auto
  then show ?thesis by (simp add: mask_eq_exp_minus_1)
qed

lemma byte_and_255 [simp]: "(x :: byte) AND 255 = x"
  by (rule bit_word_eqI) (simp only: bit_and_iff bit_255, simp)

lemma bit_high_mask: "bit (NOT (drop_bit n 255) :: byte) k \<longleftrightarrow> k < 8 \<and> 8 \<le> n + k"
  by (simp only: bit_not_iff bit_drop_bit_eq possible_bit_def bit_255 o_apply len_num1 len_bit0) auto

lemma byte_eq_iff_bits: "(x :: byte) = y \<longleftrightarrow> (\<forall>k < 8. bit x k = bit y k)"
  by (auto intro: bit_word_eqI)

lemma high_bits_take:
  assumes "n < 8"
  shows "(\<forall>k. k < 8 \<and> 8 \<le> n + k \<longrightarrow> bit (x::byte) k = bit y k) \<longleftrightarrow>
    take n (byte_bits x) = take n (byte_bits y)"
proof -
  have all: "(\<forall>k. k < 8 \<and> 8 \<le> n + k \<longrightarrow> P k) \<longleftrightarrow>
      (\<forall>j < n. P (7 - j))" for P :: "nat \<Rightarrow> bool"
  proof safe
    fix k assume "\<forall>j<n. P (7 - j)" "k < 8" "8 \<le> n + k"
    then show "P k" using spec[of "\<lambda>j. j < n \<longrightarrow> P (7 - j)" "7 - k"] by (auto simp: less_Suc_eq_le)
  next
    fix j assume "\<forall>k. k < 8 \<and> 8 \<le> n + k \<longrightarrow> P k" "j < n"
    have "7 - j < 8" "8 \<le> n + (7 - j)" using \<open>j < n\<close> assms by linarith+
    with \<open>\<forall>k. k < 8 \<and> 8 \<le> n + k \<longrightarrow> P k\<close> show "P (7 - j)" by blast
  qed
  have nth: "byte_bits b ! j = bit b (7 - j)" if "j < 8" for b j
  proof -
    have "byte_bits b = map (\<lambda>j. bit b (7 - j)) [0..<8]"
      by (simp add: byte_bits_def upt_rec)
    with that show ?thesis by simp
  qed
  have "length (byte_bits b) = 8" for b by (simp add: byte_bits_def)
  then have "take n (byte_bits x) = take n (byte_bits y) \<longleftrightarrow> (\<forall>j < n. bit x (7 - j) = bit y (7 - j))"
    using assms by (simp only: list_eq_iff_nth_eq) (auto simp: nth)
  then show ?thesis unfolding all by simp
qed

lemma byte_and_mask_eq:
  fixes x y :: byte
  assumes "n < 8"
  shows "x AND NOT (drop_bit n 255) = y AND NOT (drop_bit n 255) \<longleftrightarrow>
         take n (byte_bits x) = take n (byte_bits y)"
proof -
  have "x AND NOT (drop_bit n 255) = y AND NOT (drop_bit n 255) \<longleftrightarrow>
        (\<forall>k. k < 8 \<and> 8 \<le> n + k \<longrightarrow> bit x k = bit y k)"
    by (subst byte_eq_iff_bits) (auto simp only: bit_and_iff bit_high_mask)
  also have "\<dots> \<longleftrightarrow> take n (byte_bits x) = take n (byte_bits y)"
    using assms by (rule high_bits_take)
  finally show ?thesis .
qed

text \<open>Agreement under a mask is agreement on the first bits.\<close>

lemma masked_eq_iff_prefix:
  assumes "length xs = l" and "length ys = l" and "n \<le> 8 * l"
  shows "and_bytes xs (mask_bytes l n) = and_bytes ys (mask_bytes l n) \<longleftrightarrow>
         take n (ip_bits xs) = take n (ip_bits ys)"
  using assms
proof (induction l arbitrary: xs ys n)
  case 0
  then show ?case by simp
next
  case (Suc l)
  then obtain x xs' y ys' where xs: "xs = x # xs'" and ys: "ys = y # ys'"
    and len: "length xs' = l" "length ys' = l"
    by (metis length_Suc_conv)
  show ?case
  proof (cases "8 \<le> n")
    case True
    then show ?thesis
      using Suc.IH[OF len, of "n - 8"] Suc.prems(3)
      by (auto simp: xs ys ip_bits_Cons byte_bits_inject)
  next
    case False
    have "and_bytes xs' (mask_bytes l 0) = and_bytes ys' (mask_bytes l 0)"
      using Suc.IH[OF len, of 0] by simp
    with False show ?thesis
      by (auto simp: xs ys ip_bits_Cons byte_and_mask_eq)
  qed
qed

lemma mask_bytes_full: "mask_bytes l (8 * l) = replicate l 255"
  by (induction l) auto

section \<open>Networks of a parsed CIDR\<close>

text \<open>The form of an address that membership compares: 4 bytes for IPv4 and IPv4-mapped.\<close>

definition canon :: "ip \<Rightarrow> ip" where
  "canon i = (case To4 i of Some i4 \<Rightarrow> i4 | None \<Rightarrow> i)"

text \<open>The specification: same family as the base, and the same first \<open>n\<close> bits.\<close>

definition in_prefix :: "ip \<Rightarrow> nat \<Rightarrow> ip \<Rightarrow> bool" where
  "in_prefix base n x \<longleftrightarrow>
     length (canon x) = length base \<and> take n (ip_bits (canon x)) = take n (ip_bits base)"

lemma length_v4InV6Prefix [simp]: "length v4InV6Prefix = 12"
  by (simp add: v4InV6Prefix_def)

lemma To4_length: "To4 i = Some j \<Longrightarrow> length j = 4"
  by (auto simp: To4_def split: if_splits)

lemma To4_of_4 [simp]: "length i = 4 \<Longrightarrow> To4 i = Some i"
  by (simp add: To4_def)

lemma To4_mapped [simp]: "length j = 4 \<Longrightarrow> To4 (v4InV6Prefix @ j) = Some j"
  by (simp add: To4_def)

lemma To4_None_16: "length i = 16 \<Longrightarrow> To4 i = None \<longleftrightarrow> take 12 i \<noteq> v4InV6Prefix"
  by (simp add: To4_def)

lemma v4_fields_length:
  "v4_fields p v d fs s = Some r \<Longrightarrow> length fs \<le> 3 \<Longrightarrow> length r = 4"
  by (induction p v d fs s rule: v4_fields.induct) (auto split: if_splits)

lemma parseIPv4_length: "parseIPv4 s = Some fs \<Longrightarrow> length fs = 4"
  by (auto simp: parseIPv4_def dest: v4_fields_length)

definition v6_acc_ok :: "byte list \<Rightarrow> nat option \<Rightarrow> bool" where
  "v6_acc_ok acc ell \<longleftrightarrow>
     length acc \<le> 16 \<and> even (length acc) \<and> (\<forall>e. ell = Some e \<longrightarrow> e \<le> length acc)"

lemma v6_acc_ok_snoc:
  "v6_acc_ok acc ell \<Longrightarrow> \<not> 16 \<le> length acc \<Longrightarrow> v6_acc_ok (acc @ [x, y]) ell"
  by (auto simp: v6_acc_ok_def le_Suc_eq)

lemma v6_acc_ok_ell: "v6_acc_ok acc ell \<Longrightarrow> v6_acc_ok acc (Some (length acc))"
  by (auto simp: v6_acc_ok_def)

lemma v6_groups_length:
  "v6_groups acc ell s = Some (acc', ell', r) \<Longrightarrow> v6_acc_ok acc ell \<Longrightarrow> v6_acc_ok acc' ell'"
proof (induction acc ell s rule: v6_groups.induct)
  case (1 acc ell s)
  note eqn = "1.prems"(1)[unfolded v6_groups.simps[of acc ell s] Let_def]
  note ok = "1.prems"(2)
  show ?case
  proof (cases "16 \<le> length acc")
    case True
    with eqn ok show ?thesis by simp
  next
    case False
    define rest where "rest = dropWhile is_hex s"
    define v where "v = foldl (\<lambda>a c. a * 16 + hex_val c) 0 (takeWhile is_hex s)"
    define acc2 where "acc2 = acc @ [word_of_int (v div 256), word_of_int (v mod 256) :: byte]"
    have ok2: "v6_acc_ok acc2 ell"
      unfolding acc2_def using ok False by (rule v6_acc_ok_snoc)
    note eqn' = eqn[folded rest_def, folded v_def, folded acc2_def]
    note IH1 = "1.IH"(1)[OF False refl refl refl refl, folded rest_def, folded v_def, folded acc2_def]
    note IH2 = "1.IH"(2)[OF False refl refl refl refl, folded rest_def, folded v_def, folded acc2_def]
    show ?thesis
    proof (cases "takeWhile is_hex s = [] \<or> 4 < length (takeWhile is_hex s)")
      case True
      with eqn' False show ?thesis by simp
    next
      case digits: False
      show ?thesis
      proof (cases "rest \<noteq> [] \<and> hd rest = CHR ''.''")
        case True
        with eqn' False digits ok show ?thesis
          by (auto simp: v6_acc_ok_def split: if_splits option.splits dest!: parseIPv4_length)
      next
        case dot: False
        note eqn3 = eqn'[unfolded if_not_P[OF False] if_not_P[OF digits] if_not_P[OF dot]]
        show ?thesis
          using eqn3 ok2 IH1[OF digits dot] IH2[OF digits dot] v6_acc_ok_ell[OF ok2]
          by (simp split: if_split_asm) blast?
      qed
    qed
  qed
qed

lemma parseIPv6_length: "parseIPv6 s = Some b \<Longrightarrow> length b = 16"
proof -
  assume eq: "parseIPv6 s = Some b"
  let ?e = "if HasPrefix s ''::'' then Some (0::nat) else None"
  let ?r = "if HasPrefix s ''::'' then drop 2 s else s"
  show ?thesis
  proof (cases "HasPrefix s ''::'' \<and> drop 2 s = []")
    case True
    with eq show ?thesis by (auto simp: parseIPv6_def)
  next
    case False
    from eq False obtain acc ell where g: "v6_groups [] ?e ?r = Some (acc, ell, [])"
      by (auto simp: parseIPv6_def Let_def split: option.splits if_splits)
    have "v6_acc_ok [] ?e" by (simp add: v6_acc_ok_def)
    from v6_groups_length[OF g this]
    have len: "length acc \<le> 16" "\<And>e. ell = Some e \<Longrightarrow> e \<le> length acc"
      by (auto simp: v6_acc_ok_def)
    from eq False g len show ?thesis
      by (auto simp: parseIPv6_def Let_def split: option.splits if_splits)
  qed
qed

text \<open>What \<^const>\<open>ParseAddr\<close> returns: an IPv4-mapped address from dotted decimal, or any
  16 bytes from IPv6 notation.\<close>

lemma ParseAddr_cases:
  assumes "ParseAddr s = Some (b, i)"
  obtains (v4) j where "b = 32" "i = v4InV6Prefix @ j" "length j = 4"
  | (v6) "b = 128" "length i = 16"
proof (cases "addr_kind s")
  case None
  with assms show ?thesis by (simp add: ParseAddr_def)
next
  case (Some c)
  show ?thesis
  proof (cases "c = CHR ''.''")
    case True
    with assms Some obtain fs where "parseIPv4 s = Some fs"
      and "b = 32" "i = v4InV6Prefix @ map word_of_int fs"
      by (auto simp: ParseAddr_def)
    with parseIPv4_length v4 show ?thesis by fastforce
  next
    case False
    with assms Some have "parseIPv6 s = Some i" "b = 128"
      by (auto simp: ParseAddr_def split: if_splits)
    with parseIPv6_length v6 show ?thesis by simp
  qed
qed

lemma ParseIP_length: "ParseIP s = Some i \<Longrightarrow> length i = 16"
  by (auto simp: ParseIP_def elim!: ParseAddr_cases)

text \<open>The network that \<^const>\<open>ParseCIDR\<close> builds from an address and a prefix length.\<close>

definition prefix_net :: "nat \<Rightarrow> ip \<Rightarrow> nat \<Rightarrow> IPNet" where
  "prefix_net bits i n =
     (let m = mask_bytes (bits div 8) n in
      \<lparr>net_IP = and_bytes (if bits = 32 then drop 12 i else i) m, net_Mask = m\<rparr>)"

lemma ip_Mask_prefix:
  assumes "ParseAddr a = Some (b, i)"
  shows "ip_Mask i (mask_bytes (b div 8) n) =
         Some (and_bytes (if b = 32 then drop 12 i else i) (mask_bytes (b div 8) n))"
  using assms by (cases rule: ParseAddr_cases) (simp_all add: ip_Mask_def)

lemma ParseCIDR_slash:
  assumes "CHR ''/'' \<notin> set a" and "ParseAddr a = Some (b, i)" and "m \<noteq> []"
    and "dtoi 0 m = Some k" and "0 \<le> k" and "k \<le> int b"
  shows "ParseCIDR (a @ CHR ''/'' # m) = Some (prefix_net b i (nat k))"
proof -
  from assms(2) have "b = 32 \<or> b = 128" by (cases rule: ParseAddr_cases) auto
  with assms show ?thesis
    by (auto simp: ParseCIDR_def Cut_byte CIDRMask_def ip_Mask_prefix prefix_net_def Let_def)
qed

lemma ParseCIDR_Some:
  assumes "ParseCIDR s = Some net"
  obtains a m b i k where "s = a @ CHR ''/'' # m" "CHR ''/'' \<notin> set a"
    "ParseAddr a = Some (b, i)" "m \<noteq> []" "dtoi 0 m = Some k" "0 \<le> k" "k \<le> int b"
    "net = prefix_net b i (nat k)"
proof (rule Cut_byte_cases[of s "CHR ''/''"])
  fix a m assume s: "s = a @ CHR ''/'' # m" "CHR ''/'' \<notin> set a"
    and cut: "Cut s ''/'' = (a, m, True)"
  from assms cut obtain b i where pa: "ParseAddr a = Some (b, i)"
    by (auto simp: ParseCIDR_def split: option.splits)
  from assms cut pa obtain k where k: "m \<noteq> []" "dtoi 0 m = Some k" "0 \<le> k" "k \<le> int b"
    by (auto simp: ParseCIDR_def split: option.splits if_splits)
  from ParseCIDR_slash[OF s(2) pa k] s(1) assms have "net = prefix_net b i (nat k)" by simp
  with s pa k that show thesis by blast
next
  assume "Cut s ''/'' = (s, [], False)"
  with assms show thesis by (simp add: ParseCIDR_def)
qed

lemma mask_bytes_nth:
  "k < l \<Longrightarrow> mask_bytes l n ! k = (if 8 * k + 8 \<le> n then 255 else NOT (drop_bit (n - 8 * k) 255))"
proof (induction l n arbitrary: k rule: mask_bytes.induct)
  case (1 n)
  then show ?case by simp
next
  case (2 l n)
  show ?case
  proof (cases k)
    case 0
    then show ?thesis by simp
  next
    case (Suc k')
    with 2 show ?thesis by (cases "8 \<le> n") (auto simp: diff_diff_eq)
  qed
qed

lemma mask_bytes_split: "mask_bytes (l + l') (8 * l + n) = replicate l 255 @ mask_bytes l' n"
  by (induction l) auto

lemma and_bytes_ones [simp]: "length xs = l \<Longrightarrow> and_bytes xs (replicate l 255) = xs"
  by (induction l arbitrary: xs) (auto simp: length_Suc_conv)

lemma bit0_255: "bit (255 :: byte) 0"
  by (simp only: bit_255)

text \<open>A masked 16-byte address is IPv4-mapped only when the mask keeps the whole prefix.\<close>

lemma masked_16_mapped:
  assumes "length j = 16" and "n \<le> 128" and "To4 (and_bytes j (mask_bytes 16 n)) = Some d"
  shows "96 \<le> n \<and> take 12 j = v4InV6Prefix \<and> d = and_bytes (drop 12 j) (mask_bytes 4 (n - 96))"
proof -
  from assms have mapped: "take 12 (and_bytes j (mask_bytes 16 n)) = v4InV6Prefix"
    and d: "d = drop 12 (and_bytes j (mask_bytes 16 n))"
    by (auto simp: To4_def split: if_splits)
  have "96 \<le> n"
  proof (rule ccontr)
    assume n: "\<not> 96 \<le> n"
    have "v4InV6Prefix ! 11 = (and_bytes j (mask_bytes 16 n)) ! 11"
      by (subst mapped[symmetric], subst nth_take) simp_all
    also have "\<dots> = j ! 11 AND mask_bytes 16 n ! 11"
      using assms(1) by (simp add: and_bytes_def)
    also have "mask_bytes 16 n ! 11 = NOT (drop_bit (n - 88) 255)"
      using n by (subst mask_bytes_nth) simp_all
    finally have eq: "(255 :: byte) = j ! 11 AND NOT (drop_bit (n - 88) 255)"
      by (simp add: v4InV6Prefix_def)
    have "bit (j ! 11 AND NOT (drop_bit (n - 88) 255)) 0"
      using bit0_255 unfolding eq[symmetric] .
    then have "bit (NOT (drop_bit (n - 88) 255) :: byte) 0"
      by (simp only: bit_and_iff)
    then have "8 \<le> n - 88 + 0" by (simp only: bit_high_mask)
    with n show False by simp
  qed
  then obtain q where q: "n = 96 + q" by (auto simp: le_iff_add)
  have "and_bytes j (mask_bytes 16 n) =
      and_bytes (take 12 j @ drop 12 j) (replicate 12 255 @ mask_bytes 4 q)"
    using mask_bytes_split[of 12 4 q] by (simp only: append_take_drop_id q) simp
  also have "\<dots> = take 12 j @ and_bytes (drop 12 j) (mask_bytes 4 q)"
    using assms(1) by (subst and_bytes_append) simp_all
  finally show ?thesis using mapped d \<open>96 \<le> n\<close> assms(1) by (simp add: q)
qed

text \<open>Membership in a parsed network is agreement with the base on the prefix.\<close>

lemma net_Contains_same_length:
  assumes "networkNumberAndMask net = Some (nn, m)"
  shows "net_Contains net x \<longleftrightarrow>
         length (canon x) = length nn \<and> and_bytes nn m = and_bytes (canon x) m"
  using assms by (simp add: net_Contains_def canon_def Let_def)

lemma masked_contains_iff:
  assumes "networkNumberAndMask net = Some (and_bytes i m, m)" and "m = mask_bytes l n"
    and "length i = l" and "n \<le> 8 * l"
  shows "net_Contains net x \<longleftrightarrow> in_prefix i n x"
proof -
  have "and_bytes i m = and_bytes (canon x) m \<longleftrightarrow> take n (ip_bits i) = take n (ip_bits (canon x))"
    if "length (canon x) = l"
    using masked_eq_iff_prefix[OF assms(3) that assms(4)] assms(2) by simp
  then show ?thesis
    unfolding net_Contains_same_length[OF assms(1)] in_prefix_def
    using assms(2,3) by (auto simp: and_bytes_idem)
qed

lemma prefix_net_v4:
  assumes "length j = 4" and "n \<le> 32"
  shows "net_Contains (prefix_net 32 (v4InV6Prefix @ j) n) x \<longleftrightarrow> in_prefix j n x"
  by (rule masked_contains_iff[of _ _ "mask_bytes 4 n" 4])
    (use assms in \<open>simp_all add: prefix_net_def networkNumberAndMask_def Let_def\<close>)

lemma prefix_net_v6:
  assumes "length i = 16" and "n \<le> 128" and "\<not> (96 \<le> n \<and> take 12 i = v4InV6Prefix)"
  shows "net_Contains (prefix_net 128 i n) x \<longleftrightarrow> in_prefix i n x"
proof (rule masked_contains_iff[of _ _ "mask_bytes 16 n" 16])
  have "To4 (and_bytes i (mask_bytes 16 n)) = None"
    using masked_16_mapped[OF assms(1,2)] assms(3) by (meson not_Some_eq)
  then show "networkNumberAndMask (prefix_net 128 i n) =
      Some (and_bytes i (mask_bytes 16 n), mask_bytes 16 n)"
    using assms(1) by (simp add: prefix_net_def networkNumberAndMask_def Let_def)
qed (use assms in simp_all)

lemma prefix_net_v6_mapped:
  assumes "length j = 4" and "n \<le> 32"
  shows "net_Contains (prefix_net 128 (v4InV6Prefix @ j) (96 + n)) x \<longleftrightarrow> in_prefix j n x"
proof (rule masked_contains_iff[of _ _ "mask_bytes 4 n" 4])
  have m: "mask_bytes 16 (96 + n) = replicate 12 255 @ mask_bytes 4 n"
    using mask_bytes_split[of 12 4 n] by simp
  have "and_bytes (v4InV6Prefix @ j) (mask_bytes 16 (96 + n)) = v4InV6Prefix @ and_bytes j (mask_bytes 4 n)"
    using assms by (simp add: m and_bytes_append)
  then show "networkNumberAndMask (prefix_net 128 (v4InV6Prefix @ j) (96 + n)) =
      Some (and_bytes j (mask_bytes 4 n), mask_bytes 4 n)"
    using assms m by (simp add: prefix_net_def networkNumberAndMask_def Let_def)
qed (use assms in simp_all)

text \<open>A full prefix holds one address.\<close>

lemma in_prefix_full:
  "in_prefix base (8 * length base) x \<longleftrightarrow> canon x = base"
  by (auto simp: in_prefix_def) (metis ip_bits_inject length_ip_bits order_refl take_all)

text \<open>An IPv6 prefix that is not IPv4-mapped holds no IPv4 address, and the reverse.\<close>

lemma in_prefix_family: "in_prefix base n x \<Longrightarrow> length (canon x) = length base"
  by (simp add: in_prefix_def)

end
