(* ===== verification/Go_Time.thy ===== *)
theory Go_Time
  imports Go_Strings
begin

text \<open>
  The part of Go's packages \<^verbatim>\<open>time\<close> and \<^verbatim>\<open>fmt\<close> that RouteMUX calls. A
  \<^verbatim>\<open>time.Duration\<close> is its number of nanoseconds, an \<^typ>\<open>int\<close> (an \<open>int64\<close> in Go: the
  parser below refuses what does not fit). An instant is the type \<open>Instant\<close>, linearly ordered
  by \<^verbatim>\<open>Before\<close>. The fraction of a duration (\<open>1.5h\<close>) is computed exactly here and in
  floating point in Go, which may differ in the last nanosecond.
\<close>

type_synonym duration = int

definition microsecond :: duration where "microsecond = 1000"
definition millisecond :: duration where "millisecond = 1000000"
definition second :: duration where "second = 1000000000"
definition minute :: duration where "minute = 60 * second"
definition hour :: duration where "hour = 60 * minute"

section \<open>Instants\<close>

datatype instant = Instant (nanos: int)

instantiation instant :: linorder
begin

definition less_eq_instant :: "instant \<Rightarrow> instant \<Rightarrow> bool" where
  "less_eq_instant a b = (nanos a \<le> nanos b)"

definition less_instant :: "instant \<Rightarrow> instant \<Rightarrow> bool" where
  "less_instant a b = (nanos a < nanos b)"

instance
  by standard (auto simp: less_eq_instant_def less_instant_def instant.expand)

end

text \<open>\<^verbatim>\<open>time.Time{}\<close>: the first of January of the year 1, before every instant of the clock.\<close>

definition zeroTime :: instant where
  "zeroTime = Instant (- 62135596800 * second)"

text \<open>\<^verbatim>\<open>t.Add(d)\<close>, \<^verbatim>\<open>t.Sub(u)\<close>; \<^verbatim>\<open>t.Before(u)\<close> is \<open>t < u\<close>.\<close>

definition t_add :: "instant \<Rightarrow> duration \<Rightarrow> instant" where
  "t_add t d = Instant (nanos t + d)"

definition t_sub :: "instant \<Rightarrow> instant \<Rightarrow> duration" where
  "t_sub t u = nanos t - nanos u"

lemma t_sub_add [simp]: "t_sub (t_add t d) t = d"
  by (simp add: t_sub_def t_add_def)

lemma less_t_add_iff [simp]: "t < t_add t d \<longleftrightarrow> 0 < d"
  by (simp add: less_instant_def t_add_def)

lemma t_add_mono: "d \<le> e \<Longrightarrow> t_add t d \<le> t_add t e"
  by (simp add: less_eq_instant_def t_add_def)

lemma t_add_le_iff: "t_add t d \<le> u \<longleftrightarrow> d \<le> t_sub u t"
  by (auto simp: less_eq_instant_def t_add_def t_sub_def)

lemma less_t_add_sub: "u < t_add t d \<longleftrightarrow> t_sub u t < d"
  by (auto simp: less_instant_def t_add_def t_sub_def)

section \<open>time.ParseDuration\<close>

fun leadingInt :: "int \<Rightarrow> string \<Rightarrow> (int \<times> string) option" where
  "leadingInt x [] = Some (x, [])"
| "leadingInt x (c # cs) =
     (if \<not> is_digit c then Some (x, c # cs)
      else if 2 ^ 63 div 10 < x then None
      else if 2 ^ 63 < x * 10 + digit_val c then None
      else leadingInt (x * 10 + digit_val c) cs)"

fun leadingFraction :: "int \<Rightarrow> int \<Rightarrow> bool \<Rightarrow> string \<Rightarrow> int \<times> int \<times> string" where
  "leadingFraction x scale overflow [] = (x, scale, [])"
| "leadingFraction x scale overflow (c # cs) =
     (if \<not> is_digit c then (x, scale, c # cs)
      else if overflow \<or> (2 ^ 63 - 1) div 10 < x \<or> 2 ^ 63 < x * 10 + digit_val c
      then leadingFraction x scale True cs
      else leadingFraction (x * 10 + digit_val c) (scale * 10) False cs)"

definition unit_of :: "string \<Rightarrow> int option" where
  "unit_of u =
     (if u = ''ns'' then Some 1
      else if u = ''us'' \<or> u = [CHR 0xC2, CHR 0xB5, CHR ''s''] \<or> u = [CHR 0xCE, CHR 0xBC, CHR ''s'']
      then Some 1000
      else if u = ''ms'' then Some 1000000
      else if u = ''s'' then Some 1000000000
      else if u = ''m'' then Some 60000000000
      else if u = ''h'' then Some 3600000000000
      else None)"

text \<open>The optional fraction after the integer part: digits, scale, rest, and whether it has digits.\<close>

definition duration_frac :: "string \<Rightarrow> int \<times> int \<times> string \<times> bool" where
  "duration_frac s1 =
     (if s1 \<noteq> [] \<and> hd s1 = CHR ''.''
      then (case leadingFraction 0 1 False (tl s1) of
              (f, scale, s2) \<Rightarrow> (f, scale, s2, length s2 \<noteq> length (tl s1)))
      else (0, 1, s1, False))"

definition is_unit_char :: "char \<Rightarrow> bool" where
  "is_unit_char c = (c \<noteq> CHR ''.'' \<and> \<not> is_digit c)"

text \<open>One number with its unit: its value and the rest of the input.\<close>

definition duration_item :: "string \<Rightarrow> (int \<times> string) option" where
  "duration_item s =
     (if s = [] \<or> is_unit_char (hd s) then None
      else (case leadingInt 0 s of
        None \<Rightarrow> None
      | Some (v, s1) \<Rightarrow>
          (case duration_frac s1 of (f, scale, s2, post) \<Rightarrow>
             if length s1 = length s \<and> \<not> post then None
             else if takeWhile is_unit_char s2 = [] then None
             else (case unit_of (takeWhile is_unit_char s2) of
                     None \<Rightarrow> None
                   | Some unit \<Rightarrow>
                       if 2 ^ 63 div unit < v then None
                       else if 2 ^ 63 < v * unit + (if 0 < f then f * unit div scale else 0) then None
                       else Some (v * unit + (if 0 < f then f * unit div scale else 0),
                                  dropWhile is_unit_char s2)))))"

lemma leadingInt_length: "leadingInt x s = Some (v, r) \<Longrightarrow> length r \<le> length s"
  by (induction x s arbitrary: v r rule: leadingInt.induct) (fastforce split: if_splits)+

lemma leadingFraction_length: "length (snd (snd (leadingFraction x sc ov s))) \<le> length s"
  by (induction x sc ov s rule: leadingFraction.induct) auto

lemma duration_frac_length:
  assumes "duration_frac s1 = (f, scale, s2, post)"
  shows "length s2 \<le> length s1"
proof (cases s1)
  case Nil
  with assms show ?thesis by (simp add: duration_frac_def)
next
  case (Cons c cs)
  obtain f' sc' r' where lf: "leadingFraction 0 1 False cs = (f', sc', r')"
    by (cases "leadingFraction 0 1 False cs") auto
  from leadingFraction_length[of 0 1 False cs] lf have "length r' \<le> length cs" by simp
  with assms Cons lf show ?thesis by (auto simp: duration_frac_def split: if_splits)
qed

lemma duration_item_shorter:
  assumes "duration_item s = Some (v, r)"
  shows "length r < length s"
proof -
  obtain v0 s1 where s1: "leadingInt 0 s = Some (v0, s1)"
    using assms by (auto simp: duration_item_def split: if_splits option.splits)
  obtain f sc s2 post where fr: "duration_frac s1 = (f, sc, s2, post)"
    by (cases "duration_frac s1") auto
  have r: "r = dropWhile is_unit_char s2" and u: "takeWhile is_unit_char s2 \<noteq> []"
    using assms by (simp_all add: duration_item_def s1 fr split: if_splits option.splits)
  have "length (takeWhile is_unit_char s2) + length r = length s2"
    unfolding r by (metis length_append takeWhile_dropWhile_id)
  moreover have "0 < length (takeWhile is_unit_char s2)" using u by simp
  moreover have "length s2 \<le> length s"
    using duration_frac_length[OF fr] leadingInt_length[OF s1] by simp
  ultimately show ?thesis by linarith
qed

function duration_items :: "int \<Rightarrow> string \<Rightarrow> int option" where
  "duration_items d s =
     (if s = [] then Some d
      else (case duration_item s of
              None \<Rightarrow> None
            | Some (v, r) \<Rightarrow>
                (let d' = (d + v) mod 2 ^ 64
                 in if 2 ^ 63 < d' then None else duration_items d' r)))"
  by pat_completeness auto
termination
  by (relation "measure (\<lambda>(d, s). length s)") (auto simp: duration_item_shorter)

declare duration_items.simps [simp del]

definition ParseDuration :: "string \<Rightarrow> duration option" where
  "ParseDuration orig =
     (let signed = orig \<noteq> [] \<and> (hd orig = CHR ''-'' \<or> hd orig = CHR ''+'');
          neg = orig \<noteq> [] \<and> hd orig = CHR ''-'';
          s = (if signed then tl orig else orig)
      in if s = ''0'' then Some 0
         else if s = [] then None
         else (case duration_items 0 s of
                 None \<Rightarrow> None
               | Some d \<Rightarrow>
                   if neg then Some (- d)
                   else if 2 ^ 63 - 1 < d then None
                   else Some d))"

section \<open>fmt.Sscanf with the verb percent-d\<close>

text \<open>
  Leading blanks (not newlines) are skipped, then a sign and decimal digits are read; what
  follows the digits is left unread and is no error. A value outside \<open>int64\<close> is an error.
\<close>

fun skip_space :: "string \<Rightarrow> string option" where
  "skip_space [] = Some []"
| "skip_space (c # cs) =
     (if c = CHR 0x0D \<and> cs \<noteq> [] \<and> hd cs = CHR 0x0A then skip_space cs
      else if c = CHR 0x0A then None
      else if is_space c then skip_space cs
      else Some (c # cs))"

fun digits_val :: "int \<Rightarrow> string \<Rightarrow> int" where
  "digits_val a [] = a"
| "digits_val a (c # cs) = digits_val (a * 10 + digit_val c) cs"

definition Sscanf_d :: "string \<Rightarrow> int option" where
  "Sscanf_d s =
     (case skip_space s of
        None \<Rightarrow> None
      | Some t \<Rightarrow>
          (let signed = t \<noteq> [] \<and> (hd t = CHR ''-'' \<or> hd t = CHR ''+'');
               u = (if signed then tl t else t);
               ds = takeWhile is_digit u;
               v = digits_val 0 ds;
               n = (if t \<noteq> [] \<and> hd t = CHR ''-'' then - v else v)
           in if ds = [] \<or> n < - (2 ^ 63) \<or> 2 ^ 63 - 1 < n then None else Some n))"

lemma duration_samples:
  "ParseDuration ''6h'' = Some (6 * hour)"
  "ParseDuration ''1h30m'' = Some (hour + 30 * minute)"
  "ParseDuration ''1.5s'' = Some (second + 500 * millisecond)"
  "ParseDuration ''-5s'' = Some (- (5 * second))"
  "ParseDuration ''5'' = None"
  "ParseDuration ''30d'' = None"
  "Sscanf_d ''200'' = Some 200"
  "Sscanf_d '' 5x'' = Some 5"
  "Sscanf_d ''x'' = None"
  by code_simp+

end
