(* ===== verification/Cidr_List.thy ===== *)
theory Cidr_List
  imports Cidr_Net Go_Time "HOL-Library.AList" "HOL-Library.Multiset"
begin

text \<open>
  \<^verbatim>\<open>src/ipfilter.go\<close>: the lists of networks that the IP filter and the trusted proxies share.
  An entry of the configuration is an inline network, a file or a URL
  (\<open>parseFilterEntry\<close>); files and URLs are read line by line (\<open>parseCIDRLines\<close>); a
  \<open>CIDRList\<close> keeps the networks of each dynamic source apart and recomputes the flat list
  that \<open>Contains\<close> searches (\<open>rebuild\<close>). The file system and the network are the record
  \<open>world\<close>: what is read, whether a file can be created, what a GET answers.
\<close>

section \<open>Entries\<close>

datatype sourceKind = sourceCIDR | sourceFile | sourceURL

record filterSource =
  src_kind :: sourceKind
  src_cidr :: IPNet
  src_path :: string
  src_url :: string
  src_cache :: string
  src_refresh :: duration

definition zeroNet :: IPNet where
  "zeroNet = \<lparr>net_IP = [], net_Mask = []\<rparr>"

definition zeroSource :: filterSource where
  "zeroSource = \<lparr>src_kind = sourceCIDR, src_cidr = zeroNet, src_path = [], src_url = [],
                 src_cache = [], src_refresh = 0\<rparr>"

datatype entryError =
    EmptyEntry
  | InvalidOption string
  | UnknownOption string
  | InvalidRefresh string
  | FileCache string
  | InlineOptions string

text \<open>The two loops that accept addresses give a bare address a full prefix by the same lines:
  \<^const>\<open>None\<close> when the text has no slash and is no address.\<close>

definition cidrString :: "string \<Rightarrow> string option" where
  "cidrString line =
     (if Contains line ''/'' then Some line
      else (case ParseIP line of
              None \<Rightarrow> None
            | Some i \<Rightarrow> Some (line @ (if To4 i \<noteq> None then ''/32'' else ''/128''))))"

definition parseNet :: "string \<Rightarrow> IPNet option" where
  "parseNet line = (case cidrString line of None \<Rightarrow> None | Some c \<Rightarrow> ParseCIDR c)"

text \<open>The loop over the options of an entry, with the variables \<^verbatim>\<open>refreshStr\<close> and
  \<^verbatim>\<open>cacheFile\<close>.\<close>

fun entryOptions :: "string list \<Rightarrow> string \<times> string \<Rightarrow> entryError + string \<times> string" where
  "entryOptions [] st = Inr st"
| "entryOptions (opt # opts) (refreshStr, cacheFile) =
     (case Cut opt ''='' of (k, v, ok) \<Rightarrow>
        if \<not> ok then Inl (InvalidOption opt)
        else if k = ''refresh'' then entryOptions opts (v, cacheFile)
        else if k = ''cache'' then entryOptions opts (refreshStr, v)
        else Inl (UnknownOption k))"

definition entryRefresh :: "string \<Rightarrow> entryError + duration" where
  "entryRefresh refreshStr =
     (if refreshStr = [] then Inr 0
      else (case ParseDuration refreshStr of
              None \<Rightarrow> Inl (InvalidRefresh refreshStr)
            | Some d \<Rightarrow> if d \<le> 0 then Inl (InvalidRefresh refreshStr) else Inr d))"

definition fileEntry :: "filterSource \<Rightarrow> string \<Rightarrow> string \<Rightarrow> entryError + filterSource" where
  "fileEntry src val cacheFile =
     (if cacheFile \<noteq> [] then Inl (FileCache val)
      else Inr (src\<lparr>src_kind := sourceFile, src_path := val\<rparr>))"

text \<open>The second half of the function, after the options were read.\<close>

definition entryValue :: "string \<Rightarrow> string \<Rightarrow> string \<Rightarrow> duration \<Rightarrow> entryError + filterSource" where
  "entryValue val refreshStr cacheFile d =
     (let src = zeroSource\<lparr>src_refresh := d\<rparr> in
      if HasPrefix val ''https://'' \<or> HasPrefix val ''http://'' then
        Inr (src\<lparr>src_kind := sourceURL, src_url := val, src_path := val, src_cache := cacheFile\<rparr>)
      else
        (case cidrString val of
           None \<Rightarrow> fileEntry src val cacheFile
         | Some cidrStr \<Rightarrow>
             (case ParseCIDR cidrStr of
                Some ipNet \<Rightarrow>
                  if refreshStr \<noteq> [] \<or> cacheFile \<noteq> [] then Inl (InlineOptions val)
                  else Inr (src\<lparr>src_kind := sourceCIDR, src_cidr := ipNet\<rparr>)
              | None \<Rightarrow> fileEntry src val cacheFile)))"

definition parseFilterEntry :: "string \<Rightarrow> entryError + filterSource" where
  "parseFilterEntry raw =
     (case Fields raw of
        [] \<Rightarrow> Inl EmptyEntry
      | val # opts \<Rightarrow>
          (case entryOptions opts ([], []) of
             Inl e \<Rightarrow> Inl e
           | Inr (refreshStr, cacheFile) \<Rightarrow>
               (case entryRefresh refreshStr of
                  Inl e \<Rightarrow> Inl e
                | Inr d \<Rightarrow> entryValue val refreshStr cacheFile d)))"

section \<open>The list\<close>

text \<open>\<^verbatim>\<open>dynamic\<close> is a Go map from the index of a source to its networks: an association list
  with distinct keys, in the order in which \<^verbatim>\<open>range\<close> visits it. \<^verbatim>\<open>cancel\<close> is the context
  whose cancel function the list holds.\<close>

record CIDRList =
  cl_nets :: "IPNet list"
  cl_sources :: "filterSource list"
  cl_dynamic :: "(nat \<times> IPNet list) list"
  cl_cancel :: "nat option"

definition newCIDRList :: CIDRList where
  "newCIDRList = \<lparr>cl_nets = [], cl_sources = [], cl_dynamic = [], cl_cancel = None\<rparr>"

fun cidrContains :: "IPNet list \<Rightarrow> ip \<Rightarrow> bool" where
  "cidrContains [] i = False"
| "cidrContains (n # ns) i = (if net_Contains n i then True else cidrContains ns i)"

definition cl_Contains :: "CIDRList \<Rightarrow> ip \<Rightarrow> bool" where
  "cl_Contains cl i = cidrContains (cl_nets cl) i"

definition cl_Len :: "CIDRList \<Rightarrow> nat" where
  "cl_Len cl = length (cl_nets cl)"

definition inlineNets :: "filterSource list \<Rightarrow> IPNet list" where
  "inlineNets srcs = map src_cidr (filter (\<lambda>s. src_kind s = sourceCIDR) srcs)"

definition rebuild :: "CIDRList \<Rightarrow> CIDRList" where
  "rebuild cl =
     cl\<lparr>cl_nets := inlineNets (cl_sources cl) @ concat (map snd (cl_dynamic cl))\<rparr>"

definition setDynamic :: "nat \<Rightarrow> IPNet list \<Rightarrow> CIDRList \<Rightarrow> CIDRList" where
  "setDynamic idx cidrs cl = rebuild (cl\<lparr>cl_dynamic := AList.update idx cidrs (cl_dynamic cl)\<rparr>)"

definition addToCIDRList :: "CIDRList option \<Rightarrow> filterSource \<Rightarrow> CIDRList" where
  "addToCIDRList clp src =
     (let cl = (case clp of None \<Rightarrow> newCIDRList | Some cl \<Rightarrow> cl);
          cl = cl\<lparr>cl_sources := cl_sources cl @ [src]\<rparr>
      in if src_kind src = sourceCIDR then cl\<lparr>cl_nets := cl_nets cl @ [src_cidr src]\<rparr> else cl)"

definition buildStep :: "string \<Rightarrow> CIDRList \<Rightarrow> (string \<times> entryError) + CIDRList" where
  "buildStep raw cl =
     (case parseFilterEntry raw of
        Inl e \<Rightarrow> Inl (raw, e)
      | Inr src \<Rightarrow> Inr (addToCIDRList (Some cl) src))"

definition buildCIDRList :: "string list \<Rightarrow> (string \<times> entryError) + CIDRList option" where
  "buildCIDRList entries =
     (if entries = [] then Inr None
      else (case rfold buildStep entries newCIDRList of Inl e \<Rightarrow> Inl e | Inr cl \<Rightarrow> Inr (Some cl)))"

section \<open>Reading files and URLs\<close>

text \<open>
  A reader gives some bytes and then ends, by \<^verbatim>\<open>io.EOF\<close> or by an error. The scanner of package
  \<^verbatim>\<open>bufio\<close> splits at newlines, drops one carriage return before each, and gives up on a
  line of 65536 bytes.
\<close>

record reader =
  rd_bytes :: string
  rd_failed :: bool

definition dropCR :: "string \<Rightarrow> string" where
  "dropCR s = (if s \<noteq> [] \<and> last s = CHR 0x0D then butlast s else s)"

function scan_lines :: "string \<Rightarrow> string list \<times> bool" where
  "scan_lines s =
     (if s = [] then ([], False)
      else
        let l = takeWhile (\<lambda>c. c \<noteq> CHR 0x0A) s; r = dropWhile (\<lambda>c. c \<noteq> CHR 0x0A) s in
        if 65536 \<le> int (length l) then ([], True)
        else (case scan_lines (drop 1 r) of (ls, bad) \<Rightarrow> (dropCR l # ls, bad)))"
  by pat_completeness auto
termination
proof (relation "measure length", goal_cases)
  case (2 s l r)
  have "length (drop 1 (dropWhile (\<lambda>c. c \<noteq> CHR 0x0A) s)) < length s"
    using 2(1) length_dropWhile_le[of "\<lambda>c. c \<noteq> CHR 0x0A" "tl s"]
    by (cases s) (auto simp: less_Suc_eq_le le_diff_conv intro: le_trans[OF length_dropWhile_le])
  with 2 show ?case by simp
qed simp

declare scan_lines.simps [simp del]

definition lineNet :: "string \<Rightarrow> IPNet option" where
  "lineNet text =
     (let line = TrimSpace text in
      if line = [] \<or> HasPrefix line ''#'' then None else parseNet line)"

text \<open>The networks read, and whether \<^verbatim>\<open>sc.Err()\<close> is an error.\<close>

definition parseCIDRLines :: "reader \<Rightarrow> IPNet list \<times> bool" where
  "parseCIDRLines r =
     (case scan_lines (rd_bytes r) of (ls, tooLong) \<Rightarrow>
        (List.map_filter lineNet ls, tooLong \<or> rd_failed r))"

record world =
  w_open :: "string \<Rightarrow> reader option"
  w_mtime :: "string \<Rightarrow> instant option"
  w_writable :: "string \<Rightarrow> bool"
  w_get :: "string \<Rightarrow> (int \<times> reader) option"
  w_now :: instant

definition loadCIDRsFromFile :: "world \<Rightarrow> string \<Rightarrow> IPNet list \<times> bool" where
  "loadCIDRsFromFile w path =
     (case w_open w path of None \<Rightarrow> ([], True) | Some r \<Rightarrow> parseCIDRLines r)"

definition loadCIDRsFromURL :: "world \<Rightarrow> string \<Rightarrow> IPNet list \<times> bool" where
  "loadCIDRsFromURL w rawURL =
     (case w_get w rawURL of
        None \<Rightarrow> ([], True)
      | Some (status, body) \<Rightarrow> if status \<noteq> 200 then ([], True) else parseCIDRLines body)"

text \<open>\<^verbatim>\<open>IPNet.String\<close>, which the cache file is written with: dotted decimal, or the
  hexadecimal groups of IPv6 with the first longest run of two or more zero groups shortened.\<close>

function decimal_of :: "int \<Rightarrow> string" where
  "decimal_of n =
     (if n < 10 then [char_of (48 + n)] else decimal_of (n div 10) @ [char_of (48 + n mod 10)])"
  by pat_completeness auto
termination
  by (relation "measure nat") auto

declare decimal_of.simps [simp del]

definition dotted :: "byte list \<Rightarrow> string" where
  "dotted bs = Join (map (\<lambda>b. decimal_of (uint b)) bs) ''.''"

definition hex_digit :: "int \<Rightarrow> char" where
  "hex_digit n = char_of (if n < 10 then 48 + n else 87 + n)"

function hex_of :: "int \<Rightarrow> string" where
  "hex_of n = (if n < 16 then [hex_digit n] else hex_of (n div 16) @ [hex_digit (n mod 16)])"
  by pat_completeness auto
termination
  by (relation "measure nat") auto

declare hex_of.simps [simp del]

fun v6_groups_of :: "byte list \<Rightarrow> int list" where
  "v6_groups_of (a # b # bs) = (uint a * 256 + uint b) # v6_groups_of bs"
| "v6_groups_of bs = []"

definition zero_run :: "int list \<Rightarrow> nat" where
  "zero_run gs = length (takeWhile (\<lambda>g. g = 0) gs)"

text \<open>The start and length of the run to shorten; the length is 0 when there is none.\<close>

definition longest_run :: "int list \<Rightarrow> nat \<times> nat" where
  "longest_run gs =
     fold (\<lambda>i (st, l). let l' = zero_run (drop i gs) in
             if 2 \<le> l' \<and> l < l' then (i, l') else (st, l)) [0..<length gs] (0, 0)"

definition v6_string :: "byte list \<Rightarrow> string" where
  "v6_string bs =
     (let gs = v6_groups_of bs; (st, l) = longest_run gs; hexs = (\<lambda>gs. Join (map hex_of gs) '':'')
      in if l = 0 then hexs gs else hexs (take st gs) @ ''::'' @ hexs (drop (st + l) gs))"

definition ip_String :: "ip \<Rightarrow> string" where
  "ip_String i = (case To4 i of Some i4 \<Rightarrow> dotted i4 | None \<Rightarrow> v6_string i)"

text \<open>\<^verbatim>\<open>simpleMaskLength\<close> of a mask that \<^const>\<open>mask_bytes\<close> made: the number of its ones.\<close>

definition mask_ones :: "byte list \<Rightarrow> int" where
  "mask_ones m = int (length (filter (\<lambda>b. b) (ip_bits m)))"

definition net_String :: "IPNet \<Rightarrow> string" where
  "net_String n =
     (case networkNumberAndMask n of
        None \<Rightarrow> ''<nil>''
      | Some (nn, m) \<Rightarrow> ip_String nn @ ''/'' @ decimal_of (mask_ones m))"

lemma net_String_samples:
  "map_option net_String (ParseCIDR ''10.1.2.3/9'') = Some ''10.0.0.0/9''"
  "map_option net_String (ParseCIDR ''2001:db8:0:0:1:0:0:1/128'') = Some ''2001:db8::1:0:0:1/128''"
  "map_option net_String (ParseCIDR ''::/0'') = Some ''::/0''"
  "map_option net_String (ParseCIDR ''::ffff:1.2.3.4/104'') = Some ''1.0.0.0/8''"
  by code_simp+

section \<open>Loading\<close>

text \<open>\<^verbatim>\<open>writeCacheFile\<close>: a temporary file beside the cache, renamed over it; a failure of
  creating, closing or renaming it leaves the old cache (\<open>w_writable\<close> is false).\<close>

definition cacheText :: "IPNet list \<Rightarrow> string" where
  "cacheText nets = concat (map (\<lambda>n. net_String n @ [CHR 0x0A]) nets)"

definition writeCacheFile :: "string \<Rightarrow> IPNet list \<Rightarrow> world \<Rightarrow> world" where
  "writeCacheFile path nets w =
     (if w_writable w path then
        w\<lparr>w_open := (w_open w)(path \<mapsto> \<lparr>rd_bytes = cacheText nets, rd_failed = False\<rparr>),
          w_mtime := (w_mtime w)(path \<mapsto> w_now w)\<rparr>
      else w)"

text \<open>\<^verbatim>\<open>loadSource\<close> returns the networks, whether they come from a cache, and whether it
  failed; it may write a cache file.\<close>

definition loadSource :: "filterSource \<Rightarrow> world \<Rightarrow> (IPNet list \<times> bool \<times> bool) \<times> world" where
  "loadSource src w =
     (case src_kind src of
        sourceFile \<Rightarrow> (case loadCIDRsFromFile w (src_path src) of (cidrs, err) \<Rightarrow> ((cidrs, False, err), w))
      | sourceURL \<Rightarrow>
          (case loadCIDRsFromFile w (src_cache src) of (cached, cerr) \<Rightarrow>
             if src_cache src \<noteq> [] \<and> \<not> cerr then ((cached, True, False), w)
             else
               (case loadCIDRsFromURL w (src_url src) of (cidrs, err) \<Rightarrow>
                  if err then (([], False, True), w)
                  else ((cidrs, False, False),
                        if src_cache src \<noteq> [] then writeCacheFile (src_cache src) cidrs w else w)))
      | sourceCIDR \<Rightarrow> (([], False, True), w))"

section \<open>Entries: what parsing accepts\<close>

text \<open>Well-formed sources: options only where the kind supports them.\<close>

definition source_ok :: "filterSource \<Rightarrow> bool" where
  "source_ok src \<longleftrightarrow>
     0 \<le> src_refresh src \<and>
     (src_kind src = sourceCIDR \<longrightarrow> src_refresh src = 0) \<and>
     (src_cache src \<noteq> [] \<longrightarrow> src_kind src = sourceURL)"

lemma entryRefresh_Inr:
  "entryRefresh r = Inr d \<Longrightarrow> 0 \<le> d \<and> (d = 0 \<longleftrightarrow> r = [])"
  by (auto simp: entryRefresh_def split: if_splits option.splits)

lemma fileEntry_Inr:
  "fileEntry src val c = Inr s \<longleftrightarrow> c = [] \<and> s = src\<lparr>src_kind := sourceFile, src_path := val\<rparr>"
  by (auto simp: fileEntry_def)

lemma parseFilterEntry_cases:
  assumes "parseFilterEntry raw = Inr src"
  obtains (url_entry) val opts d c where "Fields raw = val # opts"
      "HasPrefix val ''https://'' \<or> HasPrefix val ''http://''" "0 \<le> d"
      "src = \<lparr>src_kind = sourceURL, src_cidr = zeroNet, src_path = val, src_url = val,
              src_cache = c, src_refresh = d\<rparr>"
  | (inline_entry) val opts net where "Fields raw = val # opts" "parseNet val = Some net"
      "src = \<lparr>src_kind = sourceCIDR, src_cidr = net, src_path = [], src_url = [],
              src_cache = [], src_refresh = 0\<rparr>"
  | (file_entry) val opts d where "Fields raw = val # opts" "parseNet val = None" "0 \<le> d"
      "src = \<lparr>src_kind = sourceFile, src_cidr = zeroNet, src_path = val, src_url = [],
              src_cache = [], src_refresh = d\<rparr>"
proof (cases "Fields raw")
  case Nil
  with assms show ?thesis by (simp add: parseFilterEntry_def)
next
  case (Cons val opts)
  from assms Cons obtain r c d where o: "entryOptions opts ([], []) = Inr (r, c)"
    and d: "entryRefresh r = Inr d"
    by (auto simp: parseFilterEntry_def split: sum.splits)
  note eq = assms[unfolded parseFilterEntry_def Cons list.case o sum.case prod.case d entryValue_def Let_def]
  show ?thesis
  proof (cases "HasPrefix val ''https://'' \<or> HasPrefix val ''http://''")
    case True
    with eq have "src = \<lparr>src_kind = sourceURL, src_cidr = zeroNet, src_path = val, src_url = val,
              src_cache = c, src_refresh = d\<rparr>"
      by (simp add: zeroSource_def)
    with url_entry Cons True entryRefresh_Inr[OF d] show ?thesis by blast
  next
    case False
    show ?thesis
    proof (cases "parseNet val")
      case None
      with eq False have "fileEntry (zeroSource\<lparr>src_refresh := d\<rparr>) val c = Inr src"
        by (auto simp: parseNet_def split: option.splits)
      then have "src = \<lparr>src_kind = sourceFile, src_cidr = zeroNet, src_path = val, src_url = [],
              src_cache = [], src_refresh = d\<rparr>"
        by (simp add: fileEntry_Inr zeroSource_def)
      with file_entry Cons None entryRefresh_Inr[OF d] show ?thesis by blast
    next
      case (Some net)
      with eq False have "r = [] \<and> c = [] \<and> src = zeroSource\<lparr>src_refresh := d,
          src_kind := sourceCIDR, src_cidr := net\<rparr>"
        by (auto simp: parseNet_def split: option.splits if_splits)
      with entryRefresh_Inr[OF d] have "src = \<lparr>src_kind = sourceCIDR, src_cidr = net, src_path = [],
          src_url = [], src_cache = [], src_refresh = 0\<rparr>"
        by (simp add: zeroSource_def)
      with inline_entry Cons Some show ?thesis by blast
    qed
  qed
qed

lemma parseFilterEntry_source_ok: "parseFilterEntry raw = Inr src \<Longrightarrow> source_ok src"
  by (erule parseFilterEntry_cases) (auto simp: source_ok_def)

section \<open>Bare addresses\<close>

lemma dtoi_full: "dtoi 0 ''32'' = Some 32" "dtoi 0 ''128'' = Some 128"
  by code_simp+

text \<open>A bare IPv4 address, or an IPv6 address that is not IPv4-mapped, stands for itself only.\<close>

lemma parseNet_bare_v4:
  assumes "CHR ''/'' \<notin> set s" and "ParseAddr s = Some (32, i)"
  shows "parseNet s = Some (prefix_net 32 i 32)"
proof -
  from assms(2) obtain j where i: "i = v4InV6Prefix @ j" "length j = 4"
    by (cases rule: ParseAddr_cases) auto
  then have "cidrString s = Some (s @ CHR ''/'' # ''32'')"
    using assms by (simp add: cidrString_def Contains_byte_iff ParseIP_def)
  with ParseCIDR_slash[OF assms _ dtoi_full(1)] show ?thesis
    by (simp add: parseNet_def)
qed

lemma parseNet_bare_v6:
  assumes "CHR ''/'' \<notin> set s" and "ParseAddr s = Some (128, i)"
  shows "parseNet s = Some (prefix_net 128 i (if take 12 i = v4InV6Prefix then 32 else 128))"
proof -
  from assms(2) have i: "length i = 16"
    by (cases rule: ParseAddr_cases) auto
  then have "cidrString s = Some (s @ CHR ''/'' # (if take 12 i = v4InV6Prefix then ''32'' else ''128''))"
    using assms To4_None_16[OF i] by (auto simp: cidrString_def Contains_byte_iff ParseIP_def)
  with ParseCIDR_slash[OF assms _ dtoi_full(1)] ParseCIDR_slash[OF assms _ dtoi_full(2)]
  show ?thesis
    by (auto simp: parseNet_def)
qed

section \<open>Membership\<close>

lemma cidrContains_iff [cidr_simps]: "cidrContains ns i \<longleftrightarrow> (\<exists>n \<in> set ns. net_Contains n i)"
  by (induction ns) auto

lemma set_inlineNets:
  "n \<in> set (inlineNets srcs) \<longleftrightarrow> (\<exists>s \<in> set srcs. src_kind s = sourceCIDR \<and> src_cidr s = n)"
  by (auto simp: inlineNets_def)

lemma inlineNets_snoc:
  "inlineNets (srcs @ [s]) = inlineNets srcs @ (if src_kind s = sourceCIDR then [src_cidr s] else [])"
  by (simp add: inlineNets_def)

text \<open>The flat list holds what the inline sources and the loaded ones hold.\<close>

definition nets_current :: "CIDRList \<Rightarrow> bool" where
  "nets_current cl \<longleftrightarrow> cl_nets cl = inlineNets (cl_sources cl) @ concat (map snd (cl_dynamic cl))"

lemma nets_current_rebuild [simp]: "nets_current (rebuild cl)"
  by (simp add: nets_current_def rebuild_def)

lemma rebuild_id: "nets_current cl \<Longrightarrow> rebuild cl = cl"
  by (simp add: nets_current_def rebuild_def)

lemma rebuild_sel [simp]:
  "cl_sources (rebuild cl) = cl_sources cl"
  "cl_dynamic (rebuild cl) = cl_dynamic cl"
  "cl_cancel (rebuild cl) = cl_cancel cl"
  by (simp_all add: rebuild_def)

lemma setDynamic_sel [simp]:
  "cl_sources (setDynamic idx c cl) = cl_sources cl"
  "cl_dynamic (setDynamic idx c cl) = AList.update idx c (cl_dynamic cl)"
  "cl_cancel (setDynamic idx c cl) = cl_cancel cl"
  by (simp_all add: setDynamic_def)

lemma nets_current_setDynamic [simp]: "nets_current (setDynamic idx c cl)"
  by (simp add: setDynamic_def)

lemma nets_current_Contains [cidr_simps]:
  assumes "nets_current cl" and "distinct (map fst (cl_dynamic cl))"
  shows "cl_Contains cl i \<longleftrightarrow>
     (\<exists>s \<in> set (cl_sources cl). src_kind s = sourceCIDR \<and> net_Contains (src_cidr s) i) \<or>
     (\<exists>idx ns. map_of (cl_dynamic cl) idx = Some ns \<and> cidrContains ns i)"
proof -
  have "cl_Contains cl i \<longleftrightarrow>
     (\<exists>s \<in> set (cl_sources cl). src_kind s = sourceCIDR \<and> net_Contains (src_cidr s) i) \<or>
     (\<exists>p \<in> set (cl_dynamic cl). cidrContains (snd p) i)"
    using assms(1)[unfolded nets_current_def]
    by (simp add: cl_Contains_def cidrContains_iff inlineNets_def bex_Un) blast
  also have "(\<exists>p \<in> set (cl_dynamic cl). cidrContains (snd p) i) \<longleftrightarrow>
      (\<exists>idx ns. (idx, ns) \<in> set (cl_dynamic cl) \<and> cidrContains ns i)"
    by force
  finally show ?thesis by (simp only: map_of_eq_Some_iff[OF assms(2)])
qed

text \<open>The order in which \<^verbatim>\<open>range\<close> visits the map is not observable.\<close>

lemma rebuild_order:
  assumes "mset (cl_dynamic cl) = mset d"
  shows "cl_Contains (rebuild (cl\<lparr>cl_dynamic := d\<rparr>)) i = cl_Contains (rebuild cl) i"
    and "cl_Len (rebuild (cl\<lparr>cl_dynamic := d\<rparr>)) = cl_Len (rebuild cl)"
proof -
  have set_eq: "set d = set (cl_dynamic cl)" by (metis assms mset_eq_setD)
  then show "cl_Contains (rebuild (cl\<lparr>cl_dynamic := d\<rparr>)) i = cl_Contains (rebuild cl) i"
    by (auto simp: cl_Contains_def rebuild_def cidrContains_iff)
  have "mset (map (length \<circ> snd) d) = mset (map (length \<circ> snd) (cl_dynamic cl))"
    using assms by simp
  then have "sum_list (map (length \<circ> snd) d) = sum_list (map (length \<circ> snd) (cl_dynamic cl))"
    by (metis sum_mset_sum_list)
  then show "cl_Len (rebuild (cl\<lparr>cl_dynamic := d\<rparr>)) = cl_Len (rebuild cl)"
    by (simp add: cl_Len_def rebuild_def length_concat comp_def)
qed

text \<open>A built list holds its inline networks before anything is loaded.\<close>

definition built_ok :: "CIDRList \<Rightarrow> bool" where
  "built_ok cl \<longleftrightarrow>
     nets_current cl \<and> cl_dynamic cl = [] \<and> cl_cancel cl = None \<and> list_all source_ok (cl_sources cl)"

lemma newCIDRList_ok: "built_ok newCIDRList"
  by (simp add: built_ok_def newCIDRList_def nets_current_def inlineNets_def)

lemma addToCIDRList_ok:
  assumes "\<forall>cl. clp = Some cl \<longrightarrow> built_ok cl" and "source_ok src"
  shows "built_ok (addToCIDRList clp src)"
  using assms newCIDRList_ok
  by (cases clp) (auto simp: built_ok_def addToCIDRList_def nets_current_def inlineNets_snoc Let_def)

lemma addToCIDRList_sources:
  "cl_sources (addToCIDRList clp src) = (case clp of None \<Rightarrow> [] | Some cl \<Rightarrow> cl_sources cl) @ [src]"
  by (cases clp) (simp_all add: addToCIDRList_def newCIDRList_def Let_def)

lemma build_loop:
  assumes "rfold buildStep entries cl = Inr cl'"
    and "built_ok cl"
  shows "built_ok cl' \<and>
    list_all2 (\<lambda>raw src. parseFilterEntry raw = Inr src) entries
      (drop (length (cl_sources cl)) (cl_sources cl')) \<and>
    take (length (cl_sources cl)) (cl_sources cl') = cl_sources cl"
  using assms
proof (induction entries arbitrary: cl)
  case Nil
  then show ?case by simp
next
  case (Cons raw entries)
  then obtain src where p: "parseFilterEntry raw = Inr src"
    by (auto simp: buildStep_def split: sum.splits)
  let ?cl = "addToCIDRList (Some cl) src"
  have ok: "built_ok ?cl"
    using Cons.prems(2) parseFilterEntry_source_ok[OF p] by (intro addToCIDRList_ok) auto
  have srcs: "cl_sources ?cl = cl_sources cl @ [src]" by (simp add: addToCIDRList_sources)
  have IH: "built_ok cl'"
    "list_all2 (\<lambda>raw src. parseFilterEntry raw = Inr src) entries
       (drop (Suc (length (cl_sources cl))) (cl_sources cl'))"
    "take (Suc (length (cl_sources cl))) (cl_sources cl') = cl_sources cl @ [src]"
    using Cons.IH[of ?cl] Cons.prems(1) p ok srcs by (auto simp: buildStep_def)
  obtain rest where "cl_sources cl' = cl_sources cl @ src # rest"
    using IH(3) by (metis append_take_drop_id append.assoc append_Cons append_Nil)
  with IH p show ?case by simp
qed

end
