(* ===== verification/Cidr_Refresh.thy ===== *)
theory Cidr_Refresh
  imports Cidr_List
begin

text \<open>
  Loading and background refresh of a \<open>CIDRList\<close> (\<open>Load\<close>, \<open>AsyncRefresh\<close>,
  \<open>StartRefresh\<close>, \<open>Stop\<close> in \<^verbatim>\<open>src/ipfilter.go\<close>). A goroutine is a \<open>refresher\<close>: the
  context and the source it was started with, whether it runs once, and its \<^verbatim>\<open>lastMtime\<close>.
  The cancelled contexts are a list. A step is one operation of the owner, one tick of a
  goroutine, its end, or a change of the files and the web. The tick of a ticker is not timed:
  it can come at any moment, also after the context was cancelled, since \<^verbatim>\<open>select\<close> picks
  either of two ready cases. \<open>Load\<close> is one step; its updates take the lock one by one in the
  code.
\<close>

section \<open>State\<close>

record refresher =
  g_ctx :: nat
  g_idx :: nat
  g_onetime :: bool
  g_last :: instant

record refresh_state =
  rs_list :: CIDRList
  rs_world :: world
  rs_next :: nat
  rs_cancelled :: "nat list"
  rs_gos :: "refresher list"

section \<open>Operations\<close>

text \<open>The first lines of \<open>Load\<close> and \<open>StartRefresh\<close>: cancel the old context, make a new one.\<close>

definition renewContext :: "refresh_state \<Rightarrow> nat \<times> refresh_state" where
  "renewContext st =
     (rs_next st,
      st\<lparr>rs_cancelled := (case cl_cancel (rs_list st) of None \<Rightarrow> [] | Some c \<Rightarrow> [c]) @ rs_cancelled st,
         rs_list := (rs_list st)\<lparr>cl_cancel := Some (rs_next st)\<rparr>,
         rs_next := Suc (rs_next st)\<rparr>)"

definition AsyncRefresh :: "nat \<Rightarrow> nat \<Rightarrow> bool \<Rightarrow> refresh_state \<Rightarrow> refresh_state" where
  "AsyncRefresh ctx idx onetime st =
     (let src = cl_sources (rs_list st) ! idx in
      if src_kind src = sourceCIDR \<or> src_refresh src = 0 then st
      else st\<lparr>rs_gos := rs_gos st @ [\<lparr>g_ctx = ctx, g_idx = idx, g_onetime = onetime, g_last = zeroTime\<rparr>]\<rparr>)"

definition loadOne :: "nat \<Rightarrow> nat \<Rightarrow> refresh_state \<Rightarrow> refresh_state" where
  "loadOne ctx i st =
     (let src = cl_sources (rs_list st) ! i in
      if src_kind src = sourceCIDR then st
      else (case loadSource src (rs_world st) of ((cidrs, cached, err), w) \<Rightarrow>
              let st = st\<lparr>rs_world := w,
                          rs_list := setDynamic i (if err then [] else cidrs) (rs_list st)\<rparr>
              in if cached then AsyncRefresh ctx i True st else st))"

definition Load :: "refresh_state \<Rightarrow> refresh_state" where
  "Load st =
     (case renewContext st of (ctx, st) \<Rightarrow>
        let st = fold (loadOne ctx) [0..<length (cl_sources (rs_list st))] st
        in st\<lparr>rs_list := rebuild (rs_list st)\<rparr>)"

definition StartRefresh :: "refresh_state \<Rightarrow> refresh_state" where
  "StartRefresh st =
     (case renewContext st of (ctx, st) \<Rightarrow>
        fold (\<lambda>i. AsyncRefresh ctx i False) [0..<length (cl_sources (rs_list st))] st)"

definition Stop :: "refresh_state \<Rightarrow> refresh_state" where
  "Stop st =
     (case cl_cancel (rs_list st) of
        None \<Rightarrow> st
      | Some c \<Rightarrow> st\<lparr>rs_cancelled := c # rs_cancelled st,
                      rs_list := (rs_list st)\<lparr>cl_cancel := None\<rparr>\<rparr>)"

text \<open>The closure \<^verbatim>\<open>refreshFromSource\<close>.\<close>

definition refreshFromSource :: "filterSource \<Rightarrow> world \<Rightarrow> (IPNet list \<times> bool) \<times> world" where
  "refreshFromSource src w =
     (if src_kind src = sourceURL then
        (case loadCIDRsFromURL w (src_url src) of (cidrs, err) \<Rightarrow>
           if err then (([], True), w)
           else ((cidrs, False), if src_cache src \<noteq> [] then writeCacheFile (src_cache src) cidrs w else w))
      else (loadCIDRsFromFile w (src_path src), w))"

definition refreshList :: "nat \<Rightarrow> refresh_state \<Rightarrow> refresh_state" where
  "refreshList idx st =
     (case refreshFromSource (cl_sources (rs_list st) ! idx) (rs_world st) of ((cidrs, err), w) \<Rightarrow>
        st\<lparr>rs_world := w, rs_list := (if err then rs_list st else setDynamic idx cidrs (rs_list st))\<rparr>)"

text \<open>One run of a one-time goroutine, and one \<^verbatim>\<open><-ticker.C\<close> of the \<open>k\<close>th goroutine.\<close>

definition runOnce :: "nat \<Rightarrow> refresh_state \<Rightarrow> refresh_state" where
  "runOnce k st =
     (let g = rs_gos st ! k; src = cl_sources (rs_list st) ! g_idx g;
          st' = (if src_kind src = sourceURL \<and> src_cache src \<noteq> [] then refreshList (g_idx g) st else st)
      in st'\<lparr>rs_gos := take k (rs_gos st) @ drop (Suc k) (rs_gos st)\<rparr>)"

definition tick :: "nat \<Rightarrow> refresh_state \<Rightarrow> refresh_state" where
  "tick k st =
     (let g = rs_gos st ! k; src = cl_sources (rs_list st) ! g_idx g in
      if src_kind src = sourceFile then
        (case w_mtime (rs_world st) (src_path src) of
           None \<Rightarrow> st
         | Some t \<Rightarrow>
             if \<not> g_last g < t then st
             else refreshList (g_idx g) (st\<lparr>rs_gos := (rs_gos st)[k := g\<lparr>g_last := t\<rparr>]\<rparr>))
      else refreshList (g_idx g) st)"

definition exitGo :: "nat \<Rightarrow> refresh_state \<Rightarrow> refresh_state" where
  "exitGo k st = st\<lparr>rs_gos := take k (rs_gos st) @ drop (Suc k) (rs_gos st)\<rparr>"

section \<open>Steps\<close>

inductive rstep :: "refresh_state \<Rightarrow> refresh_state \<Rightarrow> bool" where
  load: "rstep st (Load st)"
| start: "rstep st (StartRefresh st)"
| stop: "rstep st (Stop st)"
| tick: "k < length (rs_gos st) \<Longrightarrow> \<not> g_onetime (rs_gos st ! k) \<Longrightarrow> rstep st (tick k st)"
| once: "k < length (rs_gos st) \<Longrightarrow> g_onetime (rs_gos st ! k) \<Longrightarrow> rstep st (runOnce k st)"
| exit: "k < length (rs_gos st) \<Longrightarrow> \<not> g_onetime (rs_gos st ! k) \<Longrightarrow>
         g_ctx (rs_gos st ! k) \<in> set (rs_cancelled st) \<Longrightarrow> rstep st (exitGo k st)"
| world: "rstep st (st\<lparr>rs_world := w\<rparr>)"

inductive_cases rstepE: "rstep st st'"

definition rinit :: "CIDRList \<Rightarrow> world \<Rightarrow> refresh_state" where
  "rinit cl w = \<lparr>rs_list = cl, rs_world = w, rs_next = 0, rs_cancelled = [], rs_gos = []\<rparr>"

inductive rreach :: "CIDRList \<Rightarrow> world \<Rightarrow> refresh_state \<Rightarrow> bool" for cl w where
  init: "rreach cl w (rinit cl w)"
| step: "rreach cl w st \<Longrightarrow> rstep st st' \<Longrightarrow> rreach cl w st'"

section \<open>Invariants\<close>

text \<open>The list: the sources never change, the flat list is current, and only dynamic sources
  have an entry in the map.\<close>

definition list_inv :: "CIDRList \<Rightarrow> CIDRList \<Rightarrow> bool" where
  "list_inv cl0 cl \<longleftrightarrow>
     cl_sources cl = cl_sources cl0 \<and> nets_current cl \<and> distinct (map fst (cl_dynamic cl)) \<and>
     (\<forall>i \<in> fst ` set (cl_dynamic cl). i < length (cl_sources cl) \<and> src_kind (cl_sources cl ! i) \<noteq> sourceCIDR)"

text \<open>The goroutines: each runs for a dynamic source with a refresh interval, in a context
  that was made; a periodic one in a live context belongs to the context the list holds, and
  there is at most one of these for each source.\<close>

definition live :: "refresh_state \<Rightarrow> refresher \<Rightarrow> bool" where
  "live st g \<longleftrightarrow> \<not> g_onetime g \<and> g_ctx g \<notin> set (rs_cancelled st)"

definition go_ok :: "refresh_state \<Rightarrow> refresher \<Rightarrow> bool" where
  "go_ok st g \<longleftrightarrow>
     g_ctx g < rs_next st \<and> g_idx g < length (cl_sources (rs_list st)) \<and>
     src_kind (cl_sources (rs_list st) ! g_idx g) \<noteq> sourceCIDR \<and>
     src_refresh (cl_sources (rs_list st) ! g_idx g) \<noteq> 0 \<and>
     (live st g \<longrightarrow> cl_cancel (rs_list st) = Some (g_ctx g))"

definition ctx_ok :: "refresh_state \<Rightarrow> bool" where
  "ctx_ok st \<longleftrightarrow>
     (\<forall>c. cl_cancel (rs_list st) = Some c \<longrightarrow> c < rs_next st \<and> c \<notin> set (rs_cancelled st)) \<and>
     (\<forall>c \<in> set (rs_cancelled st). c < rs_next st)"

definition gos_inv :: "refresh_state \<Rightarrow> bool" where
  "gos_inv st \<longleftrightarrow>
     (\<forall>g \<in> set (rs_gos st). go_ok st g) \<and> ctx_ok st \<and> distinct (map g_idx (filter (live st) (rs_gos st)))"

lemma list_inv_setDynamic:
  assumes "list_inv cl0 cl" and "i < length (cl_sources cl)" and "src_kind (cl_sources cl ! i) \<noteq> sourceCIDR"
  shows "list_inv cl0 (setDynamic i ns cl)"
  using assms by (auto simp: list_inv_def dom_update distinct_update)

lemma list_inv_rebuild: "list_inv cl0 cl \<Longrightarrow> list_inv cl0 (rebuild cl)"
  by (metis list_inv_def rebuild_id)

lemma list_inv_cancel [simp]: "list_inv cl0 (cl\<lparr>cl_cancel := c\<rparr>) = list_inv cl0 cl"
  by (simp add: list_inv_def nets_current_def)

lemma AsyncRefresh_sel [simp]:
  "rs_list (AsyncRefresh ctx i b st) = rs_list st"
  "rs_world (AsyncRefresh ctx i b st) = rs_world st"
  "rs_next (AsyncRefresh ctx i b st) = rs_next st"
  "rs_cancelled (AsyncRefresh ctx i b st) = rs_cancelled st"
  by (simp_all add: AsyncRefresh_def Let_def)

lemma AsyncRefresh_gos:
  "rs_gos (AsyncRefresh ctx i b st) = rs_gos st \<or>
   src_kind (cl_sources (rs_list st) ! i) \<noteq> sourceCIDR \<and> src_refresh (cl_sources (rs_list st) ! i) \<noteq> 0 \<and>
   rs_gos (AsyncRefresh ctx i b st) =
     rs_gos st @ [\<lparr>g_ctx = ctx, g_idx = i, g_onetime = b, g_last = zeroTime\<rparr>]"
  by (simp add: AsyncRefresh_def Let_def)

lemma live_cong:
  "rs_cancelled st' = rs_cancelled st \<Longrightarrow> live st' = live st"
  by (auto simp: live_def fun_eq_iff)

lemma fold_AsyncRefresh_list: "rs_list (fold (\<lambda>i. AsyncRefresh ctx i b) is st) = rs_list st"
  by (induction "is" arbitrary: st) auto

lemma renewContext_list_inv:
  "list_inv cl0 (rs_list st) \<Longrightarrow> list_inv cl0 (rs_list (snd (renewContext st)))"
  by (simp add: renewContext_def)

lemma refreshList_list_inv:
  assumes "list_inv cl0 (rs_list st)" and "i < length (cl_sources (rs_list st))"
    and "src_kind (cl_sources (rs_list st) ! i) \<noteq> sourceCIDR"
  shows "list_inv cl0 (rs_list (refreshList i st))"
  using assms by (auto simp: refreshList_def list_inv_setDynamic split: prod.split)

lemma loadOne_list_inv:
  assumes "list_inv cl0 (rs_list st)" and "i < length (cl_sources (rs_list st))"
  shows "list_inv cl0 (rs_list (loadOne ctx i st))"
  using assms by (auto simp: loadOne_def Let_def list_inv_setDynamic split: prod.split)

lemma list_inv_sources: "list_inv cl0 cl \<Longrightarrow> cl_sources cl = cl_sources cl0"
  by (simp add: list_inv_def)

lemma fold_loadOne_list_inv:
  "list_inv cl0 (rs_list st) \<Longrightarrow> \<forall>i \<in> set is. i < length (cl_sources cl0) \<Longrightarrow>
   list_inv cl0 (rs_list (fold (loadOne ctx) is st))"
  by (induction "is" arbitrary: st) (auto simp: loadOne_list_inv list_inv_sources)

lemma Load_list_inv:
  assumes "list_inv cl0 (rs_list st)"
  shows "list_inv cl0 (rs_list (Load st))"
proof -
  obtain ctx st1 where r: "renewContext st = (ctx, st1)" by fastforce
  then have inv1: "list_inv cl0 (rs_list st1)" using renewContext_list_inv[OF assms] by simp
  then have "list_inv cl0 (rs_list (fold (loadOne ctx) [0..<length (cl_sources (rs_list st1))] st1))"
    by (intro fold_loadOne_list_inv) (auto simp: list_inv_sources)
  then show ?thesis by (simp add: Load_def r Let_def list_inv_rebuild)
qed

lemma StartRefresh_list: "rs_list (StartRefresh st) = (rs_list st)\<lparr>cl_cancel := Some (rs_next st)\<rparr>"
  by (simp add: StartRefresh_def renewContext_def fold_AsyncRefresh_list)

definition rinv :: "CIDRList \<Rightarrow> refresh_state \<Rightarrow> bool" where
  "rinv cl0 st \<longleftrightarrow> list_inv cl0 (rs_list st) \<and> gos_inv st"

text \<open>A step that keeps the contexts and only drops or redates goroutines keeps their invariant.\<close>

definition same_ctx :: "refresh_state \<Rightarrow> refresh_state \<Rightarrow> bool" where
  "same_ctx st st' \<longleftrightarrow>
     cl_sources (rs_list st') = cl_sources (rs_list st) \<and> cl_cancel (rs_list st') = cl_cancel (rs_list st) \<and>
     rs_next st' = rs_next st \<and> rs_cancelled st' = rs_cancelled st"

lemma same_ctx_refl [simp]: "same_ctx st st"
  by (simp add: same_ctx_def)

lemma same_ctx_ok:
  assumes "same_ctx st st'"
  shows "live st' = live st" and "go_ok st' = go_ok st" and "ctx_ok st' = ctx_ok st"
proof -
  show l: "live st' = live st" using assms by (intro live_cong) (simp add: same_ctx_def)
  show "go_ok st' = go_ok st" "ctx_ok st' = ctx_ok st"
    using assms by (auto simp: same_ctx_def go_ok_def ctx_ok_def l fun_eq_iff)
qed

lemma gos_inv_sub:
  assumes "gos_inv st" and "same_ctx st st'"
    and "\<And>g. g \<in> set (rs_gos st') \<Longrightarrow> go_ok st g"
    and "distinct (map g_idx (filter (live st) (rs_gos st')))"
  shows "gos_inv st'"
  using assms by (simp add: gos_inv_def same_ctx_ok[OF assms(2)])

lemma go_ok_redate: "go_ok st (g\<lparr>g_last := t\<rparr>) = go_ok st g"
  by (simp add: go_ok_def live_def)

lemma distinct_filter_remove:
  "distinct (map f (filter P xs)) \<Longrightarrow> distinct (map f (filter P (take k xs @ drop (Suc k) xs)))"
proof (cases "k < length xs")
  case True
  assume d: "distinct (map f (filter P xs))"
  have "xs = take k xs @ xs ! k # drop (Suc k) xs" using True by (rule id_take_nth_drop)
  then have "filter P xs = filter P (take k xs) @ filter P (xs ! k # drop (Suc k) xs)"
    by (metis filter_append)
  with d show ?thesis by (auto split: if_splits)
qed simp

lemma exitGo_gos_inv: "gos_inv st \<Longrightarrow> gos_inv (exitGo k st)"
  by (rule gos_inv_sub[where st = st])
     (auto simp: exitGo_def gos_inv_def same_ctx_def distinct_filter_remove simp del: map_append filter_append
           dest: in_set_takeD in_set_dropD)

lemma refreshList_sel [simp]:
  "cl_sources (rs_list (refreshList i st)) = cl_sources (rs_list st)"
  "cl_cancel (rs_list (refreshList i st)) = cl_cancel (rs_list st)"
  "rs_next (refreshList i st) = rs_next st"
  "rs_cancelled (refreshList i st) = rs_cancelled st"
  "rs_gos (refreshList i st) = rs_gos st"
  by (simp_all add: refreshList_def split: prod.split)

lemma same_ctx_refreshList [simp]: "same_ctx st (refreshList i st)"
  by (simp add: same_ctx_def)

lemma same_ctx_trans: "same_ctx a b \<Longrightarrow> same_ctx b c \<Longrightarrow> same_ctx a c"
  by (simp add: same_ctx_def)

lemma refreshList_gos_inv: "gos_inv st \<Longrightarrow> gos_inv (refreshList i st)"
  by (rule gos_inv_sub[where st = st]) (auto simp: gos_inv_def)

lemma redate_gos_inv:
  assumes "gos_inv st" and "k < length (rs_gos st)"
  shows "gos_inv (st\<lparr>rs_gos := (rs_gos st)[k := (rs_gos st ! k)\<lparr>g_last := t\<rparr>]\<rparr>)"
proof (rule gos_inv_sub[OF assms(1)])
  let ?g = "rs_gos st ! k"
  have "map g_idx (filter (live st) (rs_gos st)) =
      map g_idx (filter (live st) ((rs_gos st)[k := ?g\<lparr>g_last := t\<rparr>]))"
  proof -
    have xs: "rs_gos st = take k (rs_gos st) @ ?g # drop (Suc k) (rs_gos st)"
      using assms(2) by (rule id_take_nth_drop)
    have "live st (?g\<lparr>g_last := t\<rparr>) = live st ?g" by (simp add: live_def)
    then show ?thesis
      by (subst xs) (simp add: upd_conv_take_nth_drop[OF assms(2)])
  qed
  with assms(1) show "distinct (map g_idx (filter (live st)
      (rs_gos (st\<lparr>rs_gos := (rs_gos st)[k := ?g\<lparr>g_last := t\<rparr>]\<rparr>))))"
    by (simp add: gos_inv_def)
next
  fix g assume "g \<in> set (rs_gos (st\<lparr>rs_gos := (rs_gos st)[k := (rs_gos st ! k)\<lparr>g_last := t\<rparr>]\<rparr>))"
  then have "g = (rs_gos st ! k)\<lparr>g_last := t\<rparr> \<or> g \<in> set (rs_gos st)"
    using set_update_subset_insert[of "rs_gos st" k] by fastforce
  with assms show "go_ok st g"
    by (auto simp: gos_inv_def go_ok_redate)
qed (simp add: same_ctx_def)

lemma tick_inv:
  assumes "rinv cl0 st" and "k < length (rs_gos st)"
  shows "rinv cl0 (tick k st)"
proof -
  have "go_ok st (rs_gos st ! k)" using assms by (simp add: rinv_def gos_inv_def)
  then have "g_idx (rs_gos st ! k) < length (cl_sources (rs_list st))"
    "src_kind (cl_sources (rs_list st) ! g_idx (rs_gos st ! k)) \<noteq> sourceCIDR"
    by (auto simp: go_ok_def)
  with assms show ?thesis
    by (auto simp: rinv_def tick_def Let_def refreshList_list_inv
        intro!: refreshList_gos_inv redate_gos_inv split: option.split)
qed

lemma runOnce_inv:
  assumes "rinv cl0 st" and "k < length (rs_gos st)"
  shows "rinv cl0 (runOnce k st)"
proof -
  let ?g = "rs_gos st ! k"
  have g: "go_ok st ?g" using assms by (simp add: rinv_def gos_inv_def)
  define st' where "st' = (if src_kind (cl_sources (rs_list st) ! g_idx ?g) = sourceURL \<and>
      src_cache (cl_sources (rs_list st) ! g_idx ?g) \<noteq> [] then refreshList (g_idx ?g) st else st)"
  have "rs_gos st' = rs_gos st" by (simp add: st'_def)
  then have eq: "runOnce k st = exitGo k st'"
    by (simp add: runOnce_def Let_def exitGo_def st'_def)
  have "rinv cl0 st'"
    using assms g by (auto simp: st'_def rinv_def refreshList_list_inv refreshList_gos_inv go_ok_def)
  then show ?thesis
    unfolding eq by (auto simp: rinv_def exitGo_gos_inv) (simp add: exitGo_def)
qed

lemma renewContext_inv:
  assumes "gos_inv st" and "renewContext st = (ctx, st')"
  shows "gos_inv st'" and "\<forall>g \<in> set (rs_gos st'). \<not> live st' g"
    and "cl_cancel (rs_list st') = Some ctx"
proof -
  have st': "st' = st\<lparr>rs_cancelled := (case cl_cancel (rs_list st) of None \<Rightarrow> [] | Some c \<Rightarrow> [c]) @ rs_cancelled st,
         rs_list := (rs_list st)\<lparr>cl_cancel := Some (rs_next st)\<rparr>, rs_next := Suc (rs_next st)\<rparr>"
    and ctx: "ctx = rs_next st"
    using assms(2) by (auto simp: renewContext_def)
  show dead: "\<forall>g \<in> set (rs_gos st'). \<not> live st' g"
  proof
    fix g assume "g \<in> set (rs_gos st')"
    then have "go_ok st g" using assms(1) by (simp add: st' gos_inv_def)
    then show "\<not> live st' g" by (auto simp: st' live_def go_ok_def)
  qed
  have "go_ok st' g" if "g \<in> set (rs_gos st')" for g
  proof -
    have "go_ok st g" using assms(1) that by (simp add: st' gos_inv_def)
    with dead that show ?thesis by (simp add: go_ok_def st')
  qed
  moreover have "ctx_ok st'"
    using assms(1)
    by (cases "cl_cancel (rs_list st)") (auto simp: gos_inv_def ctx_ok_def st' less_Suc_eq)
  moreover have "filter (live st') (rs_gos st') = []"
    using dead by (simp add: filter_empty_conv)
  ultimately show "gos_inv st'" by (simp add: gos_inv_def)
  show "cl_cancel (rs_list st') = Some ctx" by (simp add: st' ctx)
qed

lemma AsyncRefresh_inv:
  assumes "gos_inv st" and "i < length (cl_sources (rs_list st))" and "cl_cancel (rs_list st) = Some ctx"
    and "b \<or> (\<forall>g \<in> set (rs_gos st). live st g \<longrightarrow> g_idx g \<noteq> i)"
  shows "gos_inv (AsyncRefresh ctx i b st)"
  using AsyncRefresh_gos[of ctx i b st]
proof (elim disjE conjE)
  assume "rs_gos (AsyncRefresh ctx i b st) = rs_gos st"
  with assms(1) show ?thesis
    by (intro gos_inv_sub[OF assms(1)]) (auto simp: same_ctx_def gos_inv_def)
next
  let ?g = "\<lparr>g_ctx = ctx, g_idx = i, g_onetime = b, g_last = zeroTime\<rparr>"
  assume src: "src_kind (cl_sources (rs_list st) ! i) \<noteq> sourceCIDR"
    "src_refresh (cl_sources (rs_list st) ! i) \<noteq> 0"
    and gos: "rs_gos (AsyncRefresh ctx i b st) = rs_gos st @ [?g]"
  have "go_ok st ?g"
    using assms src by (simp add: go_ok_def gos_inv_def ctx_ok_def)
  moreover have "distinct (map g_idx (filter (live st) (rs_gos st @ [?g])))"
    using assms by (auto simp: gos_inv_def live_def)
  ultimately show ?thesis
    using assms(1) by (intro gos_inv_sub[OF assms(1)]) (auto simp: same_ctx_def gos gos_inv_def)
qed

lemma AsyncRefresh_live:
  "g \<in> set (rs_gos (AsyncRefresh ctx i b st)) \<Longrightarrow> g \<in> set (rs_gos st) \<or> g_idx g = i"
  using AsyncRefresh_gos[of ctx i b st] by auto

lemma fold_AsyncRefresh_inv:
  assumes "gos_inv st" and "cl_cancel (rs_list st) = Some ctx" and "\<forall>g \<in> set (rs_gos st). \<not> live st g"
    and "n \<le> length (cl_sources (rs_list st))"
  shows "gos_inv (fold (\<lambda>i. AsyncRefresh ctx i False) [0..<n] st) \<and>
    (\<forall>g \<in> set (rs_gos (fold (\<lambda>i. AsyncRefresh ctx i False) [0..<n] st)).
       live (fold (\<lambda>i. AsyncRefresh ctx i False) [0..<n] st) g \<longrightarrow> g_idx g < n)"
  using assms(4)
proof (induction n)
  case 0
  with assms show ?case by simp
next
  case (Suc n)
  let ?st = "fold (\<lambda>i. AsyncRefresh ctx i False) [0..<n] st"
  have step: "fold (\<lambda>i. AsyncRefresh ctx i False) [0..<Suc n] st = AsyncRefresh ctx n False ?st"
    by simp
  have l: "live (AsyncRefresh ctx n False ?st) = live ?st" by (rule live_cong) simp
  have IH: "gos_inv ?st" "\<forall>g \<in> set (rs_gos ?st). live ?st g \<longrightarrow> g_idx g < n"
    using Suc by auto
  have "gos_inv (AsyncRefresh ctx n False ?st)"
    using Suc.prems assms(2) IH
    by (intro AsyncRefresh_inv) (auto simp: fold_AsyncRefresh_list)
  moreover have "\<forall>g \<in> set (rs_gos (AsyncRefresh ctx n False ?st)). live ?st g \<longrightarrow> g_idx g < Suc n"
    using IH(2) AsyncRefresh_live[of _ ctx n False ?st] by (auto simp: less_Suc_eq)
  ultimately show ?case unfolding step l by blast
qed

lemma StartRefresh_gos_inv:
  assumes "gos_inv st"
  shows "gos_inv (StartRefresh st)"
proof -
  obtain ctx st1 where r: "renewContext st = (ctx, st1)" by fastforce
  from fold_AsyncRefresh_inv[OF renewContext_inv(1)[OF assms r] renewContext_inv(3)[OF assms r]
      renewContext_inv(2)[OF assms r] order_refl]
  show ?thesis by (simp add: StartRefresh_def r)
qed

lemma loadOne_gos_inv:
  assumes "gos_inv st" and "cl_cancel (rs_list st) = Some ctx" and "i < length (cl_sources (rs_list st))"
  shows "gos_inv (loadOne ctx i st) \<and> cl_cancel (rs_list (loadOne ctx i st)) = Some ctx \<and>
         cl_sources (rs_list (loadOne ctx i st)) = cl_sources (rs_list st)"
proof -
  have upd: "gos_inv (st\<lparr>rs_world := w, rs_list := setDynamic i ns (rs_list st)\<rparr>)" for w ns
    using assms(1) by (intro gos_inv_sub[OF assms(1)]) (auto simp: same_ctx_def gos_inv_def)
  obtain ns c e w where l: "loadSource (cl_sources (rs_list st) ! i) (rs_world st) = ((ns, c, e), w)"
    by (metis prod.exhaust)
  show ?thesis
    using assms upd AsyncRefresh_inv[OF upd[where w = w and ns = "if e then [] else ns"], of i ctx True]
    by (auto simp: loadOne_def Let_def l)
qed

lemma fold_loadOne_gos_inv:
  "gos_inv st \<Longrightarrow> cl_cancel (rs_list st) = Some ctx \<Longrightarrow>
   \<forall>i \<in> set is. i < length (cl_sources (rs_list st)) \<Longrightarrow> gos_inv (fold (loadOne ctx) is st)"
  by (induction "is" arbitrary: st) (auto simp: loadOne_gos_inv)

lemma Load_gos_inv:
  assumes "gos_inv st"
  shows "gos_inv (Load st)"
proof -
  obtain ctx st1 where r: "renewContext st = (ctx, st1)" by fastforce
  let ?st = "fold (loadOne ctx) [0..<length (cl_sources (rs_list st1))] st1"
  have "gos_inv ?st"
    using renewContext_inv[OF assms r] by (intro fold_loadOne_gos_inv) auto
  then have "gos_inv (?st\<lparr>rs_list := rebuild (rs_list ?st)\<rparr>)"
    by (rule gos_inv_sub) (use \<open>gos_inv ?st\<close> in \<open>auto simp: same_ctx_def gos_inv_def\<close>)
  then show ?thesis by (simp add: Load_def r Let_def)
qed

lemma Stop_gos_inv:
  assumes "gos_inv st"
  shows "gos_inv (Stop st) \<and> (\<forall>g \<in> set (rs_gos (Stop st)). \<not> live (Stop st) g)"
proof (cases "cl_cancel (rs_list st)")
  case None
  with assms show ?thesis by (auto simp: Stop_def gos_inv_def go_ok_def)
next
  case (Some c)
  let ?st = "st\<lparr>rs_cancelled := c # rs_cancelled st, rs_list := (rs_list st)\<lparr>cl_cancel := None\<rparr>\<rparr>"
  have dead: "\<not> live ?st g" if "g \<in> set (rs_gos st)" for g
    using assms that Some by (auto simp: live_def gos_inv_def go_ok_def)
  have "go_ok ?st g" if "g \<in> set (rs_gos st)" for g
  proof -
    have "go_ok st g" using assms that by (simp add: gos_inv_def)
    with dead[OF that] show ?thesis by (simp add: go_ok_def)
  qed
  moreover have "ctx_ok ?st" using assms Some by (auto simp: gos_inv_def ctx_ok_def)
  moreover have "filter (live ?st) (rs_gos ?st) = []"
    using dead by (simp add: filter_empty_conv)
  ultimately show ?thesis using dead Some by (simp add: Stop_def gos_inv_def)
qed

lemma Stop_list: "rs_list (Stop st) = (rs_list st)\<lparr>cl_cancel := None\<rparr>"
  by (auto simp: Stop_def split: option.split)

lemma rinv_step: "rstep st st' \<Longrightarrow> rinv cl0 st \<Longrightarrow> rinv cl0 st'"
proof (induction rule: rstep.induct)
  case (load st)
  then show ?case by (simp add: rinv_def Load_list_inv Load_gos_inv)
next
  case (start st)
  then show ?case by (simp add: rinv_def StartRefresh_list StartRefresh_gos_inv)
next
  case (stop st)
  then show ?case by (simp add: rinv_def Stop_list Stop_gos_inv)
next
  case (tick k st)
  then show ?case by (simp add: tick_inv)
next
  case (once k st)
  then show ?case by (simp add: runOnce_inv)
next
  case (exit k st)
  then show ?case by (auto simp: rinv_def exitGo_gos_inv) (simp add: exitGo_def)
next
  case (world st w)
  then show ?case
    by (auto simp: rinv_def intro!: gos_inv_sub[of st]) (auto simp: same_ctx_def gos_inv_def)
qed

lemma rinv_init: "built_ok cl \<Longrightarrow> rinv cl (rinit cl w)"
  by (simp add: rinv_def list_inv_def built_ok_def rinit_def gos_inv_def ctx_ok_def)

lemma rreach_inv: "rreach cl w st \<Longrightarrow> built_ok cl \<Longrightarrow> rinv cl st"
  by (induction rule: rreach.induct) (auto simp: rinv_init intro: rinv_step)

section \<open>Properties\<close>

lemma buildCIDRList_ok:
  assumes "buildCIDRList entries = Inr (Some cl)"
  shows "built_ok cl \<and> list_all2 (\<lambda>raw src. parseFilterEntry raw = Inr src) entries (cl_sources cl)"
proof -
  from assms have "rfold buildStep entries newCIDRList = Inr cl"
    by (auto simp: buildCIDRList_def split: if_splits sum.splits)
  from build_loop[OF this newCIDRList_ok] show ?thesis by (simp add: newCIDRList_def)
qed

text \<open>C3. In every state that loads, refreshes, stops and changes of the outside world reach, the
  list built from the configuration holds an address exactly when one of its inline networks
  does or the networks last loaded for one of its file and URL sources do.\<close>

theorem refresh_list_current:
  assumes "buildCIDRList entries = Inr (Some cl)" and "rreach cl w st"
  shows "cl_Contains (rs_list st) i \<longleftrightarrow>
     (\<exists>s \<in> set (cl_sources cl). src_kind s = sourceCIDR \<and> net_Contains (src_cidr s) i) \<or>
     (\<exists>idx ns. map_of (cl_dynamic (rs_list st)) idx = Some ns \<and> idx < length (cl_sources cl) \<and>
        src_kind (cl_sources cl ! idx) \<noteq> sourceCIDR \<and> cidrContains ns i)"
proof -
  from assms rreach_inv buildCIDRList_ok have inv: "list_inv cl (rs_list st)"
    by (auto simp: rinv_def)
  have "idx < length (cl_sources cl) \<and> src_kind (cl_sources cl ! idx) \<noteq> sourceCIDR"
    if "map_of (cl_dynamic (rs_list st)) idx = Some ns" for idx ns
    using inv map_of_SomeD[OF that] unfolding list_inv_def by force
  moreover have "nets_current (rs_list st)" "distinct (map fst (cl_dynamic (rs_list st)))"
    using inv by (auto simp: list_inv_def)
  moreover have "cl_sources (rs_list st) = cl_sources cl" using inv by (rule list_inv_sources)
  ultimately show ?thesis by (simp only: nets_current_Contains) blast
qed

definition demo_list :: CIDRList where
  "demo_list = \<lparr>cl_nets = [], cl_sources = [zeroSource\<lparr>src_kind := sourceFile, src_path := ''/ips'', src_refresh := hour\<rparr>],
                cl_dynamic = [], cl_cancel = None\<rparr>"

definition demo_world :: world where
  "demo_world = \<lparr>w_open = [''/ips'' \<mapsto> \<lparr>rd_bytes = ''10.0.0.7'', rd_failed = False\<rparr>],
                 w_mtime = (\<lambda>_. Some (Instant 1)), w_writable = (\<lambda>_. False), w_get = (\<lambda>_. None),
                 w_now = Instant 1\<rparr>"

definition demo_state :: refresh_state where
  "demo_state = StartRefresh (Load (rinit demo_list demo_world))"

lemma demo_build: "buildCIDRList [''/ips refresh=1h''] = Inr (Some demo_list)"
  by code_simp

lemma demo_reach: "rreach demo_list demo_world demo_state"
  unfolding demo_state_def by (rule rreach.step[OF rreach.step[OF rreach.init rstep.load] rstep.start])

lemma demo_Load:
  "cl_dynamic (rs_list (Load (rinit demo_list demo_world))) =
     [(0, [prefix_net 32 (v4InV6Prefix @ [10, 0, 0, 7]) 32])]"
  by code_simp

lemma demo_state_list:
  "cl_dynamic (rs_list demo_state) = [(0, [prefix_net 32 (v4InV6Prefix @ [10, 0, 0, 7]) 32])]"
  by (simp add: demo_state_def StartRefresh_list demo_Load)

lemma refresh_list_current_witness:
  "cl_Contains (rs_list demo_state) (v4InV6Prefix @ [10, 0, 0, 7]) \<and>
   \<not> cl_Contains (rs_list demo_state) (v4InV6Prefix @ [10, 0, 0, 8])"
proof -
  have "net_Contains (prefix_net 32 (v4InV6Prefix @ [10, 0, 0, 7]) 32) (v4InV6Prefix @ [10, 0, 0, 7])"
    "\<not> net_Contains (prefix_net 32 (v4InV6Prefix @ [10, 0, 0, 7]) 32) (v4InV6Prefix @ [10, 0, 0, 8])"
    by code_simp+
  then show ?thesis
    unfolding refresh_list_current[OF demo_build demo_reach]
    by (simp add: demo_state_list) (simp add: demo_list_def zeroSource_def)
qed

text \<open>At most one periodic goroutine that is not cancelled runs for each source, and after
  \<open>Stop\<close> none is left: \<open>Load\<close> and \<open>StartRefresh\<close> cancel what they replace.\<close>

theorem refresh_goroutines:
  assumes "buildCIDRList entries = Inr (Some cl)" and "rreach cl w st"
  shows "distinct (map g_idx (filter (live st) (rs_gos st))) \<and>
    filter (live (Stop st)) (rs_gos (Stop st)) = []"
proof -
  from assms rreach_inv buildCIDRList_ok have inv: "gos_inv st" by (auto simp: rinv_def)
  then have "distinct (map g_idx (filter (live st) (rs_gos st)))" by (simp add: gos_inv_def)
  then show ?thesis using Stop_gos_inv[OF inv] by (simp add: filter_empty_conv)
qed

lemma refresh_goroutines_witness:
  "map g_idx (filter (live demo_state) (rs_gos demo_state)) = [0] \<and>
   filter (live (Stop demo_state)) (rs_gos (Stop demo_state)) = []"
proof -
  have "map g_idx (filter (live demo_state) (rs_gos demo_state)) = [0]" by code_simp
  with refresh_goroutines[OF demo_build demo_reach] show ?thesis by blast
qed

text \<open>No goroutine ever runs for a source without \<open>refresh=\<close>: a URL that was loaded from its
  cache file at startup and has no interval is not fetched again.\<close>

theorem no_refresh_without_interval:
  assumes "buildCIDRList entries = Inr (Some cl)" and "rreach cl w st"
    and "idx < length (cl_sources cl)" and "src_refresh (cl_sources cl ! idx) = 0"
  shows "\<forall>g \<in> set (rs_gos st). g_idx g \<noteq> idx"
proof -
  from assms rreach_inv buildCIDRList_ok have inv: "list_inv cl (rs_list st)" "gos_inv st"
    by (auto simp: rinv_def)
  have "cl_sources (rs_list st) = cl_sources cl" using inv(1) by (rule list_inv_sources)
  with inv(2) assms(4) show ?thesis by (auto simp: gos_inv_def go_ok_def)
qed

definition cached_list :: CIDRList where
  "cached_list = \<lparr>cl_nets = [], cl_sources = [zeroSource\<lparr>src_kind := sourceURL, src_path := ''http://h/l'',
       src_url := ''http://h/l'', src_cache := ''/ips''\<rparr>], cl_dynamic = [], cl_cancel = None\<rparr>"

lemma no_refresh_without_interval_witness:
  "loadSource (cl_sources cached_list ! 0) demo_world =
     (([prefix_net 32 (v4InV6Prefix @ [10, 0, 0, 7]) 32], True, False), demo_world) \<and>
   filter (\<lambda>g. g_idx g = 0) (rs_gos (StartRefresh (Load (rinit cached_list demo_world)))) = []"
proof -
  have b: "buildCIDRList [''http://h/l cache=/ips''] = Inr (Some cached_list)" by code_simp
  have r: "rreach cached_list demo_world (StartRefresh (Load (rinit cached_list demo_world)))"
    by (rule rreach.step[OF rreach.step[OF rreach.init rstep.load] rstep.start])
  have "loadCIDRsFromFile demo_world ''/ips'' = ([prefix_net 32 (v4InV6Prefix @ [10, 0, 0, 7]) 32], False)"
    by code_simp
  then have "loadSource (cl_sources cached_list ! 0) demo_world =
     (([prefix_net 32 (v4InV6Prefix @ [10, 0, 0, 7]) 32], True, False), demo_world)"
    by (simp add: loadSource_def cached_list_def)
  with no_refresh_without_interval[OF b r, of 0] show ?thesis
    by (simp add: cached_list_def zeroSource_def filter_empty_conv)
qed

text \<open>A background refresh changes the networks of its own source only, and a refresh that
  fails (no answer, a status other than 200, an unreadable file) leaves the list and the files
  as they were.\<close>

theorem refresh_failure_keeps:
  assumes "refreshFromSource (cl_sources (rs_list st) ! i) (rs_world st) = ((ns, err), w)"
  shows "if err then rs_list (refreshList i st) = rs_list st \<and> rs_world (refreshList i st) = rs_world st
    else map_of (cl_dynamic (rs_list (refreshList i st))) = (map_of (cl_dynamic (rs_list st)))(i \<mapsto> ns) \<and>
         nets_current (rs_list (refreshList i st))"
proof (cases err)
  case True
  with assms have "w = rs_world st"
    by (auto simp: refreshFromSource_def split: if_splits prod.splits)
  with assms True show ?thesis by (simp add: refreshList_def)
next
  case False
  with assms show ?thesis by (simp add: refreshList_def update_conv')
qed

lemma refresh_failure_keeps_witness:
  "rs_list (refreshList 0 (demo_state\<lparr>rs_world := demo_world\<lparr>w_open := (\<lambda>_. None)\<rparr>\<rparr>)) = rs_list demo_state"
proof -
  let ?st = "demo_state\<lparr>rs_world := demo_world\<lparr>w_open := (\<lambda>_. None)\<rparr>\<rparr>"
  have "cl_sources (rs_list demo_state) =
      [zeroSource\<lparr>src_kind := sourceFile, src_path := ''/ips'', src_refresh := hour\<rparr>]"
    by code_simp
  then have "refreshFromSource (cl_sources (rs_list ?st) ! 0) (rs_world ?st) =
      (([], True), demo_world\<lparr>w_open := (\<lambda>_. None)\<rparr>)"
    by (simp add: refreshFromSource_def loadCIDRsFromFile_def)
  from refresh_failure_keeps[OF this] show ?thesis by simp
qed

end
