(* ===== verification/Ip_Filter.thy ===== *)
theory Ip_Filter
  imports Cidr_Refresh
begin

text \<open>
  The policies of \<^verbatim>\<open>src/ipfilter.go\<close> over lists of networks: \<open>IPFilter.Allow\<close> and
  \<open>TrustedProxies.IsTrusted\<close>, and their construction from the configuration. What both need of a
  list is the interface \<open>address_list\<close>, which the model of \<open>CIDRList\<close> provides.
\<close>

section \<open>The interface of a list of addresses\<close>

locale address_list =
  fixes has :: "'l \<Rightarrow> ip \<Rightarrow> bool"
    and size_of :: "'l \<Rightarrow> nat"
  assumes empty_has: "size_of l = 0 \<Longrightarrow> \<not> has l i"
begin

text \<open>The four-way switch of the filter, over optional lists.\<close>

definition in_opt :: "'l option \<Rightarrow> ip \<Rightarrow> bool" where
  "in_opt l i = (case l of None \<Rightarrow> False | Some l \<Rightarrow> has l i)"

definition nonempty :: "'l option \<Rightarrow> bool" where
  "nonempty l = (case l of None \<Rightarrow> False | Some l \<Rightarrow> 0 < size_of l)"

lemma in_opt_nonempty: "in_opt l i \<Longrightarrow> nonempty l"
  using empty_has by (auto simp: in_opt_def nonempty_def split: option.splits)

text \<open>The switch is: in the allowed list unless that is empty, and not in the blocked list.\<close>

lemma switch_spec:
  "(if nonempty a \<and> nonempty b then in_opt a i \<and> \<not> in_opt b i
    else if nonempty a then in_opt a i
    else if nonempty b then \<not> in_opt b i
    else True) \<longleftrightarrow> (nonempty a \<longrightarrow> in_opt a i) \<and> \<not> in_opt b i"
  using in_opt_nonempty[of b i] by auto

end

interpretation cl: address_list cl_Contains cl_Len
  by unfold_locales (simp add: cl_Contains_def cl_Len_def)

section \<open>Policies\<close>

definition parseRemoteIP :: "string \<Rightarrow> ip option" where
  "parseRemoteIP remoteAddr =
     ParseIP (case SplitHostPort remoteAddr of None \<Rightarrow> remoteAddr | Some (host, port) \<Rightarrow> host)"

record IPFilter =
  f_blocked :: "CIDRList option"
  f_allowed :: "CIDRList option"

definition opt_Contains :: "CIDRList option \<Rightarrow> ip \<Rightarrow> bool" where
  "opt_Contains l i = (case l of None \<Rightarrow> False | Some cl \<Rightarrow> cl_Contains cl i)"

definition hasNets :: "CIDRList option \<Rightarrow> bool" where
  "hasNets l = (case l of None \<Rightarrow> False | Some cl \<Rightarrow> 0 < cl_Len cl)"

definition Allow :: "IPFilter \<Rightarrow> string \<Rightarrow> bool" where
  "Allow f remoteAddr =
     (case parseRemoteIP remoteAddr of
        None \<Rightarrow> False
      | Some i \<Rightarrow>
          let hasAllowed = hasNets (f_allowed f); hasBlocked = hasNets (f_blocked f) in
          if hasAllowed \<and> hasBlocked then opt_Contains (f_allowed f) i \<and> \<not> opt_Contains (f_blocked f) i
          else if hasAllowed then opt_Contains (f_allowed f) i
          else if hasBlocked then \<not> opt_Contains (f_blocked f) i
          else True)"

record TrustedProxies =
  tp_list :: CIDRList

definition IsTrusted :: "TrustedProxies \<Rightarrow> string \<Rightarrow> bool" where
  "IsTrusted tp remoteAddr =
     (case parseRemoteIP remoteAddr of None \<Rightarrow> False | Some i \<Rightarrow> cl_Contains (tp_list tp) i)"

record IPFilterConfig =
  Blocked :: "string list"
  Allowed :: "string list"

datatype filterError = BlockedError "string \<times> entryError" | AllowedError "string \<times> entryError"

definition buildIPFilter :: "IPFilterConfig option \<Rightarrow> filterError + IPFilter option" where
  "buildIPFilter cfg =
     (case cfg of
        None \<Rightarrow> Inr None
      | Some c \<Rightarrow>
          (case buildCIDRList (Blocked c) of
             Inl e \<Rightarrow> Inl (BlockedError e)
           | Inr blocked \<Rightarrow>
               (case buildCIDRList (Allowed c) of
                  Inl e \<Rightarrow> Inl (AllowedError e)
                | Inr allowed \<Rightarrow>
                    if blocked = None \<and> allowed = None then Inr None
                    else Inr (Some \<lparr>f_blocked = blocked, f_allowed = allowed\<rparr>))))"

definition buildTrustedProxies :: "string list \<Rightarrow> (string \<times> entryError) + TrustedProxies option" where
  "buildTrustedProxies entries =
     (case buildCIDRList entries of
        Inl e \<Rightarrow> Inl e
      | Inr cl \<Rightarrow> Inr (map_option (\<lambda>cl. \<lparr>tp_list = cl\<rparr>) cl))"

section \<open>Properties\<close>

text \<open>Loading a list whose sources all fail leaves it without a network.\<close>

definition all_empty :: "CIDRList \<Rightarrow> world \<Rightarrow> refresh_state \<Rightarrow> bool" where
  "all_empty cl w st \<longleftrightarrow>
     rs_world st = w \<and> cl_sources (rs_list st) = cl_sources cl \<and>
     (\<forall>p \<in> set (cl_dynamic (rs_list st)). snd p = [])"

definition unreadable :: "world \<Rightarrow> filterSource \<Rightarrow> bool" where
  "unreadable w src \<longleftrightarrow> src_kind src = sourceFile \<and> w_open w (src_path src) = None"

lemma update_all_empty:
  "\<forall>p \<in> set xs. snd p = [] \<Longrightarrow> \<forall>p \<in> set (AList.update i [] xs). snd p = []"
  by (induction xs) auto

lemma loadOne_all_empty:
  assumes "all_empty cl w st" and "i < length (cl_sources cl)" and "unreadable w (cl_sources cl ! i)"
  shows "all_empty cl w (loadOne ctx i st)"
proof -
  have "loadSource (cl_sources cl ! i) w = (([], False, True), w)"
    using assms(3) by (simp add: unreadable_def loadSource_def loadCIDRsFromFile_def)
  with assms have "loadOne ctx i st = st\<lparr>rs_world := w, rs_list := setDynamic i [] (rs_list st)\<rparr>"
    by (simp add: loadOne_def Let_def all_empty_def unreadable_def)
  with assms(1) update_all_empty[of "cl_dynamic (rs_list st)" i] show ?thesis
    by (simp add: all_empty_def)
qed

lemma fold_loadOne_all_empty:
  assumes "list_all (unreadable w) (cl_sources cl)"
  shows "all_empty cl w st \<Longrightarrow> \<forall>i \<in> set is. i < length (cl_sources cl) \<Longrightarrow>
         all_empty cl w (fold (loadOne ctx) is st)"
proof (induction "is" arbitrary: st)
  case (Cons i "is")
  with assms have "all_empty cl w (loadOne ctx i st)"
    by (intro loadOne_all_empty) (auto simp: list_all_length)
  with Cons show ?case by simp
qed simp

lemma Load_unreadable:
  assumes "built_ok cl" and "list_all (unreadable w) (cl_sources cl)"
  shows "cl_Len (rs_list (Load (rinit cl w))) = 0"
proof -
  obtain ctx st1 where r: "renewContext (rinit cl w) = (ctx, st1)" by fastforce
  with assms(1) have "all_empty cl w st1"
    by (auto simp: all_empty_def renewContext_def rinit_def built_ok_def)
  moreover from this have "cl_sources (rs_list st1) = cl_sources cl" by (simp add: all_empty_def)
  ultimately have "all_empty cl w (fold (loadOne ctx) [0..<length (cl_sources (rs_list st1))] st1)"
    by (intro fold_loadOne_all_empty[OF assms(2)]) auto
  moreover have "inlineNets (cl_sources cl) = []"
    using assms(2) by (auto simp: inlineNets_def filter_empty_conv list_all_iff unreadable_def)
  ultimately show ?thesis
    by (simp add: Load_def r Let_def cl_Len_def rebuild_def all_empty_def)
qed

lemma opt_Contains_in_opt: "opt_Contains l i = cl.in_opt l i"
  by (simp add: opt_Contains_def cl.in_opt_def)

lemma hasNets_nonempty: "hasNets l = cl.nonempty l"
  by (simp add: hasNets_def cl.nonempty_def)

text \<open>C16. \<open>IPFilter.Allow\<close> admits a connection exactly when its address parses, the allowed list
  holds it unless that list has no network at the moment, and the blocked list does not.\<close>

theorem Allow_spec:
  "Allow f remoteAddr \<longleftrightarrow>
     (\<exists>i. parseRemoteIP remoteAddr = Some i \<and>
        \<not> (hasNets (f_allowed f) \<and> \<not> opt_Contains (f_allowed f) i) \<and> \<not> opt_Contains (f_blocked f) i)"
proof (cases "parseRemoteIP remoteAddr")
  case (Some i)
  then show ?thesis
    using cl.switch_spec[of "f_allowed f" "f_blocked f" i]
    by (simp add: Allow_def Let_def opt_Contains_in_opt hasNets_nonempty cong: if_cong)
qed (simp add: Allow_def)

text \<open>An allow-list whose only source cannot be loaded admits every client: the filter is
  in force only while the list holds a network.\<close>

theorem allow_list_fails_open:
  assumes "buildIPFilter (Some \<lparr>Blocked = [], Allowed = entries\<rparr>) = Inr (Some f)"
    and "f_allowed f = Some cl" and "list_all (unreadable w) (cl_sources cl)"
    and "parseRemoteIP remoteAddr \<noteq> None"
  shows "Allow (f\<lparr>f_allowed := Some (rs_list (Load (rinit cl w)))\<rparr>) remoteAddr"
proof -
  have "buildCIDRList entries = Inr (Some cl)" and "f_blocked f = None"
    using assms(1,2) by (auto simp: buildIPFilter_def buildCIDRList_def split: sum.splits if_splits)
  moreover from this(1) have "cl_Len (rs_list (Load (rinit cl w))) = 0"
    using buildCIDRList_ok Load_unreadable assms(3) by blast
  ultimately show ?thesis
    using assms(4) by (auto simp: Allow_def hasNets_def Let_def)
qed

lemma empty_build: "buildCIDRList [] = Inr None"
  by (simp add: buildCIDRList_def)

lemma allow_list_fails_open_witness:
  "\<exists>f. buildIPFilter (Some \<lparr>Blocked = [], Allowed = [''/ips refresh=1h'']\<rparr>) = Inr (Some f) \<and>
     Allow (f\<lparr>f_allowed := Some (rs_list (Load (rinit demo_list (demo_world\<lparr>w_open := (\<lambda>_. None)\<rparr>))))\<rparr>)
       ''203.0.113.9:5000''"
proof -
  let ?f = "\<lparr>f_blocked = None, f_allowed = Some demo_list\<rparr>"
  have b: "buildIPFilter (Some \<lparr>Blocked = [], Allowed = [''/ips refresh=1h'']\<rparr>) = Inr (Some ?f)"
    by (simp add: buildIPFilter_def demo_build empty_build)
  have r: "parseRemoteIP ''203.0.113.9:5000'' \<noteq> None" by code_simp
  have "Allow (?f\<lparr>f_allowed := Some (rs_list (Load (rinit demo_list (demo_world\<lparr>w_open := (\<lambda>_. None)\<rparr>))))\<rparr>)
       ''203.0.113.9:5000''"
    by (rule allow_list_fails_open[OF b _ _ r]) (simp_all add: demo_list_def zeroSource_def unreadable_def)
  with b show ?thesis by blast
qed

text \<open>The filter and the trusted proxies built from the configuration hold one source for each
  entry, in order, and refuse the configuration when one entry is refused.\<close>

theorem buildCIDRList_entries:
  assumes "buildCIDRList entries = Inr (Some cl)"
  shows "list_all2 (\<lambda>raw src. parseFilterEntry raw = Inr src \<and> source_ok src) entries (cl_sources cl) \<and>
    cl_nets cl = inlineNets (cl_sources cl)"
proof -
  from buildCIDRList_ok[OF assms] have "built_ok cl"
    and "list_all2 (\<lambda>raw src. parseFilterEntry raw = Inr src) entries (cl_sources cl)" by auto
  then show ?thesis
    using parseFilterEntry_source_ok
    by (auto simp: built_ok_def nets_current_def elim!: list_all2_mono)
qed

lemma buildCIDRList_entries_witness:
  "cl_nets demo_list = inlineNets (cl_sources demo_list)"
  using buildCIDRList_entries[OF demo_build] by blast

end
