(* ===== verification/Header_Syntax.thy ===== *)
theory Header_Syntax
  imports Go_Strings
begin

text \<open>
  The compiler of header values of \<^verbatim>\<open>headers.go\<close> (\<^verbatim>\<open>compileHeaderValue\<close>,
  \<^verbatim>\<open>resolveVarName\<close> and the flags computed from compiled values), with its reference
  semantics: \<open>expand\<close> reads the raw text from left to right and replaces each variable at
  once. The evaluation of the compiled form is shown equal to it in theory \<open>Header_Eval\<close>.
\<close>

section \<open>Segments\<close>

datatype segKind =
    SegLiteral | SegHost | SegRemoteAddr | SegRemotePort | SegScheme | SegRequestURI
  | SegTrustedXFF | SegHeaderName

record segment =
  seg_kind :: segKind
  seg_value :: string

record parsedHeaderValue =
  segments :: "segment list"
  isConst :: bool

definition Seg :: "segKind \<Rightarrow> string \<Rightarrow> segment" where
  "Seg k v = \<lparr>seg_kind = k, seg_value = v\<rparr>"

lemma Seg_sel [simp]: "seg_kind (Seg k v) = k" "seg_value (Seg k v) = v"
  by (simp_all add: Seg_def)

section \<open>The compiler\<close>

definition resolveVarName :: "string \<Rightarrow> segment" where
  "resolveVarName name =
     (if name = ''host'' then Seg SegHost []
      else if name = ''remote_addr'' then Seg SegRemoteAddr []
      else if name = ''remote_port'' then Seg SegRemotePort []
      else if name = ''scheme'' then Seg SegScheme []
      else if name = ''request_uri'' then Seg SegRequestURI []
      else if name = ''trusted_xff'' then Seg SegTrustedXFF []
      else if HasPrefix name ''header.'' then Seg SegHeaderName (drop (length ''header.'') name)
      else Seg SegLiteral (''${'' @ name @ ''}''))"

text \<open>Appending a literal to the last segment when that is a literal too.\<close>

definition merge_literal :: "segment list \<Rightarrow> string \<Rightarrow> segment list" where
  "merge_literal segs lit =
     (if segs \<noteq> [] \<and> seg_kind (last segs) = SegLiteral
      then butlast segs @ [(last segs)\<lparr>seg_value := seg_value (last segs) @ lit\<rparr>]
      else segs @ [Seg SegLiteral lit])"

definition appendLit :: "segment list \<Rightarrow> string \<Rightarrow> segment list" where
  "appendLit segs lit = (if lit = [] then segs else merge_literal segs lit)"

definition appendSeg :: "segment list \<Rightarrow> segment \<Rightarrow> segment list" where
  "appendSeg segs seg =
     (if seg_kind seg = SegLiteral then merge_literal segs (seg_value seg) else segs @ [seg])"

text \<open>
  The body of the loop of \<^verbatim>\<open>compileHeaderValue\<close>: the segments so far and the rest of the
  text. Leaving the loop because no marker is left is an empty rest.
\<close>

definition compile_step :: "segment list \<Rightarrow> string \<Rightarrow> segment list \<times> string" where
  "compile_step segs s =
     (case Index s ''${'' of
        None \<Rightarrow> (appendLit segs s, [])
      | Some idx \<Rightarrow>
          if 0 < idx \<and> s ! (idx - 1) = CHR 0x5C
          then (appendLit segs (take (idx - 1) s @ ''${''), drop (idx + 2) s)
          else (case IndexByte (drop (idx + 2) s) CHR ''}'' of
                  None \<Rightarrow>
                    (appendLit (appendLit segs (take idx s)) ''${'', drop (idx + 2) s)
                | Some close \<Rightarrow>
                    (appendSeg (appendLit segs (take idx s))
                       (resolveVarName (take close (drop (idx + 2) s))),
                     drop (close + 1) (drop (idx + 2) s))))"

lemma compile_step_shorter:
  "s \<noteq> [] \<Longrightarrow> compile_step segs s = (segs', s') \<Longrightarrow> length s' < length s"
  by (auto simp: compile_step_def split: option.splits if_splits)

function compile_loop :: "segment list \<Rightarrow> string \<Rightarrow> segment list" where
  "compile_loop segs s =
     (if s = [] then segs
      else (case compile_step segs s of (segs', s') \<Rightarrow> compile_loop segs' s'))"
  by pat_completeness auto
termination
proof (relation "measure (\<lambda>(segs, s). length s)", goal_cases)
  case 1
  then show ?case by simp
next
  case (2 segs s x y)
  then show ?case using compile_step_shorter[of s segs] by (cases "compile_step segs s") simp
qed

declare compile_loop.simps [simp del]

definition compileHeaderValue :: "string \<Rightarrow> parsedHeaderValue" where
  "compileHeaderValue raw =
     (let segs0 = compile_loop [] raw;
          segs = (if segs0 = [] then [Seg SegLiteral []] else segs0)
      in \<lparr>segments = segs,
          isConst = (length segs = 1 \<and> seg_kind (hd segs) = SegLiteral)\<rparr>)"

text \<open>The maps of compiled values (\<^verbatim>\<open>compiledHeaders\<close>), as the list of entries in the order
  in which a range over the Go map visits them.\<close>

definition compiledHeaders :: "(string \<times> string) list \<Rightarrow> (string \<times> parsedHeaderValue) list" where
  "compiledHeaders raw = map (\<lambda>(k, v). (k, compileHeaderValue v)) raw"

definition hasTrustedXFFVar :: "(string \<times> parsedHeaderValue) list \<Rightarrow> bool" where
  "hasTrustedXFFVar headers =
     list_ex (\<lambda>(k, ph). list_ex (\<lambda>seg. seg_kind seg = SegTrustedXFF) (segments ph)) headers"

definition hasNonConstHeader :: "(string \<times> parsedHeaderValue) list \<Rightarrow> bool" where
  "hasNonConstHeader headers = list_ex (\<lambda>(k, ph). \<not> isConst ph) headers"

definition hasHeaderNameVar :: "(string \<times> parsedHeaderValue) list \<Rightarrow> bool" where
  "hasHeaderNameVar headers =
     list_ex (\<lambda>(k, ph). list_ex (\<lambda>seg. seg_kind seg = SegHeaderName) (segments ph)) headers"

section \<open>The shape of compiled values\<close>

text \<open>No two neighbouring segments are literals.\<close>

fun no_adjacent :: "segment list \<Rightarrow> bool" where
  "no_adjacent (a # b # r) =
     (\<not> (seg_kind a = SegLiteral \<and> seg_kind b = SegLiteral) \<and> no_adjacent (b # r))"
| "no_adjacent _ = True"

definition seg_normal :: "segment list \<Rightarrow> bool" where
  "seg_normal segs =
     (no_adjacent segs \<and> (\<forall>s \<in> set segs. seg_kind s = SegLiteral \<longrightarrow> seg_value s \<noteq> []))"

lemma no_adjacent_append:
  "no_adjacent (xs @ ys) \<longleftrightarrow> no_adjacent xs \<and> no_adjacent ys \<and>
     (xs = [] \<or> ys = [] \<or> \<not> (seg_kind (last xs) = SegLiteral \<and> seg_kind (hd ys) = SegLiteral))"
proof (induction xs)
  case (Cons a xs)
  then show ?case by (cases xs; cases ys) auto
qed simp

lemma merge_literal_normal:
  assumes "seg_normal segs" and "lit \<noteq> []"
  shows "seg_normal (merge_literal segs lit)"
proof (cases "segs \<noteq> [] \<and> seg_kind (last segs) = SegLiteral")
  case True
  then obtain ys y where segs: "segs = ys @ [y]" and y: "seg_kind y = SegLiteral"
    by (metis append_butlast_last_id)
  from assms(1) segs show ?thesis
    by (auto simp: seg_normal_def merge_literal_def no_adjacent_append y)
next
  case False
  then have "merge_literal segs lit = segs @ [Seg SegLiteral lit]"
    by (auto simp: merge_literal_def)
  with False assms show ?thesis by (auto simp: seg_normal_def no_adjacent_append)
qed

lemma appendLit_normal: "seg_normal segs \<Longrightarrow> seg_normal (appendLit segs lit)"
  by (simp add: appendLit_def merge_literal_normal)

lemma resolveVarName_literal:
  "seg_kind (resolveVarName name) = SegLiteral \<Longrightarrow> seg_value (resolveVarName name) = ''${'' @ name @ ''}''"
  by (auto simp: resolveVarName_def split: if_splits)

lemma appendSeg_resolve_normal:
  assumes "seg_normal segs"
  shows "seg_normal (appendSeg segs (resolveVarName name))"
proof (cases "seg_kind (resolveVarName name) = SegLiteral")
  case True
  with assms show ?thesis
    by (simp add: appendSeg_def resolveVarName_literal merge_literal_normal)
next
  case False
  with assms show ?thesis by (auto simp: appendSeg_def seg_normal_def no_adjacent_append)
qed

lemmas seg_normal_intros = appendLit_normal appendSeg_resolve_normal

lemma compile_step_normal: "seg_normal segs \<Longrightarrow> seg_normal (fst (compile_step segs s))"
  by (simp add: compile_step_def seg_normal_intros split: option.split)

lemma compile_loop_normal: "seg_normal segs \<Longrightarrow> seg_normal (compile_loop segs s)"
proof (induction segs s rule: compile_loop.induct)
  case (1 segs s)
  obtain segs' s' where st: "compile_step segs s = (segs', s')" by (cases "compile_step segs s")
  from compile_step_normal[OF "1.prems", of s] have "seg_normal segs'" by (simp add: st)
  with "1.IH"[OF _ st[symmetric]] "1.prems" show ?case
    by (subst compile_loop.simps) (simp add: st)
qed

lemma compile_segments_nonempty: "segments (compileHeaderValue raw) \<noteq> []"
  by (simp add: compileHeaderValue_def Let_def)

section \<open>Reference semantics\<close>

text \<open>
  \<open>expand look s\<close> scans \<open>s\<close> once: \<open>\${\<close> is a literal \<open>${\<close>, \<open>${name}\<close> is \<open>look name\<close>,
  \<open>${\<close> without a closing brace and every other byte stand for themselves.
\<close>

function expand :: "(string \<Rightarrow> string) \<Rightarrow> string \<Rightarrow> string" where
  "expand look s =
     (if HasPrefix s (CHR 0x5C # ''${'') then ''${'' @ expand look (drop 3 s)
      else if HasPrefix s ''${'' then
        (case IndexByte (drop 2 s) CHR ''}'' of
           None \<Rightarrow> ''${'' @ expand look (drop 2 s)
         | Some close \<Rightarrow>
             look (take close (drop 2 s)) @ expand look (drop (close + 1) (drop 2 s)))
      else (case s of [] \<Rightarrow> [] | c # cs \<Rightarrow> c # expand look cs))"
  by pat_completeness auto
termination
proof (relation "measure (\<lambda>(look, s). length s)", goal_cases)
  case 1
  then show ?case by simp
qed (auto simp: HasPrefix_def prefix_def)

declare expand.simps [simp del]

text \<open>Writing a literal text so that the compiler reads it back: a backslash before each \<open>${\<close>.\<close>

fun quote :: "string \<Rightarrow> string" where
  "quote [] = []"
| "quote (c # cs) = (if HasPrefix (c # cs) ''${'' then CHR 0x5C # c # quote cs else c # quote cs)"

lemma hd_quote_dollar: "quote cs = CHR ''{'' # r \<Longrightarrow> \<exists>r'. cs = CHR ''{'' # r'"
  by (cases cs) (auto simp: HasPrefix_def split: if_splits)

lemma quote_no_marker: "\<not> HasPrefix (quote s) ''${''"
proof (cases s)
  case Nil
  then show ?thesis by (simp add: HasPrefix_def)
next
  case (Cons c cs)
  then show ?thesis
    by (auto simp: HasPrefix_def prefix_one dest: hd_quote_dollar split: if_splits)
qed

lemma expand_quote: "expand look (quote s) = s"
proof (induction s)
  case Nil
  then show ?case by (subst expand.simps) (simp add: HasPrefix_def)
next
  case (Cons c cs)
  show ?case
  proof (cases "HasPrefix (c # cs) ''${''")
    case True
    then obtain r where r: "cs = CHR ''{'' # r" and c: "c = CHR ''$''"
      by (auto simp: HasPrefix_def prefix_one)
    then have q: "quote cs = CHR ''{'' # quote r" by (simp add: HasPrefix_def)
    have "expand look (quote cs) = CHR ''{'' # expand look (quote r)"
      unfolding q by (subst expand.simps) (simp add: HasPrefix_def)
    with Cons.IH r have IH: "expand look (quote r) = r" by simp
    have "expand look (CHR 0x5C # CHR ''$'' # CHR ''{'' # quote r) = ''${'' @ expand look (quote r)"
      by (subst expand.simps) (simp add: HasPrefix_def)
    with True q c r IH show ?thesis by simp
  next
    case False
    have nm: "\<not> HasPrefix (c # quote cs) ''${''"
      using False by (auto simp: HasPrefix_def prefix_one dest: hd_quote_dollar)
    have nb: "\<not> HasPrefix (c # quote cs) (CHR 0x5C # ''${'')"
      using quote_no_marker[of cs] by (auto simp: HasPrefix_def)
    have "expand look (c # quote cs) = c # expand look (quote cs)"
      by (subst expand.simps) (simp add: nm nb)
    with False Cons.IH show ?thesis by simp
  qed
qed

text \<open>Text without a marker stands for itself; a marker is found where the compiler finds it.\<close>

lemma expand_no_marker: "Index s ''${'' = None \<Longrightarrow> expand look s = s"
proof (induction s)
  case Nil
  then show ?case by (subst expand.simps) (simp add: HasPrefix_def)
next
  case (Cons c cs)
  then have n: "\<not> HasPrefix (c # cs) ''${''" and i: "Index cs ''${'' = None"
    by (auto simp: HasPrefix_def split: if_splits)
  from i have "\<not> HasPrefix cs ''${''" by (cases cs) (auto simp: HasPrefix_def split: if_splits)
  then have nb: "\<not> HasPrefix (c # cs) (CHR 0x5C # ''${'')" by (auto simp: HasPrefix_def)
  show ?case using Cons.IH[OF i] by (subst expand.simps) (simp add: n nb)
qed

lemma Index_marker_split:
  "Index s ''${'' = Some idx \<Longrightarrow> s = take idx s @ ''${'' @ drop (idx + 2) s"
  using Index_Some[of s "''${''" idx] by simp

lemma expand_to_marker:
  assumes "Index s ''${'' = Some idx"
  shows "expand look s =
    (if 0 < idx \<and> s ! (idx - 1) = CHR 0x5C
     then take (idx - 1) s @ ''${'' @ expand look (drop (idx + 2) s)
     else take idx s @ expand look (drop idx s))"
  using assms
proof (induction s arbitrary: idx)
  case Nil
  then show ?case by simp
next
  case (Cons c cs)
  show ?case
  proof (cases "prefix ''${'' (c # cs)")
    case True
    with Cons.prems have "idx = 0" by simp
    then show ?thesis by simp
  next
    case False
    with Cons.prems obtain j where j: "Index cs ''${'' = Some j" and idx: "idx = Suc j" by auto
    have nm: "\<not> HasPrefix (c # cs) ''${''" using False by (simp add: HasPrefix_def)
    show ?thesis
    proof (cases "j = 0")
      case True
      from j True obtain r where cs: "cs = ''${'' @ r"
        using Index_marker_split[OF j] by (metis append_Nil take0)
      show ?thesis
      proof (cases "c = CHR 0x5C")
        case bs: True
        then have "expand look (c # cs) = ''${'' @ expand look r"
          by (subst expand.simps) (simp add: HasPrefix_def cs)
        with bs True idx cs show ?thesis by simp
      next
        case nb: False
        then have "expand look (c # cs) = c # expand look cs"
          by (subst expand.simps) (simp add: nm, simp add: HasPrefix_def)
        with nb True idx show ?thesis by simp
      qed
    next
      case jpos: False
      have "\<not> HasPrefix cs ''${''" using j jpos by (cases cs) (auto simp: HasPrefix_def split: if_splits)
      then have nb: "\<not> HasPrefix (c # cs) (CHR 0x5C # ''${'')" by (auto simp: HasPrefix_def)
      have "expand look (c # cs) = c # expand look cs"
        by (subst expand.simps) (simp add: nm nb)
      with Cons.IH[OF j] idx jpos show ?thesis by (cases j) auto
    qed
  qed
qed

lemma expand_at_marker:
  "expand look (''${'' @ r) =
     (case IndexByte r CHR ''}'' of
        None \<Rightarrow> ''${'' @ expand look r
      | Some close \<Rightarrow> look (take close r) @ expand look (drop (close + 1) r))"
  by (subst expand.simps) (simp add: HasPrefix_def split: option.split)

end
