(* ===== verification/Go_Http.thy ===== *)
theory Go_Http
  imports Go_Strings
begin

text \<open>
  The part of Go's packages \<^verbatim>\<open>net/http\<close>, \<^verbatim>\<open>net/textproto\<close> and \<^verbatim>\<open>path\<close> that RouteMUX
  calls: header maps with canonical keys, and the shell patterns of \<^verbatim>\<open>path.Match\<close>. A
  \<^verbatim>\<open>http.Header\<close> is a map from keys to lists of values; the \<^verbatim>\<open>nil\<close> header reads as the
  empty map.
\<close>

section \<open>Canonical header keys\<close>

text \<open>The bytes of a token (RFC 7230), \<^verbatim>\<open>validHeaderFieldByte\<close>.\<close>

definition token_char :: "char \<Rightarrow> bool" where
  "token_char c = (is_digit c \<or> is_alpha c \<or> c \<in> set ''!#$%&*+-.^_|~'' \<or> c = CHR 0x27 \<or> c = CHR 0x60)"

fun canon_chars :: "bool \<Rightarrow> string \<Rightarrow> string" where
  "canon_chars upper [] = []"
| "canon_chars upper (c # cs) =
     (let c' = (if upper then upper_char c else lower_char c)
      in c' # canon_chars (c' = CHR ''-'') cs)"

definition CanonicalHeaderKey :: "string \<Rightarrow> string" where
  "CanonicalHeaderKey s = (if list_all token_char s then canon_chars True s else s)"

lemma lower_char_dash: "lower_char c = CHR ''-'' \<longleftrightarrow> c = CHR ''-''"
  by (simp only: char_eq_iff of_char_lower) auto

lemma upper_char_dash: "upper_char c = CHR ''-'' \<longleftrightarrow> c = CHR ''-''"
  by (simp only: char_eq_iff of_char_upper) auto

lemma ToLower_canon_chars: "ToLower (canon_chars u s) = ToLower s"
  by (induction u s rule: canon_chars.induct) (auto simp: ToLower_Cons Let_def)

lemma canon_chars_ToLower: "canon_chars u (ToLower s) = canon_chars u s"
proof (induction u s rule: canon_chars.induct)
  case (1 upper)
  then show ?case by simp
next
  case (2 upper c cs)
  then show ?case
    by (cases upper) (simp_all add: ToLower_Cons Let_def lower_char_dash upper_char_dash)
qed

lemma canon_chars_canon_chars: "canon_chars u (canon_chars v s) = canon_chars u s"
  by (metis ToLower_canon_chars canon_chars_ToLower)

lemma token_char_lower: "token_char (lower_char c) = token_char c"
proof (cases "65 \<le> (of_char c :: nat) \<and> (of_char c :: nat) \<le> 90")
  case True
  then have "is_alpha c" by (simp add: is_alpha_def Let_def)
  moreover have "is_alpha (lower_char c)"
    using True by (simp add: is_alpha_def Let_def of_char_lower)
  ultimately show ?thesis by (simp add: token_char_def)
next
  case False
  then have "lower_char c = c" by (auto simp: char_eq_iff of_char_lower)
  then show ?thesis by simp
qed

lemma list_all_token_ToLower: "list_all token_char (ToLower s) = list_all token_char s"
  by (simp add: ToLower_def list_all_iff token_char_lower)

lemma list_all_token_canon_chars: "list_all token_char (canon_chars u s) = list_all token_char s"
  by (metis ToLower_canon_chars list_all_token_ToLower)

lemma canonical_idem [simp]: "CanonicalHeaderKey (CanonicalHeaderKey s) = CanonicalHeaderKey s"
  by (simp add: CanonicalHeaderKey_def list_all_token_canon_chars canon_chars_canon_chars)

lemma ToLower_canonical [simp]: "ToLower (CanonicalHeaderKey s) = ToLower s"
  by (simp add: CanonicalHeaderKey_def ToLower_canon_chars)

lemma canonical_ToLower: "list_all token_char s \<Longrightarrow> CanonicalHeaderKey (ToLower s) = CanonicalHeaderKey s"
  by (simp add: CanonicalHeaderKey_def canon_chars_ToLower list_all_token_ToLower)

text \<open>Two header names made of token characters are the same key exactly when they agree up to
  case.\<close>

lemma canonical_eq_iff:
  assumes "list_all token_char s" and "list_all token_char t"
  shows "CanonicalHeaderKey s = CanonicalHeaderKey t \<longleftrightarrow> EqualFold s t"
proof
  assume "CanonicalHeaderKey s = CanonicalHeaderKey t"
  then have "ToLower (CanonicalHeaderKey s) = ToLower (CanonicalHeaderKey t)" by (rule arg_cong)
  then show "EqualFold s t" by (simp only: ToLower_canonical EqualFold_def)
next
  assume "EqualFold s t"
  then have "CanonicalHeaderKey (ToLower s) = CanonicalHeaderKey (ToLower t)" by (simp only: EqualFold_def)
  then show "CanonicalHeaderKey s = CanonicalHeaderKey t" by (simp only: canonical_ToLower[OF assms(1)] canonical_ToLower[OF assms(2)])
qed

section \<open>Header maps\<close>

type_synonym header = "string \<Rightarrow> string list option"

definition hdr_Set :: "string \<Rightarrow> string \<Rightarrow> header \<Rightarrow> header" where
  "hdr_Set k v h = h(CanonicalHeaderKey k \<mapsto> [v])"

definition hdr_Del :: "string \<Rightarrow> header \<Rightarrow> header" where
  "hdr_Del k h = h(CanonicalHeaderKey k := None)"

definition hdr_Get :: "header \<Rightarrow> string \<Rightarrow> string" where
  "hdr_Get h k =
     (case h (CanonicalHeaderKey k) of Some (v # vs) \<Rightarrow> v | _ \<Rightarrow> [])"

lemma Get_Set_same [hdr_simps]:
  "CanonicalHeaderKey k = CanonicalHeaderKey k' \<Longrightarrow> hdr_Get (hdr_Set k v h) k' = v"
  by (simp add: hdr_Get_def hdr_Set_def)

lemma Get_Set_other [hdr_simps]:
  "CanonicalHeaderKey k \<noteq> CanonicalHeaderKey k' \<Longrightarrow> hdr_Get (hdr_Set k v h) k' = hdr_Get h k'"
  by (simp add: hdr_Get_def hdr_Set_def)

lemma Get_Del_same [hdr_simps]:
  "CanonicalHeaderKey k = CanonicalHeaderKey k' \<Longrightarrow> hdr_Get (hdr_Del k h) k' = []"
  by (simp add: hdr_Get_def hdr_Del_def)

lemma Get_Del_other [hdr_simps]:
  "CanonicalHeaderKey k \<noteq> CanonicalHeaderKey k' \<Longrightarrow> hdr_Get (hdr_Del k h) k' = hdr_Get h k'"
  by (simp add: hdr_Get_def hdr_Del_def)

lemma Set_app [hdr_simps]:
  "hdr_Set k v h k' = (if k' = CanonicalHeaderKey k then Some [v] else h k')"
  by (simp add: hdr_Set_def)

lemma Del_app [hdr_simps]:
  "hdr_Del k h k' = (if k' = CanonicalHeaderKey k then None else h k')"
  by (simp add: hdr_Del_def)

text \<open>Stores under different keys commute: the order of a range over a Go map does not matter
  when the canonical names differ.\<close>

lemma Set_Set_commute:
  "CanonicalHeaderKey k \<noteq> CanonicalHeaderKey k' \<Longrightarrow>
     hdr_Set k v (hdr_Set k' v' h) = hdr_Set k' v' (hdr_Set k v h)"
  by (auto simp: hdr_Set_def fun_upd_twist)

section \<open>Shell patterns: path.Match\<close>

datatype match_result = BadPattern | NoMatch | Matched string

text \<open>\<^verbatim>\<open>getEsc\<close>: a possibly escaped character of a class, and the rest, never empty.\<close>

definition getEsc :: "string \<Rightarrow> (char \<times> string) option" where
  "getEsc chunk =
     (if chunk = [] \<or> hd chunk = CHR ''-'' \<or> hd chunk = CHR '']'' then None
      else (let c1 = (if hd chunk = CHR 0x5C then tl chunk else chunk) in
            if c1 = [] then None
            else if tl c1 = [] then None
            else Some (hd c1, tl c1)))"

lemma getEsc_shorter: "getEsc chunk = Some (c, r) \<Longrightarrow> length r < length chunk"
  by (cases chunk) (auto simp: getEsc_def Let_def split: if_splits)

text \<open>The ranges of a character class: whether \<open>r\<close> is in one of them, and the rest after the
  closing bracket. \<open>r\<close> is \<^const>\<open>None\<close> when the match has failed already (Go's rune 0).\<close>

definition in_range :: "char \<Rightarrow> char option \<Rightarrow> char \<Rightarrow> bool" where
  "in_range lo r hi =
     (let n = (case r of None \<Rightarrow> 0 | Some c \<Rightarrow> (of_char c :: nat)) in of_char lo \<le> n \<and> n \<le> of_char hi)"

function class_ranges :: "char option \<Rightarrow> bool \<Rightarrow> bool \<Rightarrow> string \<Rightarrow> (bool \<times> string) option" where
  "class_ranges r some_range matched chunk =
     (if chunk \<noteq> [] \<and> hd chunk = CHR '']'' \<and> some_range then Some (matched, tl chunk)
      else (case getEsc chunk of
              None \<Rightarrow> None
            | Some (lo, c1) \<Rightarrow>
                if hd c1 = CHR ''-'' then
                  (case getEsc (tl c1) of
                     None \<Rightarrow> None
                   | Some (hi, c2) \<Rightarrow> class_ranges r True (matched \<or> in_range lo r hi) c2)
                else class_ranges r True (matched \<or> in_range lo r lo) c1))"
  by pat_completeness auto
termination
proof (relation "measure (\<lambda>(r, b, m, chunk). length chunk)", goal_cases)
  case 1
  then show ?case by simp
next
  case (2 r b m chunk p lo c1 q hi c2)
  then have "length c1 < length chunk" and "length c2 < length (tl c1)"
    by (auto dest: getEsc_shorter)
  then show ?case by simp
next
  case (3 r b m chunk p lo c1)
  then show ?case by (auto dest: getEsc_shorter)
qed

declare class_ranges.simps [simp del]

lemma class_ranges_shorter:
  "class_ranges r b m chunk = Some (x, rest) \<Longrightarrow> length rest < length chunk"
proof (induction r b m chunk rule: class_ranges.induct)
  case (1 r b m chunk)
  show ?case
  proof (cases "chunk \<noteq> [] \<and> hd chunk = CHR '']'' \<and> b")
    case True
    with "1.prems" show ?thesis by (cases chunk) (auto simp: class_ranges.simps)
  next
    case False
    then obtain lo c1 where lo: "getEsc chunk = Some (lo, c1)"
      using "1.prems" by (auto simp: class_ranges.simps[of r b m chunk] split: option.splits)
    have shorter: "length c1 < length chunk" using getEsc_shorter[OF lo] .
    show ?thesis
    proof (cases "hd c1 = CHR ''-''")
      case True
      then obtain hi c2 where hi: "getEsc (tl c1) = Some (hi, c2)"
        and rec: "class_ranges r True (m \<or> in_range lo r hi) c2 = Some (x, rest)"
        using "1.prems" False lo by (auto simp: class_ranges.simps[of r b m chunk] split: option.splits)
      have "length rest < length c2"
        using "1.IH"(1)[OF False lo refl True hi refl rec] .
      with getEsc_shorter[OF hi] shorter show ?thesis by simp
    next
      case nd: False
      then have rec: "class_ranges r True (m \<or> in_range lo r lo) c1 = Some (x, rest)"
        using "1.prems" False lo by (auto simp: class_ranges.simps[of r b m chunk])
      have "length rest < length c1"
        using "1.IH"(2)[OF False lo refl nd rec] .
      with shorter show ?thesis by simp
    qed
  qed
qed

text \<open>
  \<^verbatim>\<open>matchChunk\<close>: after a mismatch (\<open>failed\<close>) the chunk is still read to its end, so that a
  malformed pattern is reported.
\<close>

function match_chunk :: "bool \<Rightarrow> string \<Rightarrow> string \<Rightarrow> match_result" where
  "match_chunk failed0 [] s = (if failed0 then NoMatch else Matched s)"
| "match_chunk failed0 (p # ps) s =
     (let failed = (failed0 \<or> s = []) in
      if p = CHR ''['' then
        (let r = (if failed then None else Some (hd s));
             s' = (if failed then s else tl s);
             negated = (ps \<noteq> [] \<and> hd ps = CHR ''^'');
             body = (if negated then tl ps else ps)
         in case class_ranges r False False body of
              None \<Rightarrow> BadPattern
            | Some (matched, rest) \<Rightarrow> match_chunk (failed \<or> matched = negated) rest s')
      else if p = CHR ''?'' then
        match_chunk (failed \<or> hd s = CHR ''/'') ps (if failed then s else tl s)
      else if p = CHR 0x5C then
        (case ps of
           [] \<Rightarrow> BadPattern
         | q # qs \<Rightarrow> match_chunk (failed \<or> q \<noteq> hd s) qs (if failed then s else tl s))
      else match_chunk (failed \<or> p \<noteq> hd s) ps (if failed then s else tl s))"
  by pat_completeness auto
termination
proof (relation "measure (\<lambda>(f, chunk, s). length chunk)", goal_cases)
  case 1
  then show ?case by simp
next
  case (2 failed0 p ps s failed r s' negated body q matched rest)
  then have "length rest < length body" by (auto dest: class_ranges_shorter)
  moreover have "length body \<le> length ps" using 2 by simp
  ultimately show ?case by simp
qed auto

declare match_chunk.simps(2) [simp del]

text \<open>\<^verbatim>\<open>scanChunk\<close>: the stars, then everything up to the next star outside a class.\<close>

fun scan_len :: "bool \<Rightarrow> string \<Rightarrow> string \<times> string" where
  "scan_len inrange [] = ([], [])"
| "scan_len inrange (p # ps) =
     (if p = CHR 0x5C then
        (case ps of
           [] \<Rightarrow> ([p], [])
         | q # qs \<Rightarrow> (case scan_len inrange qs of (a, b) \<Rightarrow> (p # q # a, b)))
      else if p = CHR ''*'' \<and> \<not> inrange then ([], p # ps)
      else (case scan_len (if p = CHR ''['' then True else if p = CHR '']'' then False else inrange) ps of
              (a, b) \<Rightarrow> (p # a, b)))"

definition scanChunk :: "string \<Rightarrow> bool \<times> string \<times> string" where
  "scanChunk pattern =
     (let body = dropWhile (\<lambda>c. c = CHR ''*'') pattern
      in (pattern \<noteq> [] \<and> hd pattern = CHR ''*'', scan_len False body))"

text \<open>
  The search for a chunk after a star: skip bytes other than a slash until the chunk matches;
  the last chunk must use up the name.
\<close>

fun star_search :: "string \<Rightarrow> bool \<Rightarrow> string \<Rightarrow> match_result" where
  "star_search chunk last_chunk [] = NoMatch"
| "star_search chunk last_chunk (c # cs) =
     (if c = CHR ''/'' then NoMatch
      else (case match_chunk False chunk cs of
              Matched t \<Rightarrow>
                if last_chunk \<and> t \<noteq> [] then star_search chunk last_chunk cs else Matched t
            | NoMatch \<Rightarrow> star_search chunk last_chunk cs
            | BadPattern \<Rightarrow> BadPattern))"

lemma scan_len_append: "scan_len b s = (x, y) \<Longrightarrow> s = x @ y"
  by (induction b s arbitrary: x y rule: scan_len.induct)
    (auto split: if_splits list.splits prod.splits)

lemma scan_len_nonempty: "p \<noteq> CHR ''*'' \<Longrightarrow> fst (scan_len b (p # ps)) \<noteq> []"
  by (subst scan_len.simps) (auto simp del: scan_len.simps split: list.split prod.split)

lemma scanChunk_shorter:
  assumes "pattern \<noteq> []" and "scanChunk pattern = (star, chunk, rest)"
  shows "length rest < length pattern"
proof -
  let ?b = "dropWhile (\<lambda>c. c = CHR ''*'') pattern"
  from assms(2) have sc: "scan_len False ?b = (chunk, rest)" by (simp add: scanChunk_def)
  show ?thesis
  proof (cases "hd pattern = CHR ''*''")
    case True
    with assms(1) have "length ?b < length pattern"
      by (cases pattern) (simp_all add: length_dropWhile_le le_imp_less_Suc)
    moreover have "length ?b = length chunk + length rest"
      using arg_cong[OF scan_len_append[OF sc], of length] by (simp only: length_append)
    ultimately show ?thesis by linarith
  next
    case False
    with assms(1) obtain c cs where p: "pattern = c # cs" and c: "c \<noteq> CHR ''*''"
      by (cases pattern) auto
    have sc': "scan_len False (c # cs) = (chunk, rest)" using sc p c by simp
    then have "chunk \<noteq> []" using scan_len_nonempty[OF c, of False cs] by simp
    moreover have "length (c # cs) = length chunk + length rest"
      using arg_cong[OF scan_len_append[OF sc'], of length] by (simp only: length_append)
    ultimately show ?thesis unfolding p by (cases chunk) simp_all
  qed
qed

lemma scanChunk_shorter':
  "(star, chunk, rest) = scanChunk pattern \<Longrightarrow> pattern \<noteq> [] \<Longrightarrow> length rest < length pattern"
  by (metis scanChunk_shorter)

text \<open>The check of the rest of the pattern before a mismatch is reported.\<close>

function rest_valid :: "string \<Rightarrow> bool" where
  "rest_valid pattern =
     (if pattern = [] then True
      else (case scanChunk pattern of (star, chunk, rest) \<Rightarrow>
              match_chunk False chunk [] \<noteq> BadPattern \<and> rest_valid rest))"
  by pat_completeness auto
termination
  by (relation "measure length") (auto dest: scanChunk_shorter')

declare rest_valid.simps [simp del]

text \<open>\<^verbatim>\<open>path.Match\<close>: \<^const>\<open>None\<close> is \<^verbatim>\<open>ErrBadPattern\<close>.\<close>

function path_Match :: "string \<Rightarrow> string \<Rightarrow> bool option" where
  "path_Match pattern name =
     (if pattern = [] then Some (name = [])
      else (case scanChunk pattern of (star, chunk, rest) \<Rightarrow>
        if star \<and> chunk = [] then Some (CHR ''/'' \<notin> set name)
        else
          (let here = match_chunk False chunk name;
               next_name =
                 (case here of
                    Matched t \<Rightarrow>
                      if t = [] \<or> rest \<noteq> [] then Matched t
                      else if star then star_search chunk (rest = []) name else NoMatch
                  | BadPattern \<Rightarrow> BadPattern
                  | NoMatch \<Rightarrow> if star then star_search chunk (rest = []) name else NoMatch)
           in case next_name of
                Matched t \<Rightarrow> path_Match rest t
              | BadPattern \<Rightarrow> None
              | NoMatch \<Rightarrow> if rest_valid rest then Some False else None)))"
  by pat_completeness auto
termination
  by (relation "measure (\<lambda>(p, n). length p)") (auto dest: scanChunk_shorter')

declare path_Match.simps [simp del]

end
