(* ===== verification/Config_Types.thy ===== *)
theory Config_Types
  imports Ip_Filter Header_Syntax Go_Http
begin

text \<open>
  The runtime configuration of RouteMUX (\<^verbatim>\<open>src/config.go\<close>): the records that the loaders
  build and that every request handler reads. A pointer field is an \<^typ>\<open>'a option\<close>; a Go map is
  the list of its entries, with distinct keys, in the order in which \<^verbatim>\<open>range\<close> visits it.
\<close>

text \<open>The part of \<^verbatim>\<open>url.URL\<close> that the code reads.\<close>

record URL =
  url_Scheme :: string
  url_Host :: string
  url_Path :: string
  url_RawQuery :: string

record Auth =
  auth_User :: string
  auth_Password :: string

record JWTAuth =
  HeaderKey :: string
  CookieKey :: string
  ClaimUserKey :: string
  Secret :: string
  JWKURL :: string
  AudID :: string
  DefaultAllowAll :: bool

record ACMEConfig =
  ac_Email :: string
  ac_CacheDir :: string
  ac_ChallengeMode :: string
  ac_ServePort80 :: bool
  ac_DirectoryURL :: string
  ac_CARootFile :: string
  ac_Insecure :: bool

record VHostTLS =
  tls_Cert :: string
  tls_Key :: string
  AcmeSource :: string
  RenewBefore :: string

record Upstream =
  u_URL :: string
  u_Parsed :: URL
  u_Weight :: int
  u_UnixSocket :: string

type_synonym addHeaders = "(string \<times> parsedHeaderValue) list"

record RouteConfig =
  Upstreams :: "Upstream list"
  LBMode :: string
  StatusCode :: int
  StatusText :: string
  StaticFilePath :: string
  StaticDirListing :: bool
  NoTLSVerify :: bool
  rc_Auth :: "Auth option"
  AuthExplicit :: bool
  Timeout :: string
  DialTimeout :: string
  ParsedAddHeaders :: addHeaders
  NeedsOriginal :: bool
  AddHasVars :: bool
  DeleteHeaders :: "string list"
  DeleteHasWildcard :: bool
  ParsedClientAddHeaders :: addHeaders
  ClientNeedsRespHeaders :: bool
  ClientAddHasVars :: bool
  NeedsTrustedXFF :: bool
  ClientNeedsTrustedXFF :: bool
  ClientDelHeaders :: "string list"
  ClientDelHasWildcard :: bool
  AuthUsers :: "string list"
  SkipJwtAuth :: bool
  destEntries :: "string list"

type_synonym routes = "(string \<times> RouteConfig) list"

record VHost =
  Domains :: "string list"
  Routes :: routes
  vh_TLS :: "VHostTLS option"

record Config =
  Listen :: string
  Port :: int
  GlobalTLSCert :: string
  GlobalTLSKey :: string
  GlobalAuth :: "Auth option"
  TrustClientHeaders :: bool
  VHosts :: "VHost list"
  cfg_IPFilter :: "IPFilter option"
  cfg_TrustedProxies :: "TrustedProxies option"
  cfg_JWTAuth :: "JWTAuth option"
  cfg_ACME :: "ACMEConfig option"
  ConfigPath :: string
  OriginalArgs :: "string list"

text \<open>The zero values \<^verbatim>\<open>RouteConfig{}\<close> and \<^verbatim>\<open>Config{}\<close>.\<close>

definition zeroRoute :: RouteConfig where
  "zeroRoute = \<lparr>Upstreams = [], LBMode = [], StatusCode = 0, StatusText = [], StaticFilePath = [],
     StaticDirListing = False, NoTLSVerify = False, rc_Auth = None, AuthExplicit = False, Timeout = [],
     DialTimeout = [], ParsedAddHeaders = [], NeedsOriginal = False, AddHasVars = False,
     DeleteHeaders = [], DeleteHasWildcard = False, ParsedClientAddHeaders = [],
     ClientNeedsRespHeaders = False, ClientAddHasVars = False, NeedsTrustedXFF = False,
     ClientNeedsTrustedXFF = False, ClientDelHeaders = [], ClientDelHasWildcard = False,
     AuthUsers = [], SkipJwtAuth = False, destEntries = []\<rparr>"

definition zeroConfig :: Config where
  "zeroConfig = \<lparr>Listen = [], Port = 0, GlobalTLSCert = [], GlobalTLSKey = [], GlobalAuth = None,
     TrustClientHeaders = False, VHosts = [], cfg_IPFilter = None, cfg_TrustedProxies = None,
     cfg_JWTAuth = None, cfg_ACME = None, ConfigPath = [], OriginalArgs = []\<rparr>"

section \<open>Validation\<close>

datatype configError =
    NoRoutes
  | VHostNoRoutes "string list"
  | RouteNoDest "string list" string
  | TLSPair
  | JWTNoKey
  | JWTNoAud

definition routeHasDest :: "RouteConfig \<Rightarrow> bool" where
  "routeHasDest r \<longleftrightarrow> \<not> (StatusCode r = 0 \<and> length (Upstreams r) = 0 \<and> StaticFilePath r = [])"

fun validateRoutes :: "string list \<Rightarrow> routes \<Rightarrow> configError option" where
  "validateRoutes doms [] = None"
| "validateRoutes doms ((path, r) # rs) =
     (if \<not> routeHasDest r then Some (RouteNoDest doms path) else validateRoutes doms rs)"

fun validateVHosts :: "VHost list \<Rightarrow> configError option" where
  "validateVHosts [] = None"
| "validateVHosts (vh # vhs) =
     (if Routes vh = [] then Some (VHostNoRoutes (Domains vh))
      else (case validateRoutes (Domains vh) (Routes vh) of
              Some e \<Rightarrow> Some e
            | None \<Rightarrow> validateVHosts vhs))"

definition validateJWT :: "JWTAuth option \<Rightarrow> configError option" where
  "validateJWT j =
     (case j of
        None \<Rightarrow> None
      | Some j \<Rightarrow>
          if HeaderKey j = [] \<and> CookieKey j = [] then Some JWTNoKey
          else if Secret j = [] \<and> JWKURL j = [] \<and> AudID j = [] then Some JWTNoAud
          else None)"

definition validate :: "Config \<Rightarrow> configError option" where
  "validate c =
     (if VHosts c = [] then Some NoRoutes
      else (case validateVHosts (VHosts c) of
              Some e \<Rightarrow> Some e
            | None \<Rightarrow>
                if (GlobalTLSCert c = []) \<noteq> (GlobalTLSKey c = []) then Some TLSPair
                else validateJWT (cfg_JWTAuth c)))"

lemma validateRoutes_None:
  "validateRoutes doms rs = None \<longleftrightarrow> list_all (\<lambda>(p, r). routeHasDest r) rs"
  by (induction rs) (auto split: if_splits)

lemma validateVHosts_None:
  "validateVHosts vhs = None \<longleftrightarrow>
     list_all (\<lambda>vh. Routes vh \<noteq> [] \<and> list_all (\<lambda>(p, r). routeHasDest r) (Routes vh)) vhs"
proof (induction vhs)
  case (Cons vh vhs)
  then show ?case
    using validateRoutes_None[of "Domains vh" "Routes vh"]
    by (cases "validateRoutes (Domains vh) (Routes vh)") auto
qed simp

text \<open>A configuration is accepted exactly when every vhost has routes, every route serves
  something, the global certificate and key come together, and JWT authentication names where the
  token is and, without a key of its own, the audience that scopes the issuer fallback.\<close>

theorem validate_iff:
  "validate c = None \<longleftrightarrow>
     VHosts c \<noteq> [] \<and>
     list_all (\<lambda>vh. Routes vh \<noteq> [] \<and> list_all (\<lambda>(p, r). routeHasDest r) (Routes vh)) (VHosts c) \<and>
     (GlobalTLSCert c = [] \<longleftrightarrow> GlobalTLSKey c = []) \<and>
     list_all (\<lambda>j. (HeaderKey j \<noteq> [] \<or> CookieKey j \<noteq> []) \<and>
                   (Secret j \<noteq> [] \<or> JWKURL j \<noteq> [] \<or> AudID j \<noteq> []))
       (case cfg_JWTAuth c of None \<Rightarrow> [] | Some j \<Rightarrow> [j])"
proof -
  have "validateJWT (cfg_JWTAuth c) = None \<longleftrightarrow>
      list_all (\<lambda>j. (HeaderKey j \<noteq> [] \<or> CookieKey j \<noteq> []) \<and>
                   (Secret j \<noteq> [] \<or> JWKURL j \<noteq> [] \<or> AudID j \<noteq> []))
       (case cfg_JWTAuth c of None \<Rightarrow> [] | Some j \<Rightarrow> [j])"
    by (auto simp: validateJWT_def split: option.split)
  then show ?thesis
    by (auto simp: validate_def validateVHosts_None[symmetric] split: option.split)
qed

lemma validate_iff_witness:
  "validate (zeroConfig\<lparr>VHosts := [\<lparr>Domains = [''*''], Routes = [(''/'', zeroRoute\<lparr>StatusCode := 200\<rparr>)],
      vh_TLS = None\<rparr>]\<rparr>) = None"
  unfolding validate_iff by (simp add: zeroConfig_def zeroRoute_def routeHasDest_def)

end
