(* ===== verification/Go_Url.thy ===== *)
theory Go_Url
  imports Config_Types
begin

text \<open>
  Go's \<^verbatim>\<open>url.Parse\<close>, with the four fields of \<^verbatim>\<open>url.URL\<close> that RouteMUX reads; \<^const>\<open>None\<close> is
  the error. The zone of an IPv6 literal and the fragment's own escapes are not treated apart.
\<close>

definition ctl_byte :: "char \<Rightarrow> bool" where
  "ctl_byte c = (let n = (of_char c :: nat) in n < 32 \<or> n = 127)"

text \<open>\<^verbatim>\<open>getScheme\<close>: the scheme and the rest; the first argument says whether this is the first
  byte.\<close>

fun scheme_end :: "bool \<Rightarrow> string \<Rightarrow> (string \<times> string) option" where
  "scheme_end start [] = None"
| "scheme_end start (c # cs) =
     (if is_alpha c \<or> (\<not> start \<and> (is_digit c \<or> c \<in> {CHR ''+'', CHR ''-'', CHR ''.''})) then
        map_option (\<lambda>(s, r). (c # s, r)) (scheme_end False cs)
      else if c = CHR '':'' \<and> \<not> start then Some ([], cs)
      else None)"

definition getScheme :: "string \<Rightarrow> (string \<times> string) option" where
  "getScheme raw =
     (if raw \<noteq> [] \<and> hd raw = CHR '':'' then None
      else (case scheme_end True raw of None \<Rightarrow> Some ([], raw) | Some sr \<Rightarrow> Some sr))"

text \<open>\<^verbatim>\<open>unescape\<close> of a path or of user information.\<close>

fun unescape :: "string \<Rightarrow> string option" where
  "unescape [] = Some []"
| "unescape (c # cs) =
     (if c = CHR ''%'' then
        (case cs of
           a # b # r \<Rightarrow>
             if is_hex a \<and> is_hex b
             then map_option (\<lambda>s. char_of (hex_val a * 16 + hex_val b) # s) (unescape r) else None
         | _ \<Rightarrow> None)
      else map_option (\<lambda>s. c # s) (unescape cs))"

text \<open>Bytes that a host may hold unescaped.\<close>

definition host_char :: "char \<Rightarrow> bool" where
  "host_char c \<longleftrightarrow>
     is_alpha c \<or> is_digit c \<or> 128 \<le> (of_char c :: nat) \<or>
     c \<in> set ''-_.~!$&()*+,;=:[]<>'' \<or> c = CHR 0x22 \<or> c = CHR 0x27"

fun unescapeHost :: "string \<Rightarrow> string option" where
  "unescapeHost [] = Some []"
| "unescapeHost (c # cs) =
     (if c = CHR ''%'' then
        (case cs of
           a # b # r \<Rightarrow>
             if is_hex a \<and> is_hex b \<and> (8 \<le> hex_val a \<or> (a = CHR ''2'' \<and> b = CHR ''5''))
             then map_option (\<lambda>s. char_of (hex_val a * 16 + hex_val b) # s) (unescapeHost r) else None
         | _ \<Rightarrow> None)
      else if host_char c then map_option (\<lambda>s. c # s) (unescapeHost cs) else None)"

definition validOptionalPort :: "string \<Rightarrow> bool" where
  "validOptionalPort p = (p = [] \<or> (hd p = CHR '':'' \<and> list_all is_digit (tl p)))"

definition parseHost :: "string \<Rightarrow> string option" where
  "parseHost host =
     (let port_ok =
        (if HasPrefix host ''['' then
           (case LastIndex host '']'' of None \<Rightarrow> False | Some i \<Rightarrow> validOptionalPort (drop (i + 1) host))
         else (case LastIndex host '':'' of None \<Rightarrow> True | Some i \<Rightarrow> validOptionalPort (drop i host)))
      in if port_ok then unescapeHost host else None)"

definition userinfo_char :: "char \<Rightarrow> bool" where
  "userinfo_char c \<longleftrightarrow>
     is_alpha c \<or> is_digit c \<or> c \<in> set ''-._:~!$&()*+,;=%@'' \<or> c = CHR 0x27"

definition parseAuthority :: "string \<Rightarrow> string option" where
  "parseAuthority authority =
     (case LastIndex authority ''@'' of
        None \<Rightarrow> parseHost authority
      | Some i \<Rightarrow>
          (case parseHost (drop (i + 1) authority) of
             None \<Rightarrow> None
           | Some host \<Rightarrow>
               if list_all userinfo_char (take i authority) \<and> unescape (take i authority) \<noteq> None
               then Some host else None))"

text \<open>Everything behind the scheme and the query.\<close>

definition parseRest :: "string \<Rightarrow> string \<Rightarrow> string \<Rightarrow> URL option" where
  "parseRest scheme query rest =
     (if \<not> HasPrefix rest ''/'' \<and> scheme \<noteq> [] then
        Some \<lparr>url_Scheme = scheme, url_Host = [], url_Path = [], url_RawQuery = query\<rparr>
      else if \<not> HasPrefix rest ''/'' \<and> CHR '':'' \<in> set (fst (Cut rest ''/'')) then None
      else if (scheme \<noteq> [] \<or> \<not> HasPrefix rest ''///'') \<and> HasPrefix rest ''//'' then
        (let auth = drop 2 rest;
             (authority, path) =
               (case Index auth ''/'' of None \<Rightarrow> (auth, []) | Some i \<Rightarrow> (take i auth, drop i auth))
         in case parseAuthority authority of
              None \<Rightarrow> None
            | Some host \<Rightarrow>
                map_option (\<lambda>p. \<lparr>url_Scheme = scheme, url_Host = host, url_Path = p, url_RawQuery = query\<rparr>)
                  (unescape path))
      else map_option (\<lambda>p. \<lparr>url_Scheme = scheme, url_Host = [], url_Path = p, url_RawQuery = query\<rparr>)
             (unescape rest))"

definition url_Parse :: "string \<Rightarrow> URL option" where
  "url_Parse raw =
     (case Cut raw ''#'' of (u, frag, _) \<Rightarrow>
        if list_ex ctl_byte u \<or> unescape frag = None then None
        else if u = ''*'' then Some \<lparr>url_Scheme = [], url_Host = [], url_Path = u, url_RawQuery = []\<rparr>
        else (case getScheme u of
                None \<Rightarrow> None
              | Some (scheme, rest) \<Rightarrow>
                  (case Cut rest ''?'' of (path, query, _) \<Rightarrow> parseRest (ToLower scheme) query path)))"

text \<open>\<^verbatim>\<open>u.User != nil\<close>: the authority has an at sign.\<close>

definition url_hasUser :: "string \<Rightarrow> bool" where
  "url_hasUser raw =
     (case Cut raw ''#'' of (u, _, _) \<Rightarrow>
        (case getScheme u of
           None \<Rightarrow> False
         | Some (scheme, rest) \<Rightarrow>
             (case Cut rest ''?'' of (path, _, _) \<Rightarrow>
                (scheme \<noteq> [] \<or> \<not> HasPrefix path ''///'') \<and> HasPrefix path ''//'' \<and>
                CHR ''@'' \<in> set (takeWhile (\<lambda>c. c \<noteq> CHR ''/'') (drop 2 path)))))"

text \<open>\<^verbatim>\<open>u.Hostname()\<close>: the host without port and without the brackets of an IPv6 literal.\<close>

definition url_Hostname :: "string \<Rightarrow> string" where
  "url_Hostname hostport =
     (let host = (case LastIndex hostport '':'' of
                    None \<Rightarrow> hostport
                  | Some i \<Rightarrow> if validOptionalPort (drop i hostport) then take i hostport else hostport)
      in if HasPrefix host ''['' \<and> HasSuffix host '']'' then butlast (tl host) else host)"

lemma url_samples:
  "url_hasUser ''https://u@h/'' \<and> \<not> url_hasUser ''https://h/@''"
  "url_Hostname ''h:80'' = ''h'' \<and> url_Hostname ''[::1]:80'' = ''::1'' \<and> url_Hostname ''h'' = ''h''"
  "url_Parse ''http://10.0.0.1:8080/a%20b?q=1'' =
     Some \<lparr>url_Scheme = ''http'', url_Host = ''10.0.0.1:8080'', url_Path = ''/a b'', url_RawQuery = ''q=1''\<rparr>"
  "url_Parse ''http://u:p@h'' = Some \<lparr>url_Scheme = ''http'', url_Host = ''h'', url_Path = [], url_RawQuery = []\<rparr>"
  "url_Parse ''localhost:3000'' = Some \<lparr>url_Scheme = ''localhost'', url_Host = [], url_Path = [], url_RawQuery = []\<rparr>"
  "url_Parse ''http://h:x/'' = None"
  "url_Parse ''127.0.0.1:3000'' = None"
  by code_simp+

end
