(* ===== verification/Go_Sha1.thy ===== *)
theory Go_Sha1
  imports Go_Net
begin

text \<open>\<^verbatim>\<open>sha1.Sum\<close> of package \<^verbatim>\<open>crypto/sha1\<close>, from which the label of a Unix socket is made, and
  \<^verbatim>\<open>hex.EncodeToString\<close>.\<close>

type_synonym w32 = "32 word"

definition rotl :: "nat \<Rightarrow> w32 \<Rightarrow> w32" where
  "rotl n w = (push_bit n w OR drop_bit (32 - n) w)"

definition bytes_of_string :: "string \<Rightarrow> int list" where
  "bytes_of_string s = map of_char s"

text \<open>The 64-bit length in bits, the padding to whole blocks of 64 bytes, and the blocks as words.\<close>

definition be_bytes :: "nat \<Rightarrow> int \<Rightarrow> int list" where
  "be_bytes k n = map (\<lambda>i. n div 256 ^ i mod 256) (rev [0..<k])"

definition sha1_pad :: "int list \<Rightarrow> int list" where
  "sha1_pad m = m @ 128 # replicate (nat ((55 - int (length m)) mod 64)) 0 @ be_bytes 8 (8 * int (length m))"

fun words_of :: "int list \<Rightarrow> w32 list" where
  "words_of (a # b # c # d # r) = word_of_int (((a * 256 + b) * 256 + c) * 256 + d) # words_of r"
| "words_of _ = []"

text \<open>The message schedule, newest word first, and one round.\<close>

fun schedule :: "nat \<Rightarrow> w32 list \<Rightarrow> w32 list" where
  "schedule 0 ws = ws"
| "schedule (Suc n) ws =
     schedule n (rotl 1 (((ws ! 2 XOR ws ! 7) XOR ws ! 13) XOR ws ! 15) # ws)"

definition sha1_f :: "nat \<Rightarrow> w32 \<Rightarrow> w32 \<Rightarrow> w32 \<Rightarrow> w32 \<times> w32" where
  "sha1_f t b c d =
     (if t < 20 then ((b AND c) OR (NOT b AND d), 0x5A827999)
      else if t < 40 then ((b XOR c) XOR d, 0x6ED9EBA1)
      else if t < 60 then (((b AND c) OR (b AND d)) OR (c AND d), 0x8F1BBCDC)
      else ((b XOR c) XOR d, 0xCA62C1D6))"

fun rounds :: "nat \<Rightarrow> w32 list \<Rightarrow> w32 \<times> w32 \<times> w32 \<times> w32 \<times> w32 \<Rightarrow> w32 \<times> w32 \<times> w32 \<times> w32 \<times> w32" where
  "rounds t [] st = st"
| "rounds t (w # ws) (a, b, c, d, e) =
     (case sha1_f t b c d of (f, k) \<Rightarrow>
        rounds (Suc t) ws (rotl 5 a + f + e + k + w, a, rotl 30 b, c, d))"

fun sha1_blocks :: "nat \<Rightarrow> w32 list \<Rightarrow> w32 \<times> w32 \<times> w32 \<times> w32 \<times> w32 \<Rightarrow> w32 list" where
  "sha1_blocks 0 ws (a, b, c, d, e) = [a, b, c, d, e]"
| "sha1_blocks (Suc n) ws (a, b, c, d, e) =
     (case rounds 0 (rev (schedule 64 (rev (take 16 ws)))) (a, b, c, d, e) of (a', b', c', d', e') \<Rightarrow>
        sha1_blocks n (drop 16 ws) (a + a', b + b', c + c', d + d', e + e'))"

definition sha1_Sum :: "string \<Rightarrow> int list" where
  "sha1_Sum s =
     (let ws = words_of (sha1_pad (bytes_of_string s)) in
      concat (map (\<lambda>w. be_bytes 4 (uint w))
        (sha1_blocks (length ws div 16) ws (0x67452301, 0xEFCDAB89, 0x98BADCFE, 0x10325476, 0xC3D2E1F0))))"

definition hex_nibble :: "int \<Rightarrow> char" where
  "hex_nibble n = char_of (if n < 10 then 48 + n else 87 + n)"

definition hex_EncodeToString :: "int list \<Rightarrow> string" where
  "hex_EncodeToString bs = concat (map (\<lambda>b. [hex_nibble (b div 16), hex_nibble (b mod 16)]) bs)"

lemma length_hex: "length (hex_EncodeToString bs) = 2 * length bs"
  by (induction bs) (simp_all add: hex_EncodeToString_def)

end
