(* ===== verification/Header_Eval.thy ===== *)
theory Header_Eval
  imports Config_Types
begin

text \<open>
  The request-time half of \<^verbatim>\<open>src/headers.go\<close>: \<open>evalTrustedXFF\<close>, which finds the client behind
  trusted proxies, and \<open>eval\<close>, which concatenates the segments of a compiled value. The
  evaluation of a compiled value is shown to be the left-to-right expansion of its text.
\<close>

section \<open>The client behind trusted proxies\<close>

text \<open>The loop over the addresses from right to left: the address to the right of the current
  one, when there is one, and the addresses that are left, the rightmost first.\<close>

fun xff_walk :: "(ip \<Rightarrow> bool) \<Rightarrow> string \<Rightarrow> string option \<Rightarrow> string list \<Rightarrow> string" where
  "xff_walk tr clientIP right [] = (case right of None \<Rightarrow> clientIP | Some r \<Rightarrow> TrimSpace r)"
| "xff_walk tr clientIP right (x # xs) =
     (case ParseIP (TrimSpace x) of
        None \<Rightarrow> (case right of None \<Rightarrow> clientIP | Some r \<Rightarrow> TrimSpace r)
      | Some parsed \<Rightarrow>
          if \<not> tr parsed then TrimSpace x else xff_walk tr clientIP (Some x) xs)"

fun leftmost_valid :: "string \<Rightarrow> string list \<Rightarrow> string" where
  "leftmost_valid clientIP [] = clientIP"
| "leftmost_valid clientIP (x # xs) =
     (if ParseIP (TrimSpace x) \<noteq> None then TrimSpace x else leftmost_valid clientIP xs)"

definition xffAddresses :: "string list \<Rightarrow> string list" where
  "xffAddresses xff = Split (Join xff '', '') CHR '',''"

definition evalTrustedXFF :: "string list \<Rightarrow> Config option \<Rightarrow> string \<Rightarrow> string" where
  "evalTrustedXFF xff cfg clientIP =
     (case cfg of
        None \<Rightarrow> ''${trusted_xff}''
      | Some c \<Rightarrow>
          if \<not> TrustClientHeaders c \<and> cfg_TrustedProxies c = None then clientIP
          else if xff = [] then clientIP
          else if TrustClientHeaders c then leftmost_valid clientIP (xffAddresses xff)
          else (case cfg_TrustedProxies c of
                  None \<Rightarrow> clientIP
                | Some tp \<Rightarrow> xff_walk (cl_Contains (tp_list tp)) clientIP None (rev (xffAddresses xff))))"

section \<open>Evaluation\<close>

text \<open>The arguments of \<^verbatim>\<open>eval\<close> other than the value. A \<^verbatim>\<open>nil\<close> header map reads as the empty
  one.\<close>

record evalCtx =
  ev_host :: string
  ev_clientIP :: string
  ev_clientPort :: string
  ev_scheme :: string
  ev_requestURI :: string
  ev_XFFcopy :: "string list"
  ev_cfg :: "Config option"
  ev_original :: header

definition evalSegment :: "evalCtx \<Rightarrow> segment \<Rightarrow> string" where
  "evalSegment e seg =
     (case seg_kind seg of
        SegLiteral \<Rightarrow> seg_value seg
      | SegHost \<Rightarrow> ev_host e
      | SegRemoteAddr \<Rightarrow> ev_clientIP e
      | SegRemotePort \<Rightarrow> ev_clientPort e
      | SegScheme \<Rightarrow> ev_scheme e
      | SegRequestURI \<Rightarrow> ev_requestURI e
      | SegTrustedXFF \<Rightarrow> evalTrustedXFF (ev_XFFcopy e) (ev_cfg e) (ev_clientIP e)
      | SegHeaderName \<Rightarrow> hdr_Get (ev_original e) (seg_value seg))"

definition eval :: "parsedHeaderValue \<Rightarrow> evalCtx \<Rightarrow> string" where
  "eval ph e =
     (if isConst ph then seg_value (hd (segments ph))
      else concat (map (evalSegment e) (segments ph)))"

section \<open>Compilation is correct\<close>

definition look :: "evalCtx \<Rightarrow> string \<Rightarrow> string" where
  "look e name = evalSegment e (resolveVarName name)"

definition evalAll :: "evalCtx \<Rightarrow> segment list \<Rightarrow> string" where
  "evalAll e segs = concat (map (evalSegment e) segs)"

lemma evalAll_append [simp]: "evalAll e (xs @ ys) = evalAll e xs @ evalAll e ys"
  by (simp add: evalAll_def)

lemma evalAll_Nil [simp]: "evalAll e [] = []"
  by (simp add: evalAll_def)

lemma evalAll_single [simp]: "evalAll e [s] = evalSegment e s"
  by (simp add: evalAll_def)

lemma evalSegment_literal: "seg_kind s = SegLiteral \<Longrightarrow> evalSegment e s = seg_value s"
  by (simp add: evalSegment_def)

lemma evalAll_merge_literal: "evalAll e (merge_literal segs lit) = evalAll e segs @ lit"
proof (cases "segs \<noteq> [] \<and> seg_kind (last segs) = SegLiteral")
  case True
  then have "evalAll e segs = evalAll e (butlast segs @ [last segs])" by simp
  then have "evalAll e segs = evalAll e (butlast segs) @ seg_value (last segs)"
    using True by (simp add: evalSegment_literal del: append_butlast_last_id)
  with True show ?thesis by (simp add: merge_literal_def evalSegment_literal)
qed (auto simp: merge_literal_def evalSegment_literal)

lemma evalAll_appendLit: "evalAll e (appendLit segs lit) = evalAll e segs @ lit"
  by (simp add: appendLit_def evalAll_merge_literal)

lemma evalAll_appendSeg: "evalAll e (appendSeg segs seg) = evalAll e segs @ evalSegment e seg"
  by (simp add: appendSeg_def evalAll_merge_literal evalSegment_literal)

lemmas evalAll_simps = evalAll_appendLit evalAll_appendSeg

lemma compile_step_expand:
  assumes "compile_step segs s = (segs', s')"
  shows "evalAll e segs' @ expand (look e) s' = evalAll e segs @ expand (look e) s"
proof (cases "Index s ''${''")
  case None
  have "expand (look e) [] = []" by (rule expand_no_marker) simp
  with assms None show ?thesis
    by (auto simp: compile_step_def evalAll_simps expand_no_marker)
next
  case (Some idx)
  have split: "drop idx s = ''${'' @ drop (idx + 2) s"
    using Index_marker_split[OF Some] Index_bound[OF Some]
    by (metis append_eq_conv_conj length_take min.absorb2 add_leE)
  show ?thesis
  proof (cases "0 < idx \<and> s ! (idx - 1) = CHR 0x5C")
    case True
    with assms Some show ?thesis
      by (auto simp: compile_step_def evalAll_simps expand_to_marker[OF Some])
  next
    case False
    then have "expand (look e) s = take idx s @ expand (look e) (''${'' @ drop (idx + 2) s)"
      using expand_to_marker[OF Some] by (simp only: split if_False)
    then show ?thesis
      using assms Some False unfolding expand_at_marker
      by (auto simp: compile_step_def evalAll_simps look_def split: option.splits)
  qed
qed

lemma compile_loop_expand: "evalAll e (compile_loop segs s) = evalAll e segs @ expand (look e) s"
proof (induction segs s rule: compile_loop.induct)
  case (1 segs s)
  show ?case
  proof (cases "s = []")
    case True
    then show ?thesis by (simp add: compile_loop.simps expand_no_marker)
  next
    case False
    obtain segs' s' where st: "compile_step segs s = (segs', s')" by fastforce
    have "evalAll e (compile_loop segs s) = evalAll e (compile_loop segs' s')"
      using False st by (subst compile_loop.simps) simp
    also have "\<dots> = evalAll e segs' @ expand (look e) s'"
      using "1.IH"[OF False st[symmetric]] by simp
    also have "\<dots> = evalAll e segs @ expand (look e) s" by (rule compile_step_expand[OF st])
    finally show ?thesis .
  qed
qed

lemma eval_evalAll: "eval (compileHeaderValue raw) e = evalAll e (segments (compileHeaderValue raw))"
proof (cases "isConst (compileHeaderValue raw)")
  case True
  then obtain s where "segments (compileHeaderValue raw) = [s]" "seg_kind s = SegLiteral"
    by (auto simp: compileHeaderValue_def Let_def length_Suc_conv split: if_splits)
  with True show ?thesis by (simp add: eval_def evalSegment_literal)
qed (simp add: eval_def evalAll_def)

lemma eval_expand: "eval (compileHeaderValue raw) e = expand (look e) raw"
proof -
  have "evalAll e (if compile_loop [] raw = [] then [Seg SegLiteral []] else compile_loop [] raw) =
        expand (look e) raw"
    using compile_loop_expand[of e "[]" raw] by (auto simp: evalSegment_literal)
  then show ?thesis by (simp add: eval_evalAll) (simp add: compileHeaderValue_def Let_def)
qed

text \<open>C18. Evaluating a compiled header value is expanding its text from left to right: each
  \<open>${name}\<close> is replaced by the value of the variable, \<open>\${\<close> by \<open>${\<close>, and all the rest stands
  for itself.\<close>

theorem eval_compile: "eval (compileHeaderValue raw) e = expand (look e) raw"
  by (rule eval_expand)

text \<open>Any text can be written as a header value: with a backslash before each \<open>${\<close> it
  evaluates to itself in every request.\<close>

theorem eval_quote: "eval (compileHeaderValue (quote s)) e = s"
  by (simp only: eval_expand expand_quote)

section \<open>The chain of addresses\<close>

lemma Split_spaced:
  "ws \<noteq> [] \<Longrightarrow> \<forall>w \<in> set ws. CHR '','' \<notin> set w \<Longrightarrow>
   Split (CHR '' '' # Join ws '', '') CHR '','' = map (\<lambda>w. CHR '' '' # w) ws"
proof (induction ws)
  case (Cons w ws)
  show ?case
  proof (cases "ws = []")
    case True
    with Cons show ?thesis by (simp add: Split_single)
  next
    case False
    then have j: "CHR '' '' # Join (w # ws) '', '' =
        (CHR '' '' # w) @ CHR '','' # (CHR '' '' # Join ws '', '')"
      by (simp add: Join_Cons)
    have "Split (CHR '' '' # w) CHR '','' = [CHR '' '' # w]"
      using Cons.prems by (intro Split_single) auto
    with Cons False show ?thesis by (simp only: j Split_append_sep) simp
  qed
qed simp

text \<open>A written address: no comma, no space around it.\<close>

definition plain_addr :: "string \<Rightarrow> bool" where
  "plain_addr w \<longleftrightarrow> CHR '','' \<notin> set w \<and> TrimSpace w = w"

lemma xff_walk_trusted:
  assumes "\<forall>w \<in> set ws. plain_addr w \<and> (\<exists>i. ParseIP w = Some i \<and> tr i)"
    and "plain_addr x" and "ParseIP x = Some p" and "\<not> tr p"
  shows "xff_walk tr c r (rev (map (\<lambda>w. CHR '' '' # w) (x # ws)) @ rest) = x"
  using assms(1)
proof (induction ws arbitrary: r rule: rev_induct)
  case Nil
  then show ?case
    using assms(2-4) by (simp add: plain_addr_def TrimSpace_Cons_space is_space_def)
next
  case (snoc w ws)
  then obtain i where i: "plain_addr w" "ParseIP w = Some i" "tr i" by auto
  have "TrimSpace (CHR '' '' # w) = w"
    using i(1) by (simp add: plain_addr_def TrimSpace_Cons_space is_space_def)
  with i snoc show ?case by simp
qed

text \<open>C17. With trusted proxies, \<open>${trusted_xff}\<close> is the rightmost address of the chain that is
  not a trusted proxy. Whatever a client writes to the left of it, commas and malformed addresses
  included, changes nothing.\<close>

theorem trusted_xff_not_spoofed:
  assumes "Join xff '', '' = spoof @ '', '' @ Join (x # hops) '', ''" and "xff \<noteq> []"
    and "\<not> TrustClientHeaders cfg" and "cfg_TrustedProxies cfg = Some tp"
    and "\<forall>w \<in> set hops. plain_addr w \<and> (\<exists>i. ParseIP w = Some i \<and> cl_Contains (tp_list tp) i)"
    and "plain_addr x" and "ParseIP x = Some p" and "\<not> cl_Contains (tp_list tp) p"
  shows "evalTrustedXFF xff (Some cfg) clientIP = x"
proof -
  have "xffAddresses xff = Split spoof CHR '','' @ map (\<lambda>w. CHR '' '' # w) (x # hops)"
  proof -
    have "Join xff '', '' = spoof @ CHR '','' # (CHR '' '' # Join (x # hops) '', '')"
      using assms(1) by simp
    moreover have "Split (CHR '' '' # Join (x # hops) '', '') CHR '','' = map (\<lambda>w. CHR '' '' # w) (x # hops)"
      using assms(5,6) by (intro Split_spaced) (auto simp: plain_addr_def)
    ultimately show ?thesis by (simp only: xffAddresses_def Split_append_sep)
  qed
  then have "rev (xffAddresses xff) = rev (map (\<lambda>w. CHR '' '' # w) (x # hops)) @ rev (Split spoof CHR '','')"
    by simp
  moreover have "xff_walk (cl_Contains (tp_list tp)) clientIP None
      (rev (map (\<lambda>w. CHR '' '' # w) (x # hops)) @ rev (Split spoof CHR '','')) = x"
    by (rule xff_walk_trusted[OF assms(5-8)])
  ultimately show ?thesis
    using assms(2-4) by (simp add: evalTrustedXFF_def)
qed

definition demo_proxies :: TrustedProxies where
  "demo_proxies = \<lparr>tp_list = newCIDRList\<lparr>cl_nets := [prefix_net 32 (v4InV6Prefix @ [10, 0, 0, 0]) 8]\<rparr>\<rparr>"

lemma trusted_xff_not_spoofed_witness:
  "evalTrustedXFF [''6.6.6.6, oops, 10.0.0.1'', ''203.0.113.9, 10.0.0.3'']
     (Some (zeroConfig\<lparr>cfg_TrustedProxies := Some demo_proxies\<rparr>)) ''10.0.0.3'' = ''203.0.113.9''"
proof (rule trusted_xff_not_spoofed[where spoof = "''6.6.6.6, oops, 10.0.0.1''" and hops = "[''10.0.0.3'']"])
  have "plain_addr ''10.0.0.3'' \<and> ParseIP ''10.0.0.3'' = Some (v4InV6Prefix @ [10, 0, 0, 3]) \<and>
        cl_Contains (tp_list demo_proxies) (v4InV6Prefix @ [10, 0, 0, 3])"
    by code_simp
  then show "\<forall>w \<in> set [''10.0.0.3'']. plain_addr w \<and> (\<exists>i. ParseIP w = Some i \<and> cl_Contains (tp_list demo_proxies) i)"
    by simp
  show "plain_addr ''203.0.113.9''" by code_simp
  show "ParseIP ''203.0.113.9'' = Some (v4InV6Prefix @ [203, 0, 113, 9])" by code_simp
  show "\<not> cl_Contains (tp_list demo_proxies) (v4InV6Prefix @ [203, 0, 113, 9])" by code_simp
qed (simp_all add: zeroConfig_def)

end
