(* ===== verification/Header_Rewrite.thy ===== *)
theory Header_Rewrite
  imports Header_Eval
begin

text \<open>
  Deleting headers and repairing \<open>X-Forwarded-For\<close> (\<^verbatim>\<open>src/headers.go\<close>): \<open>applyDeleteHeaders\<close>
  with its fast path for lists without wildcards, and \<open>xffRoundTripper\<close>, which takes back the
  address that Go's reverse proxy appends.
\<close>

section \<open>Patterns\<close>

definition hasWildcard :: "string list \<Rightarrow> bool" where
  "hasWildcard names = list_ex (\<lambda>n. Contains n ''*'') names"

definition matchesDelete :: "string \<Rightarrow> string \<Rightarrow> bool" where
  "matchesDelete pattern headerName =
     (if \<not> Contains pattern ''*'' then EqualFold pattern headerName
      else path_Match (ToLower pattern) (ToLower headerName) = Some True)"

definition lit_char :: "char \<Rightarrow> bool" where
  "lit_char c \<longleftrightarrow> c \<notin> {CHR ''*'', CHR ''?'', CHR ''['', CHR '']'', CHR 0x5C}"

lemma match_chunk_literal:
  "list_all lit_char ps \<Longrightarrow>
   match_chunk f ps s = (if \<not> f \<and> prefix ps s then Matched (drop (length ps) s) else NoMatch)"
proof (induction ps arbitrary: f s)
  case (Cons p ps)
  then have p: "p \<noteq> CHR ''[''" "p \<noteq> CHR ''?''" "p \<noteq> CHR 0x5C" by (auto simp: lit_char_def)
  have IH: "match_chunk f' ps s' = (if \<not> f' \<and> prefix ps s' then Matched (drop (length ps) s') else NoMatch)"
    for f' s' using Cons by simp
  show ?case
    by (subst match_chunk.simps(2)) (cases s; auto simp: p IH Let_def)
qed simp

lemma scan_len_literal: "list_all lit_char ps \<Longrightarrow> scan_len False (ps @ CHR ''*'' # r) = (ps, CHR ''*'' # r)"
  by (induction ps) (auto simp: lit_char_def)

lemma rest_valid_star: "rest_valid ''*''"
  by code_simp

lemma path_Match_star: "path_Match ''*'' n = Some (CHR ''/'' \<notin> set n)"
  by (subst path_Match.simps) (simp add: scanChunk_def)

lemma path_Match_prefix:
  assumes "list_all lit_char ps" and "ps \<noteq> []"
  shows "path_Match (ps @ ''*'') n = Some (prefix ps n \<and> CHR ''/'' \<notin> set (drop (length ps) n))"
proof -
  have hd: "hd (ps @ ''*'') \<noteq> CHR ''*''" using assms by (cases ps) (auto simp: lit_char_def)
  then have "dropWhile (\<lambda>c. c = CHR ''*'') (ps @ ''*'') = ps @ ''*''"
    by (intro dropWhile_id) simp
  then have scan: "scanChunk (ps @ ''*'') = (False, ps, ''*'')"
    using hd scan_len_literal[OF assms(1), of "[]"] by (simp add: scanChunk_def)
  show ?thesis
    by (subst path_Match.simps)
       (simp add: scan match_chunk_literal[OF assms(1)] Let_def path_Match_star rest_valid_star)
qed

section \<open>Deleting\<close>

text \<open>The keys of \<^verbatim>\<open>toDelete\<close> are those that match; deleting them in any order is restricting the
  map.\<close>

definition applyDeleteHeaders :: "header \<Rightarrow> string list \<Rightarrow> bool \<Rightarrow> header" where
  "applyDeleteHeaders h deleteList hasWild =
     (if \<not> hasWild then fold hdr_Del deleteList h
      else (\<lambda>key. if h key \<noteq> None \<and> list_ex (\<lambda>pattern. matchesDelete pattern key) deleteList
                  then None else h key))"

lemma fold_Del_app:
  "fold hdr_Del ns h k = (if k \<in> CanonicalHeaderKey ` set ns then None else h k)"
  by (induction ns arbitrary: h) (auto simp: hdr_simps)

text \<open>Header maps as the server builds them: every key is a canonical name of token characters.\<close>

definition canonical_keys :: "header \<Rightarrow> bool" where
  "canonical_keys h \<longleftrightarrow> (\<forall>k \<in> dom h. list_all token_char k \<and> CanonicalHeaderKey k = k)"

lemma canonical_keys_Set:
  assumes "canonical_keys h" and "list_all token_char n"
  shows "canonical_keys (hdr_Set n v h)"
proof -
  have "list_all token_char (CanonicalHeaderKey n)"
    using assms(2) by (simp add: CanonicalHeaderKey_def list_all_token_canon_chars)
  with assms(1) show ?thesis by (auto simp: canonical_keys_def hdr_Set_def split: if_splits)
qed

text \<open>The fast path is the slow path: on the headers of a request and a list of names without
  wildcards, deleting name by name and matching every key against every pattern leave the same
  headers.\<close>

theorem delete_fast_slow:
  assumes "canonical_keys h" and "\<not> hasWildcard names" and "list_all (list_all token_char) names"
  shows "applyDeleteHeaders h names False = applyDeleteHeaders h names True"
proof
  fix k
  show "applyDeleteHeaders h names False k = applyDeleteHeaders h names True k"
  proof (cases "h k")
    case None
    then show ?thesis by (simp add: applyDeleteHeaders_def fold_Del_app)
  next
    case (Some v)
    then have k: "list_all token_char k" "CanonicalHeaderKey k = k"
      using assms(1) by (auto simp: canonical_keys_def)
    have "matchesDelete n k \<longleftrightarrow> k = CanonicalHeaderKey n" if "n \<in> set names" for n
    proof -
      have "\<not> Contains n ''*''" using assms(2) that by (auto simp: hasWildcard_def list_ex_iff)
      moreover have "list_all token_char n" using assms(3) that by (auto simp: list_all_iff)
      ultimately show ?thesis
        using canonical_eq_iff[of n k] k by (auto simp: matchesDelete_def)
    qed
    then have "list_ex (\<lambda>n. matchesDelete n k) names \<longleftrightarrow> k \<in> CanonicalHeaderKey ` set names"
      by (auto simp: list_ex_iff)
    then show ?thesis by (simp add: applyDeleteHeaders_def fold_Del_app Some)
  qed
qed

lemma delete_fast_slow_witness:
  "applyDeleteHeaders [''Cookie'' \<mapsto> [''a'']] [''cookie''] False =
   applyDeleteHeaders [''Cookie'' \<mapsto> [''a'']] [''cookie''] True"
proof (rule delete_fast_slow)
  have "list_all token_char ''Cookie'' \<and> CanonicalHeaderKey ''Cookie'' = ''Cookie''" by code_simp
  then show "canonical_keys [''Cookie'' \<mapsto> [''a'']]" by (simp add: canonical_keys_def)
  show "\<not> hasWildcard [''cookie'']" by code_simp
  show "list_all (list_all token_char) [''cookie'']" by code_simp
qed

text \<open>A pattern \<open>prefix*\<close> of the delete list deletes exactly the headers whose names begin
  with the prefix, whatever their case.\<close>

theorem delete_prefix_pattern:
  assumes "list_all lit_char (ToLower p)" and "p \<noteq> []" and "CHR ''/'' \<notin> set (ToLower k)"
  shows "applyDeleteHeaders h [p @ ''*''] True k =
         (if HasPrefix (ToLower k) (ToLower p) then None else h k)"
proof -
  have "Contains (p @ ''*'') ''*''" by (simp add: Contains_byte_iff)
  moreover have "ToLower (p @ ''*'') = ToLower p @ ''*''"
    by (simp add: ToLower_append) (code_simp)
  moreover have "ToLower p \<noteq> []" using assms(2) by (simp add: ToLower_def)
  moreover have "CHR ''/'' \<notin> set (drop n (ToLower k))" for n
    using assms(3) in_set_dropD by metis
  ultimately have "matchesDelete (p @ ''*'') k \<longleftrightarrow> HasPrefix (ToLower k) (ToLower p)"
    using path_Match_prefix[OF assms(1), of "ToLower k"] by (simp add: matchesDelete_def HasPrefix_def)
  then show ?thesis by (auto simp: applyDeleteHeaders_def)
qed

lemma delete_prefix_pattern_witness:
  "applyDeleteHeaders [''X-Internal-Id'' \<mapsto> [''1'']] [''x-internal-*''] True ''X-Internal-Id'' = None"
proof -
  have "applyDeleteHeaders [''X-Internal-Id'' \<mapsto> [''1'']] [''x-internal-'' @ ''*''] True ''X-Internal-Id'' =
      (if HasPrefix (ToLower ''X-Internal-Id'') (ToLower ''x-internal-'') then None
       else [''X-Internal-Id'' \<mapsto> [''1'']] ''X-Internal-Id'')"
    by (rule delete_prefix_pattern) code_simp+
  moreover have "HasPrefix (ToLower ''X-Internal-Id'') (ToLower ''x-internal-'')" by code_simp
  ultimately show ?thesis by simp
qed

section \<open>X-Forwarded-For\<close>

abbreviation (input) XFF :: string where
  "XFF \<equiv> ''X-Forwarded-For''"

text \<open>The header part of \<^verbatim>\<open>xffRoundTripper.RoundTrip\<close>.\<close>

definition fixXFF :: "header \<Rightarrow> header" where
  "fixXFF h =
     (case h XFF of
        Some [combined] \<Rightarrow>
          (case LastIndex combined '', '' of
             Some idx \<Rightarrow> hdr_Set XFF (take idx combined) h
           | None \<Rightarrow> hdr_Del XFF h)
      | _ \<Rightarrow> h)"

text \<open>What \<^verbatim>\<open>httputil.ReverseProxy\<close> does to the header between the Director and the transport:
  when the remote address splits, the client address is joined to the values.\<close>

definition proxyAppendXFF :: "string \<Rightarrow> header \<Rightarrow> header" where
  "proxyAppendXFF remoteAddr h =
     (case SplitHostPort remoteAddr of
        None \<Rightarrow> h
      | Some (clientIP, port) \<Rightarrow>
          (case h XFF of
             None \<Rightarrow> hdr_Set XFF clientIP h
           | Some [] \<Rightarrow> h
           | Some prior \<Rightarrow> hdr_Set XFF (Join prior '', '' @ '', '' @ clientIP) h))"

lemma canonical_XFF [simp]: "CanonicalHeaderKey XFF = XFF"
  by code_simp

lemma LastIndex_missing: "c \<in> set sub \<Longrightarrow> c \<notin> set s \<Longrightarrow> LastIndex s sub = None"
  using LastIndex_Some[of s sub] by (metis in_set_conv_decomp append.assoc append_Cons in_set_dropD
      in_set_takeD set_append Un_iff not_None_eq)

lemma LastIndex_joined:
  assumes "CHR '' '' \<notin> set i"
  shows "LastIndex (v @ '', '' @ i) '', '' = Some (length v)"
proof -
  have "LastIndex i '', '' = None" using assms by (intro LastIndex_missing[of "CHR '' ''"]) auto
  then have "LastIndex ('', '' @ i) '', '' = Some 0" by simp
  from LastIndex_append_Some[OF this, of v] show ?thesis by simp
qed

text \<open>The address that the reverse proxy appends to the chain is taken back: what goes out is
  the single value that the Director left, and no header when it left none.\<close>

theorem fixXFF_restores:
  assumes "SplitHostPort remoteAddr = Some (i, port)" and "CHR '' '' \<notin> set i"
    and "h XFF = None \<or> (\<exists>v. h XFF = Some [v])"
  shows "fixXFF (proxyAppendXFF remoteAddr h) = h"
  using assms(3)
proof
  assume none: "h XFF = None"
  have "LastIndex i '', '' = None"
    using assms(2) by (intro LastIndex_missing[of "CHR '' ''"]) auto
  then show ?thesis
    using assms(1) none by (auto simp: fixXFF_def proxyAppendXFF_def hdr_Set_def hdr_Del_def)
next
  assume "\<exists>v. h XFF = Some [v]"
  then obtain v where v: "h XFF = Some [v]" by blast
  then show ?thesis
    using assms(1) LastIndex_joined[OF assms(2), of v]
    by (auto simp: fixXFF_def proxyAppendXFF_def hdr_Set_def fun_eq_iff)
qed

lemma fixXFF_restores_witness:
  "fixXFF (proxyAppendXFF ''10.0.0.9:4711'' [XFF \<mapsto> [''203.0.113.9, 10.0.0.9'']]) =
     [XFF \<mapsto> [''203.0.113.9, 10.0.0.9'']]"
proof (rule fixXFF_restores)
  show "SplitHostPort ''10.0.0.9:4711'' = Some (''10.0.0.9'', ''4711'')" by code_simp
qed simp_all

text \<open>Without a remote address that splits, as on a Unix socket, nothing is appended, and what is
  cut off is the last address of the chain that the client sent.\<close>

theorem fixXFF_unix_cuts:
  assumes "SplitHostPort remoteAddr = None" and "h XFF = Some [v @ '', '' @ w]" and "CHR '' '' \<notin> set w"
  shows "fixXFF (proxyAppendXFF remoteAddr h) XFF = Some [v]"
  using assms LastIndex_joined[OF assms(3), of v]
  by (simp add: fixXFF_def proxyAppendXFF_def hdr_Set_def)

lemma fixXFF_unix_cuts_witness:
  "fixXFF (proxyAppendXFF ''@'' [XFF \<mapsto> [''6.6.6.6, 203.0.113.9'']]) XFF = Some [''6.6.6.6'']"
proof (rule fixXFF_unix_cuts)
  show "SplitHostPort ''@'' = None" by code_simp
  show "[XFF \<mapsto> [''6.6.6.6, 203.0.113.9'']] XFF = Some [''6.6.6.6'' @ '', '' @ ''203.0.113.9'']" by simp
qed simp

end
