(* ===== verification/Config_Load.thy ===== *)
theory Config_Load
  imports Go_Url Go_Sha1 Header_Rewrite
begin

text \<open>
  Loading the configuration (\<^verbatim>\<open>src/config.go\<close>): environment variables in the text, the values of
  \<open>dest\<close>, the routes of a vhost, and the whole file. The YAML decoder (\<^verbatim>\<open>yaml.v3\<close>) is not part
  of the repository: it is the argument \<open>decode\<close> of \<open>loadConfigFile\<close>, which returns the record
  \<open>fileConfig\<close> or fails; the node that the repository's own \<open>UnmarshalYAML\<close> methods receive is
  the type \<open>yamlNode\<close>.
\<close>

section \<open>Environment variables\<close>

abbreviation (input) envPrefix :: string where
  "envPrefix \<equiv> ''${env.''"

definition envEscape :: string where
  "envEscape = CHR 0x5C # envPrefix"

text \<open>The value of one reference: \<open>NAME\<close> or \<open>NAME:default\<close>.\<close>

definition envValue :: "(string \<Rightarrow> string option) \<Rightarrow> string \<Rightarrow> string" where
  "envValue env inner =
     (let (varName, defaultVal) =
        (case IndexByte inner CHR '':'' of
           None \<Rightarrow> (inner, [])
         | Some i \<Rightarrow> (take i inner, drop (i + 1) inner))
      in case env varName of None \<Rightarrow> defaultVal | Some v \<Rightarrow> v)"

text \<open>One pass of the loop: the text to append, and what is left to scan unless the loop ends.\<close>

definition envStep :: "(string \<Rightarrow> string option) \<Rightarrow> string \<Rightarrow> string \<times> string option" where
  "envStep env s =
     (case Index s envEscape of
        Some e \<Rightarrow>
          (case Index s envPrefix of
             None \<Rightarrow> (take e s @ envPrefix, Some (drop (e + length envEscape) s))
           | Some n \<Rightarrow>
               if e < n then (take e s @ envPrefix, Some (drop (e + length envEscape) s))
               else (case IndexByte (drop (n + 6) s) CHR ''}'' of
                       None \<Rightarrow> (take n s @ envPrefix @ drop (n + 6) s, None)
                     | Some close \<Rightarrow>
                         (take n s @ envValue env (take close (drop (n + 6) s)),
                          Some (drop (close + 1) (drop (n + 6) s)))))
      | None \<Rightarrow>
          (case Index s envPrefix of
             None \<Rightarrow> (s, None)
           | Some n \<Rightarrow>
               (case IndexByte (drop (n + 6) s) CHR ''}'' of
                  None \<Rightarrow> (take n s @ envPrefix @ drop (n + 6) s, None)
                | Some close \<Rightarrow>
                    (take n s @ envValue env (take close (drop (n + 6) s)),
                     Some (drop (close + 1) (drop (n + 6) s))))))"

lemma envStep_shorter:
  assumes "envStep env s = (out, Some s')"
  shows "length s' < length s"
proof -
  have "Index s envEscape = Some e \<Longrightarrow> e + 7 \<le> length s" for e
    using Index_bound[of s envEscape e] by (simp add: envEscape_def)
  moreover have "Index s envPrefix = Some n \<Longrightarrow> n + 6 \<le> length s" for n
    using Index_bound[of s envPrefix n] by simp
  ultimately show ?thesis
    using assms by (fastforce simp: envStep_def envEscape_def split: option.splits if_splits)
qed

function expandEnvVars :: "(string \<Rightarrow> string option) \<Rightarrow> string \<Rightarrow> string" where
  "expandEnvVars env s =
     (case envStep env s of
        (out, None) \<Rightarrow> out
      | (out, Some s') \<Rightarrow> out @ expandEnvVars env s')"
  by pat_completeness auto
termination
  by (relation "measure (\<lambda>(env, s). length s)") (auto dest: envStep_shorter[OF sym])

declare expandEnvVars.simps [simp del]

section \<open>The value of dest\<close>

definition parseDestField :: "string \<Rightarrow> (int \<times> string) option" where
  "parseDestField dest =
     (if \<not> HasPrefix (ToUpper dest) ''STATUS '' then None
      else
        let rest = TrimSpace (drop 7 dest);
            (codeStr, txt) =
              (case IndexByte rest CHR '' '' of
                 None \<Rightarrow> (rest, [])
               | Some i \<Rightarrow> (take i rest, drop (i + 1) rest))
        in case Sscanf_d codeStr of
             None \<Rightarrow> None
           | Some n \<Rightarrow> if n < 100 \<or> 599 < n then None else Some (n, txt))"

definition fileFields :: "bool \<Rightarrow> string \<Rightarrow> (int \<times> string \<times> bool) option" where
  "fileFields browse rest =
     (case Fields rest of
        [] \<Rightarrow> None
      | [path] \<Rightarrow> Some (200, path, browse)
      | code # path # _ \<Rightarrow>
          (case Sscanf_d code of
             None \<Rightarrow> None
           | Some n \<Rightarrow> if n < 100 \<or> 599 < n then None else Some (n, path, browse)))"

definition parseFileField :: "string \<Rightarrow> (int \<times> string \<times> bool) option" where
  "parseFileField dest =
     (if HasPrefix (ToUpper dest) ''FILE-BROWSE '' then fileFields True (drop 12 dest)
      else if HasPrefix (ToUpper dest) ''FILE '' then fileFields False (drop 5 dest)
      else None)"

text \<open>\<^verbatim>\<open>filepath.Ext\<close>: from the last dot of the last path element.\<close>

definition fileExt :: "string \<Rightarrow> string" where
  "fileExt name =
     (let tail = rev (takeWhile (\<lambda>c. c \<noteq> CHR ''/'') (rev name)) in
      case LastIndex tail ''.'' of None \<Rightarrow> [] | Some i \<Rightarrow> drop i tail)"

definition contentTypes :: "(string list \<times> string) list" where
  "contentTypes =
     [([''.html'', ''.htm''], ''text/html; charset=utf-8''),
      ([''.txt'', ''.log'', ''.md''], ''text/plain; charset=utf-8''),
      ([''.css''], ''text/css; charset=utf-8''),
      ([''.js''], ''application/javascript''),
      ([''.json''], ''application/json''),
      ([''.xml''], ''application/xml''),
      ([''.jpg'', ''.jpeg''], ''image/jpeg''),
      ([''.png''], ''image/png''),
      ([''.gif''], ''image/gif''),
      ([''.svg''], ''image/svg+xml''),
      ([''.ico''], ''image/x-icon''),
      ([''.pdf''], ''application/pdf''),
      ([''.zip''], ''application/zip'')]"

definition guessContentType :: "string \<Rightarrow> string" where
  "guessContentType filename =
     (case find (\<lambda>(exts, t). ToLower (fileExt filename) \<in> set exts) contentTypes of
        Some (exts, t) \<Rightarrow> t
      | None \<Rightarrow> ''application/octet-stream'')"

definition unixHostLabel :: "string \<Rightarrow> string" where
  "unixHostLabel socketPath = ''unix-'' @ hex_EncodeToString (take 8 (sha1_Sum socketPath))"

definition withSlash :: "string \<Rightarrow> string" where
  "withSlash p = (if HasPrefix p ''/'' then p else ''/'' @ p)"

text \<open>The four results: the URL and the socket path when \<^verbatim>\<open>ok\<close>, and whether there is an error.\<close>

definition parseUnixUpstream :: "string \<Rightarrow> (URL \<times> string) option \<times> bool" where
  "parseUnixUpstream s =
     (let sr = (if HasPrefix s ''unixs://'' then Some (''https'', drop 8 s)
                else if HasPrefix s ''unix://'' then Some (''http'', drop 7 s) else None)
      in case sr of
           None \<Rightarrow> (None, False)
         | Some (scheme, rest) \<Rightarrow>
             let (sock, httpPath) =
               (case LastIndex rest '':'' of
                  None \<Rightarrow> (rest, ''/'')
                | Some i \<Rightarrow> (take i rest, drop (i + 1) rest))
             in if sock = [] then (None, True)
                else (Some (\<lparr>url_Scheme = scheme, url_Host = unixHostLabel (withSlash sock),
                             url_Path = withSlash httpPath, url_RawQuery = []\<rparr>, withSlash sock), False))"

datatype destError = StatusInList | FileInList | UnixError string | BadURL string

text \<open>The URL and the weight of one entry of a list.\<close>

definition parseUpstreamString :: "string \<Rightarrow> destError + string \<times> int" where
  "parseUpstreamString s0 =
     (let s = TrimSpace s0 in
      if HasPrefix (ToUpper s) ''STATUS'' then Inl StatusInList
      else if HasPrefix (ToUpper s) ''FILE'' then Inl FileInList
      else (case Index s '' '' of
              None \<Rightarrow> Inr (s, 1)
            | Some idx \<Rightarrow>
                let rest = TrimSpace (drop (idx + 1) s) in
                Inr (take idx s,
                     if HasPrefix rest ''weight='' then
                       (case Sscanf_d (drop 7 rest) of None \<Rightarrow> 1 | Some w \<Rightarrow> if w < 1 then 1 else w)
                     else 1)))"

text \<open>The lines that the single entry and each entry of a list share.\<close>

definition upstreamOf :: "string \<Rightarrow> int \<Rightarrow> destError + Upstream" where
  "upstreamOf raw weight =
     (case parseUnixUpstream raw of
        (Some (u, sock), uerr) \<Rightarrow>
          if uerr then Inl (UnixError raw)
          else Inr \<lparr>u_URL = raw, u_Parsed = u, u_Weight = weight, u_UnixSocket = sock\<rparr>
      | (None, _) \<Rightarrow>
          (case url_Parse raw of
             None \<Rightarrow> Inl (BadURL raw)
           | Some u \<Rightarrow> Inr \<lparr>u_URL = raw, u_Parsed = u, u_Weight = weight, u_UnixSocket = []\<rparr>))"

fun destList :: "string list \<Rightarrow> destError + Upstream list" where
  "destList [] = Inr []"
| "destList (entry # es) =
     (case parseUpstreamString entry of
        Inl e \<Rightarrow> Inl e
      | Inr (raw, w) \<Rightarrow>
          (case upstreamOf raw w of
             Inl e \<Rightarrow> Inl e
           | Inr u \<Rightarrow> (case destList es of Inl e \<Rightarrow> Inl e | Inr us \<Rightarrow> Inr (u # us))))"

definition applyDestEntries :: "RouteConfig \<Rightarrow> string list \<Rightarrow> destError + RouteConfig" where
  "applyDestEntries rc entries =
     (case entries of
        [] \<Rightarrow> Inr rc
      | [e] \<Rightarrow>
          (case parseDestField e of
             Some (code, txt) \<Rightarrow> Inr (rc\<lparr>StatusCode := code, StatusText := txt\<rparr>)
           | None \<Rightarrow>
               (case parseFileField e of
                  Some (code, path, browse) \<Rightarrow>
                    Inr (rc\<lparr>StatusCode := code, StaticFilePath := path, StaticDirListing := browse\<rparr>)
                | None \<Rightarrow>
                    (case upstreamOf e 1 of
                       Inl err \<Rightarrow> Inl err
                     | Inr u \<Rightarrow> Inr (rc\<lparr>Upstreams := [u]\<rparr>))))
      | _ \<Rightarrow> (case destList entries of Inl err \<Rightarrow> Inl err | Inr us \<Rightarrow> Inr (rc\<lparr>Upstreams := us\<rparr>)))"

definition normalizeLBMode :: "string \<Rightarrow> string" where
  "normalizeLBMode s =
     (if ToLower (TrimSpace s) \<in> {''round-robin'', ''roundrobin''} then ''round-robin'' else ''random'')"

end
