(* ===== verification/Config_File.thy ===== *)
theory Config_File
  imports Config_Load
begin

text \<open>
  The configuration file (\<^verbatim>\<open>src/config.go\<close>): the records that mirror the YAML, the strict check of
  keys, \<open>parseFileVHost\<close> and \<open>loadConfigFile\<close>.
\<close>

section \<open>YAML nodes\<close>

text \<open>What the \<open>UnmarshalYAML\<close> methods look at: the kind of a node and, for a mapping, its keys
  with their lines.\<close>

datatype yamlNode =
    ScalarNode string
  | SequenceNode "yamlNode list"
  | MappingNode "(string \<times> int \<times> yamlNode) list"
  | AliasNode

definition tagName :: "string \<Rightarrow> string" where
  "tagName tag = (case IndexByte tag CHR '','' of None \<Rightarrow> tag | Some i \<Rightarrow> take i tag)"

definition knownYAMLFields :: "string list \<Rightarrow> string list" where
  "knownYAMLFields tags =
     filter (\<lambda>n. n \<noteq> []) (map tagName (filter (\<lambda>t. t \<noteq> [] \<and> t \<noteq> ''-'') tags))"

fun unknownKey :: "string list \<Rightarrow> (string \<times> int \<times> yamlNode) list \<Rightarrow> (int \<times> string) option" where
  "unknownKey known [] = None"
| "unknownKey known ((key, line, v) # es) =
     (if key \<notin> set known then Some (line, key) else unknownKey known es)"

text \<open>The line and the key of the first unknown one, if there is an error.\<close>

definition checkUnknownFields :: "bool \<Rightarrow> yamlNode \<Rightarrow> string list \<Rightarrow> (int \<times> string) option" where
  "checkUnknownFields strictYAML node tags =
     (if \<not> strictYAML then None
      else (case node of MappingNode es \<Rightarrow> unknownKey (knownYAMLFields tags) es | _ \<Rightarrow> None))"

definition routeTags :: "string list" where
  "routeTags = [''dest'', ''noTLSverify'', ''auth'', ''timeout'', ''dial-timeout'', ''load-balancer-mode'',
     ''dest-add-header'', ''dest-del-header'', ''client-add-header'', ''client-del-header'',
     ''auth-users'', ''skip-jwt-auth'', []]"

definition globalTags :: "string list" where
  "globalTags = [''listen'', ''port'', ''global-tls-cert'', ''global-tls-key'', ''global-auth'',
     ''trust-client-headers'', ''ip-filter'', ''trusted-proxies'', ''jwt-authentication'', ''acme'']"

fun destScalars :: "yamlNode list \<Rightarrow> string list option" where
  "destScalars [] = Some []"
| "destScalars (n # ns) =
     (case n of ScalarNode v \<Rightarrow> map_option (\<lambda>vs. v # vs) (destScalars ns) | _ \<Rightarrow> None)"

definition destUnmarshal :: "yamlNode \<Rightarrow> string list option" where
  "destUnmarshal node =
     (case node of
        ScalarNode v \<Rightarrow> Some [v]
      | SequenceNode items \<Rightarrow> destScalars items
      | _ \<Rightarrow> None)"

definition authKeyPresent :: "yamlNode \<Rightarrow> bool" where
  "authKeyPresent node =
     (case node of MappingNode es \<Rightarrow> list_ex (\<lambda>(k, l, v). k = ''auth'') es | _ \<Rightarrow> False)"

section \<open>The records of the file\<close>

record fileRoute =
  fr_Dest :: "string list"
  fr_NoTLSVerify :: bool
  fr_Auth :: "string list"
  fr_Timeout :: string
  fr_DialTimeout :: string
  fr_LBMode :: string
  fr_AddHeaders :: "(string \<times> string) list"
  fr_DeleteHeaders :: "string list"
  fr_ClientAddHeaders :: "(string \<times> string) list"
  fr_ClientDelHeaders :: "string list"
  fr_AuthUsers :: "string list"
  fr_SkipJwtAuth :: bool
  fr_authPresent :: bool

record fileVHost =
  fv_Domains :: "string list"
  fv_Routes :: "(string \<times> fileRoute) list"
  fv_TLS :: "VHostTLS option"

record fileGlobal =
  fg_Listen :: string
  fg_Port :: int
  fg_TLSCert :: string
  fg_TLSKey :: string
  fg_Auth :: "string list"
  fg_TrustClientHeaders :: bool
  fg_IPFilter :: "IPFilterConfig option"
  fg_TrustedProxies :: "string list"
  fg_JWTAuth :: "JWTAuth option"
  fg_ACME :: "ACMEConfig option"

record fileConfig =
  fc_Global :: fileGlobal
  fc_Routes :: "(string \<times> fileRoute) list"
  fc_VHosts :: "fileVHost list"

section \<open>Routes and vhosts\<close>

datatype loadError =
    ReadError
  | DecodeError
  | IPFilterError filterError
  | TrustedProxiesError "string \<times> entryError"
  | GlobalAuthError
  | BothFormats
  | NoDomains nat
  | RouteDest string destError
  | RouteAuth string

text \<open>The route before its destination and its credentials are read.\<close>

definition routeBase :: "fileRoute \<Rightarrow> RouteConfig" where
  "routeBase fr =
     (let add = compiledHeaders (fr_AddHeaders fr);
          cadd = compiledHeaders (fr_ClientAddHeaders fr);
          cxff = hasTrustedXFFVar cadd
      in zeroRoute\<lparr>NoTLSVerify := fr_NoTLSVerify fr, Timeout := fr_Timeout fr,
           DialTimeout := fr_DialTimeout fr, LBMode := normalizeLBMode (fr_LBMode fr),
           AuthExplicit := fr_authPresent fr, ParsedAddHeaders := add,
           DeleteHeaders := fr_DeleteHeaders fr, DeleteHasWildcard := hasWildcard (fr_DeleteHeaders fr),
           AddHasVars := hasNonConstHeader add, NeedsOriginal := hasHeaderNameVar add,
           ParsedClientAddHeaders := cadd, ClientAddHasVars := hasNonConstHeader cadd,
           ClientNeedsRespHeaders := hasHeaderNameVar cadd, ClientNeedsTrustedXFF := cxff,
           NeedsTrustedXFF := hasTrustedXFFVar add \<or> cxff,
           ClientDelHeaders := fr_ClientDelHeaders fr,
           ClientDelHasWildcard := hasWildcard (fr_ClientDelHeaders fr),
           AuthUsers := fr_AuthUsers fr, SkipJwtAuth := fr_SkipJwtAuth fr\<rparr>)"

definition routeOf :: "string \<Rightarrow> fileRoute \<Rightarrow> loadError + RouteConfig" where
  "routeOf path fr =
     (case applyDestEntries (routeBase fr) (fr_Dest fr) of
        Inl e \<Rightarrow> Inl (RouteDest path e)
      | Inr rc \<Rightarrow>
          if fr_authPresent fr then
            (case fr_Auth fr of
               [] \<Rightarrow> Inr rc
             | [u, p] \<Rightarrow> Inr (rc\<lparr>rc_Auth := Some \<lparr>auth_User = u, auth_Password = p\<rparr>\<rparr>)
             | _ \<Rightarrow> Inl (RouteAuth path))
          else Inr rc)"

fun fileRoutesOf :: "(string \<times> fileRoute) list \<Rightarrow> loadError + routes" where
  "fileRoutesOf [] = Inr []"
| "fileRoutesOf ((path, fr) # frs) =
     (case routeOf path fr of
        Inl e \<Rightarrow> Inl e
      | Inr rc \<Rightarrow> (case fileRoutesOf frs of Inl e \<Rightarrow> Inl e | Inr rs \<Rightarrow> Inr ((path, rc) # rs)))"

definition parseFileVHost :: "(string \<times> fileRoute) list \<Rightarrow> string list \<Rightarrow> loadError + VHost" where
  "parseFileVHost fileRoutes domains =
     (case fileRoutesOf fileRoutes of
        Inl e \<Rightarrow> Inl e
      | Inr rs \<Rightarrow> Inr \<lparr>Domains = domains, Routes = rs, vh_TLS = None\<rparr>)"

text \<open>The loop over \<^verbatim>\<open>fc.VHosts\<close>, from index \<open>i\<close>.\<close>

fun fileVHostsOf :: "nat \<Rightarrow> fileVHost list \<Rightarrow> loadError + VHost list" where
  "fileVHostsOf i [] = Inr []"
| "fileVHostsOf i (fvh # fvhs) =
     (if fv_Domains fvh = [] then Inl (NoDomains i)
      else (case parseFileVHost (fv_Routes fvh) (fv_Domains fvh) of
              Inl e \<Rightarrow> Inl e
            | Inr vh \<Rightarrow>
                (case fileVHostsOf (Suc i) fvhs of
                   Inl e \<Rightarrow> Inl e
                 | Inr vhs \<Rightarrow> Inr (vh\<lparr>vh_TLS := fv_TLS fvh\<rparr> # vhs))))"

section \<open>The file\<close>

definition globalConfig :: "fileGlobal \<Rightarrow> loadError + Config" where
  "globalConfig g =
     (let cfg = zeroConfig\<lparr>Listen := fg_Listen g, Port := (if fg_Port g = 0 then 8080 else fg_Port g),
                  GlobalTLSCert := fg_TLSCert g, GlobalTLSKey := fg_TLSKey g,
                  TrustClientHeaders := fg_TrustClientHeaders g, cfg_JWTAuth := fg_JWTAuth g,
                  cfg_ACME := fg_ACME g\<rparr>
      in case buildIPFilter (fg_IPFilter g) of
           Inl e \<Rightarrow> Inl (IPFilterError e)
         | Inr ipf \<Rightarrow>
             (case buildTrustedProxies (fg_TrustedProxies g) of
                Inl e \<Rightarrow> Inl (TrustedProxiesError e)
              | Inr tp \<Rightarrow>
                  let cfg = cfg\<lparr>cfg_IPFilter := ipf, cfg_TrustedProxies := tp\<rparr> in
                  (case fg_Auth g of
                     [] \<Rightarrow> Inr cfg
                   | [u, p] \<Rightarrow> Inr (cfg\<lparr>GlobalAuth := Some \<lparr>auth_User = u, auth_Password = p\<rparr>\<rparr>)
                   | _ \<Rightarrow> Inl GlobalAuthError)))"

definition configOf :: "fileConfig \<Rightarrow> loadError + Config" where
  "configOf fc =
     (case globalConfig (fc_Global fc) of
        Inl e \<Rightarrow> Inl e
      | Inr cfg \<Rightarrow>
          if fc_Routes fc \<noteq> [] then
            (if fc_VHosts fc \<noteq> [] then Inl BothFormats
             else (case parseFileVHost (fc_Routes fc) [''*''] of
                     Inl e \<Rightarrow> Inl e
                   | Inr vh \<Rightarrow> Inr (cfg\<lparr>VHosts := [vh]\<rparr>)))
          else (case fileVHostsOf 0 (fc_VHosts fc) of
                  Inl e \<Rightarrow> Inl e
                | Inr vhs \<Rightarrow> Inr (cfg\<lparr>VHosts := vhs\<rparr>)))"

definition loadConfigFile ::
  "(string \<Rightarrow> string option) \<Rightarrow> (string \<Rightarrow> string option) \<Rightarrow> (string \<Rightarrow> fileConfig option) \<Rightarrow> string
     \<Rightarrow> loadError + Config" where
  "loadConfigFile readFile env decode path =
     (case readFile path of
        None \<Rightarrow> Inl ReadError
      | Some data \<Rightarrow>
          (case decode (expandEnvVars env data) of
             None \<Rightarrow> Inl DecodeError
           | Some fc \<Rightarrow> configOf fc))"

end
