(* ===== verification/Director.thy ===== *)
theory Director
  imports Header_Rewrite
begin

text \<open>
  What a proxied request becomes: the \<open>Director\<close> closure of \<^verbatim>\<open>buildRouteHandler\<close>
  (\<^verbatim>\<open>src/server.go\<close>), the part of Go's \<^verbatim>\<open>httputil.ReverseProxy\<close> that runs between it and the
  transport (hop-by-hop headers, the client address), \<open>xffRoundTripper\<close>, and the headers of the
  response (\<open>ModifyResponse\<close>, \<open>manipulateClientHeaders\<close>).
\<close>

section \<open>Requests\<close>

text \<open>The fields of \<^verbatim>\<open>http.Request\<close> that the code reads or writes; \<open>rq_ctxHost\<close> and
  \<open>rq_ctxXFF\<close> are the two values stored in the context.\<close>

record request =
  rq_Host :: string
  rq_URL :: URL
  rq_RequestURI :: string
  rq_RemoteAddr :: string
  rq_TLS :: bool
  rq_Header :: header
  rq_ctxHost :: string
  rq_ctxXFF :: "string list"

definition schemeOf :: "request \<Rightarrow> string" where
  "schemeOf r = (if rq_TLS r then ''https'' else ''http'')"

definition clientAddr :: "string \<Rightarrow> string \<times> string" where
  "clientAddr remoteAddr = (case SplitHostPort remoteAddr of None \<Rightarrow> ([], []) | Some hp \<Rightarrow> hp)"

section \<open>The Director\<close>

text \<open>Path and query: the route prefix is replaced by the path of the upstream.\<close>

definition joinQuery :: "string \<Rightarrow> string \<Rightarrow> string" where
  "joinQuery destQuery query =
     (if destQuery \<noteq> [] \<and> query \<noteq> [] then destQuery @ ''&'' @ query
      else if destQuery \<noteq> [] then destQuery
      else query)"

definition rewriteURL :: "string \<Rightarrow> URL \<Rightarrow> URL \<Rightarrow> URL" where
  "rewriteURL routePath dest u =
     (let stripped = TrimPrefix (url_Path u) routePath;
          destPath = url_Path dest @
            (if \<not> HasSuffix (url_Path dest) ''/'' \<and> stripped \<noteq> [] then ''/'' else [])
      in \<lparr>url_Scheme = url_Scheme dest, url_Host = url_Host dest, url_Path = destPath @ stripped,
          url_RawQuery = joinQuery (url_RawQuery dest) (url_RawQuery u)\<rparr>)"

text \<open>Whether the connecting address may speak for others.\<close>

definition trustedClient :: "Config \<Rightarrow> string \<Rightarrow> bool" where
  "trustedClient cfg clientIP \<longleftrightarrow>
     TrustClientHeaders cfg \<or>
     (case cfg_TrustedProxies cfg of
        None \<Rightarrow> False
      | Some tp \<Rightarrow>
          (case ParseIP clientIP of None \<Rightarrow> False | Some i \<Rightarrow> cl_Contains (tp_list tp) i))"

definition forwardedHeaders :: "Config \<Rightarrow> string \<Rightarrow> request \<Rightarrow> header" where
  "forwardedHeaders cfg clientIP r =
     (let trusted = trustedClient cfg clientIP;
          h = rq_Header r;
          h = (if clientIP = [] then h
               else if trusted then
                 (case h XFF of
                    Some prior \<Rightarrow> hdr_Set XFF (Join prior '', '' @ '', '' @ clientIP) h
                  | None \<Rightarrow> hdr_Set XFF clientIP h)
               else hdr_Set XFF clientIP h)
      in if trusted then h
         else hdr_Set ''X-Forwarded-Proto'' (schemeOf r) (hdr_Set ''X-Forwarded-Host'' (rq_Host r) h))"

definition xffCopyOf :: "RouteConfig \<Rightarrow> header \<Rightarrow> string list" where
  "xffCopyOf rc h =
     (if NeedsTrustedXFF rc then (case h XFF of None \<Rightarrow> [] | Some vs \<Rightarrow> vs) else [])"

definition effectiveAuth :: "RouteConfig \<Rightarrow> Config \<Rightarrow> Auth option" where
  "effectiveAuth rc cfg = (if AuthExplicit rc then rc_Auth rc else GlobalAuth cfg)"

definition deleteHost :: "string list \<Rightarrow> bool \<Rightarrow> string \<Rightarrow> string" where
  "deleteHost names upstreamIsUnix host =
     (if list_ex (\<lambda>n. EqualFold n ''host'') names
      then (if upstreamIsUnix then ''localhost'' else [])
      else host)"

text \<open>One entry of the loop over \<^verbatim>\<open>rc.ParsedAddHeaders\<close>: \<open>Host\<close> is a field of the request.\<close>

definition addOne :: "evalCtx \<Rightarrow> string \<times> parsedHeaderValue \<Rightarrow> request \<Rightarrow> request" where
  "addOne e nph r =
     (let resolved = eval (snd nph) e in
      if EqualFold (fst nph) ''host'' then r\<lparr>rq_Host := resolved\<rparr>
      else r\<lparr>rq_Header := hdr_Set (fst nph) resolved (rq_Header r)\<rparr>)"

definition addCtx :: "RouteConfig \<Rightarrow> Config \<Rightarrow> request \<Rightarrow> string list \<Rightarrow> evalCtx" where
  "addCtx rc cfg r0 xffCopy =
     (case clientAddr (rq_RemoteAddr r0) of (clientIP, clientPort) \<Rightarrow>
        \<lparr>ev_host = rq_Host r0, ev_clientIP = clientIP, ev_clientPort = clientPort,
         ev_scheme = (if AddHasVars rc then schemeOf r0 else []),
         ev_requestURI = (if AddHasVars rc then rq_RequestURI r0 else []),
         ev_XFFcopy = xffCopy, ev_cfg = Some cfg,
         ev_original = (if NeedsOriginal rc then hdr_Set ''Host'' (rq_Host r0) (rq_Header r0)
                        else (\<lambda>_. None))\<rparr>)"

definition director :: "string \<Rightarrow> RouteConfig \<Rightarrow> Config \<Rightarrow> Upstream \<Rightarrow> request \<Rightarrow> request" where
  "director routePath rc cfg upstream r0 =
     (let clientIP = fst (clientAddr (rq_RemoteAddr r0));
          r1 = r0\<lparr>rq_URL := rewriteURL routePath (u_Parsed upstream) (rq_URL r0),
                  rq_ctxHost := rq_Host r0,
                  rq_Header := forwardedHeaders cfg clientIP r0\<rparr>;
          xffCopy = xffCopyOf rc (rq_Header r1);
          r2 = (if ClientNeedsTrustedXFF rc \<and> NeedsTrustedXFF rc then r1\<lparr>rq_ctxXFF := xffCopy\<rparr> else r1);
          r3 = (if effectiveAuth rc cfg \<noteq> None
                then r2\<lparr>rq_Header := hdr_Del ''Authorization'' (rq_Header r2)\<rparr> else r2);
          r4 = r3\<lparr>rq_Host := deleteHost (DeleteHeaders rc) (u_UnixSocket upstream \<noteq> []) (rq_Host r3),
                  rq_Header := applyDeleteHeaders (rq_Header r3) (DeleteHeaders rc) (DeleteHasWildcard rc)\<rparr>
      in fold (addOne (addCtx rc cfg r0 xffCopy)) (ParsedAddHeaders rc) r4)"

section \<open>From the Director to the wire\<close>

text \<open>\<^verbatim>\<open>removeHopByHopHeaders\<close> of package \<^verbatim>\<open>httputil\<close>. What the proxy puts back afterwards
  (\<open>Te\<close>, \<open>Connection\<close>, \<open>Upgrade\<close>, an empty \<open>User-Agent\<close>) is left out.\<close>

definition connectionNames :: "header \<Rightarrow> string list" where
  "connectionNames h =
     (case h ''Connection'' of
        None \<Rightarrow> []
      | Some vs \<Rightarrow> filter (\<lambda>n. n \<noteq> []) (map TrimSpace (concat (map (\<lambda>v. Split v CHR '','') vs))))"

definition hopHeaders :: "string list" where
  "hopHeaders = [''Connection'', ''Proxy-Connection'', ''Keep-Alive'', ''Proxy-Authenticate'',
     ''Proxy-Authorization'', ''Te'', ''Trailer'', ''Transfer-Encoding'', ''Upgrade'']"

definition removeHopByHop :: "header \<Rightarrow> header" where
  "removeHopByHop h = fold hdr_Del (connectionNames h @ hopHeaders) h"

text \<open>The headers that reach the upstream.\<close>

definition outgoing :: "string \<Rightarrow> RouteConfig \<Rightarrow> Config \<Rightarrow> Upstream \<Rightarrow> request \<Rightarrow> header" where
  "outgoing routePath rc cfg upstream r =
     fixXFF (proxyAppendXFF (rq_RemoteAddr r)
       (removeHopByHop (rq_Header (director routePath rc cfg upstream r))))"

section \<open>The response\<close>

definition respCtx :: "RouteConfig \<Rightarrow> request \<Rightarrow> header \<Rightarrow> string list \<Rightarrow> Config option \<Rightarrow> evalCtx" where
  "respCtx rc req originalHeaders xffCopy cfg =
     (let (clientIP, clientPort) = (if ClientAddHasVars rc then clientAddr (rq_RemoteAddr req) else ([], []))
      in \<lparr>ev_host = rq_Host req, ev_clientIP = clientIP, ev_clientPort = clientPort,
          ev_scheme = (if ClientAddHasVars rc then schemeOf req else []),
          ev_requestURI = (if ClientAddHasVars rc then rq_RequestURI req else []),
          ev_XFFcopy = xffCopy, ev_cfg = cfg, ev_original = originalHeaders\<rparr>)"

definition setOne :: "evalCtx \<Rightarrow> string \<times> parsedHeaderValue \<Rightarrow> header \<Rightarrow> header" where
  "setOne e nph h = hdr_Set (fst nph) (eval (snd nph) e) h"

definition manipulateClientHeaders ::
  "header \<Rightarrow> header \<Rightarrow> request \<Rightarrow> RouteConfig \<Rightarrow> string list \<Rightarrow> Config option \<Rightarrow> header" where
  "manipulateClientHeaders respHeaders originalHeaders req rc xffCopy cfg =
     (let h = hdr_Set ''Via'' ''RouteMUX'' respHeaders;
          h = (if ClientDelHeaders rc \<noteq> []
               then applyDeleteHeaders h (ClientDelHeaders rc) (ClientDelHasWildcard rc) else h)
      in fold (setOne (respCtx rc req originalHeaders xffCopy cfg)) (ParsedClientAddHeaders rc) h)"

text \<open>\<open>ModifyResponse\<close>: the request is the one that went out, with the context of the Director.\<close>

definition modifyResponse :: "RouteConfig \<Rightarrow> Config \<Rightarrow> request \<Rightarrow> header \<Rightarrow> header" where
  "modifyResponse rc cfg outreq respHeaders =
     (let xffCopy = (if ClientNeedsTrustedXFF rc then rq_ctxXFF outreq else []);
          originalRespHeaders = (if ClientNeedsRespHeaders rc then respHeaders else (\<lambda>_. None))
      in manipulateClientHeaders respHeaders originalRespHeaders
           (outreq\<lparr>rq_Host := rq_ctxHost outreq\<rparr>) rc xffCopy (Some cfg))"

end
