(* ===== verification/Director_Props.thy ===== *)
theory Director_Props
  imports Director
begin

text \<open>
  What the Director and the response handler guarantee: which forwarded headers an upstream sees,
  that added headers win, that the credentials of the proxy stay here, and that the flags computed
  when the configuration is loaded only skip work.
\<close>

section \<open>Headers that pass untouched\<close>

text \<open>The route neither deletes nor sets the header of that canonical name.\<close>

definition not_deleted :: "string list \<Rightarrow> bool \<Rightarrow> string \<Rightarrow> bool" where
  "not_deleted names wild n \<longleftrightarrow>
     (if wild then \<not> list_ex (\<lambda>p. matchesDelete p n) names else n \<notin> CanonicalHeaderKey ` set names)"

definition not_added :: "addHeaders \<Rightarrow> string \<Rightarrow> bool" where
  "not_added adds n \<longleftrightarrow> list_all (\<lambda>kv. CanonicalHeaderKey (fst kv) \<noteq> n) adds"

lemma applyDelete_kept: "not_deleted names wild n \<Longrightarrow> applyDeleteHeaders h names wild n = h n"
  by (auto simp: not_deleted_def applyDeleteHeaders_def fold_Del_app split: if_splits)

lemma addOne_header:
  "rq_Header (addOne e kv r) n =
     (if \<not> EqualFold (fst kv) ''host'' \<and> CanonicalHeaderKey (fst kv) = n then Some [eval (snd kv) e]
      else rq_Header r n)"
  by (auto simp: addOne_def Let_def hdr_simps)

lemma fold_addOne_kept:
  "not_added adds n \<Longrightarrow> rq_Header (fold (addOne e) adds r) n = rq_Header r n"
  by (induction adds arbitrary: r) (auto simp: not_added_def addOne_header)

lemma addOne_fields [simp]:
  "rq_URL (addOne e kv r) = rq_URL r" "rq_RemoteAddr (addOne e kv r) = rq_RemoteAddr r"
  "rq_TLS (addOne e kv r) = rq_TLS r" "rq_RequestURI (addOne e kv r) = rq_RequestURI r"
  "rq_ctxHost (addOne e kv r) = rq_ctxHost r" "rq_ctxXFF (addOne e kv r) = rq_ctxXFF r"
  by (simp_all add: addOne_def Let_def)

lemma fold_addOne_fields [simp]:
  "rq_URL (fold (addOne e) adds r) = rq_URL r"
  "rq_RemoteAddr (fold (addOne e) adds r) = rq_RemoteAddr r"
  "rq_TLS (fold (addOne e) adds r) = rq_TLS r"
  "rq_RequestURI (fold (addOne e) adds r) = rq_RequestURI r"
  "rq_ctxHost (fold (addOne e) adds r) = rq_ctxHost r"
  "rq_ctxXFF (fold (addOne e) adds r) = rq_ctxXFF r"
  by (induction adds arbitrary: r) auto

definition keeps :: "RouteConfig \<Rightarrow> string \<Rightarrow> bool" where
  "keeps rc n \<longleftrightarrow>
     not_deleted (DeleteHeaders rc) (DeleteHasWildcard rc) n \<and> not_added (ParsedAddHeaders rc) n"

lemma canonical_Authorization [simp]: "CanonicalHeaderKey ''Authorization'' = ''Authorization''"
  by code_simp

lemma director_kept:
  assumes "keeps rc n" and "n \<noteq> ''Authorization''"
  shows "rq_Header (director rp rc cfg u r) n = forwardedHeaders cfg (fst (clientAddr (rq_RemoteAddr r))) r n"
  using assms
  by (simp add: director_def Let_def fold_addOne_kept keeps_def applyDelete_kept hdr_simps)

text \<open>The client cannot have a header removed by naming it in \<open>Connection\<close>.\<close>

definition hop_kept :: "header \<Rightarrow> string \<Rightarrow> bool" where
  "hop_kept h n \<longleftrightarrow> n \<notin> CanonicalHeaderKey ` set (connectionNames h @ hopHeaders)"

lemma removeHopByHop_app:
  "removeHopByHop h n = (if hop_kept h n then h n else None)"
  by (simp add: removeHopByHop_def fold_Del_app hop_kept_def del: fold_append set_append)

lemma fixXFF_other: "n \<noteq> XFF \<Longrightarrow> fixXFF h n = h n"
  by (auto simp: fixXFF_def hdr_simps split: option.split list.split)

lemma proxyAppendXFF_other: "n \<noteq> XFF \<Longrightarrow> proxyAppendXFF a h n = h n"
  by (auto simp: proxyAppendXFF_def hdr_simps split: option.split list.split)

lemma outgoing_other:
  "n \<noteq> XFF \<Longrightarrow> outgoing rp rc cfg u r n = removeHopByHop (rq_Header (director rp rc cfg u r)) n"
  by (simp add: outgoing_def fixXFF_other proxyAppendXFF_other)

lemma outgoing_XFF:
  assumes "SplitHostPort (rq_RemoteAddr r) = Some (i, port)" and "CHR '' '' \<notin> set i"
    and "removeHopByHop (rq_Header (director rp rc cfg u r)) XFF \<in> {None, Some [v]}"
  shows "outgoing rp rc cfg u r XFF = removeHopByHop (rq_Header (director rp rc cfg u r)) XFF"
proof -
  let ?h = "removeHopByHop (rq_Header (director rp rc cfg u r))"
  have "fixXFF (proxyAppendXFF (rq_RemoteAddr r) ?h) XFF = ?h XFF"
  proof (cases "?h XFF")
    case None
    have "LastIndex i '', '' = None"
      using assms(2) by (intro LastIndex_missing[of "CHR '' ''"]) auto
    then show ?thesis
      using assms(1) None by (auto simp: fixXFF_def proxyAppendXFF_def hdr_simps)
  next
    case (Some vs)
    with assms(3) have "vs = [v]" by simp
    then show ?thesis
      using assms(1) Some LastIndex_joined[OF assms(2), of v]
      by (auto simp: fixXFF_def proxyAppendXFF_def hdr_simps)
  qed
  then show ?thesis by (simp add: outgoing_def)
qed

lemma canonical_forwarded [simp]:
  "CanonicalHeaderKey ''X-Forwarded-Host'' = ''X-Forwarded-Host''"
  "CanonicalHeaderKey ''X-Forwarded-Proto'' = ''X-Forwarded-Proto''"
  "CanonicalHeaderKey ''Via'' = ''Via''"
  by code_simp+

section \<open>Forwarded headers\<close>


definition demo_url :: URL where
  "demo_url = \<lparr>url_Scheme = ''http'', url_Host = ''backend:8080'', url_Path = ''/v1'', url_RawQuery = []\<rparr>"

definition demo_upstream :: Upstream where
  "demo_upstream = \<lparr>u_URL = ''http://backend:8080/v1'', u_Parsed = demo_url, u_Weight = 1, u_UnixSocket = []\<rparr>"

definition demo_request :: request where
  "demo_request = \<lparr>rq_Host = ''example.com'',
     rq_URL = \<lparr>url_Scheme = [], url_Host = [], url_Path = ''/api/x'', url_RawQuery = []\<rparr>,
     rq_RequestURI = ''/api/x'', rq_RemoteAddr = ''203.0.113.9:4711'', rq_TLS = True,
     rq_Header = [''X-Forwarded-For'' \<mapsto> [''6.6.6.6''], ''Authorization'' \<mapsto> [''Basic x'']],
     rq_ctxHost = [], rq_ctxXFF = []\<rparr>"

lemma demo_split: "SplitHostPort (rq_RemoteAddr demo_request) = Some (''203.0.113.9'', ''4711'')"
  by code_simp

lemma demo_hop_kept:
  "hop_kept (rq_Header (director ''/api/'' zeroRoute zeroConfig demo_upstream demo_request)) n =
   (n \<notin> CanonicalHeaderKey ` set hopHeaders)"
proof -
  have "connectionNames (rq_Header (director ''/api/'' zeroRoute zeroConfig demo_upstream demo_request)) = []"
    by code_simp
  then show ?thesis by (simp add: hop_kept_def)
qed

lemma hop_canonical: "CanonicalHeaderKey ` set hopHeaders = set hopHeaders"
  by code_simp


text \<open>Behind a trusted proxy the chain of the client is kept and extended by the connecting
  address, once.\<close>

theorem trusted_forwarded_chain:
  assumes "SplitHostPort (rq_RemoteAddr r) = Some (i, port)" and "i \<noteq> []" and "CHR '' '' \<notin> set i"
    and "trustedClient cfg i" and "rq_Header r XFF = Some prior"
    and "keeps rc XFF" and "hop_kept (rq_Header (director rp rc cfg u r)) XFF"
  shows "outgoing rp rc cfg u r XFF = Some [Join prior '', '' @ '', '' @ i]"
proof -
  have ca: "clientAddr (rq_RemoteAddr r) = (i, port)" using assms(1) by (simp add: clientAddr_def)
  let ?h = "removeHopByHop (rq_Header (director rp rc cfg u r))"
  have "?h XFF = forwardedHeaders cfg i r XFF"
    using assms(6,7) director_kept[of rc XFF rp cfg u r] ca by (simp add: removeHopByHop_app)
  then have "?h XFF = Some [Join prior '', '' @ '', '' @ i]"
    using assms(2,4,5) by (simp add: forwardedHeaders_def Let_def hdr_simps)
  then show ?thesis
    using outgoing_XFF[OF assms(1,3), of rp rc cfg u "Join prior '', '' @ '', '' @ i"] by simp
qed

lemma trusted_forwarded_chain_witness:
  "outgoing ''/api/'' zeroRoute (zeroConfig\<lparr>TrustClientHeaders := True\<rparr>) demo_upstream demo_request XFF =
     Some [''6.6.6.6, 203.0.113.9'']"
proof -
  let ?c = "zeroConfig\<lparr>TrustClientHeaders := True\<rparr>"
  have t: "trustedClient ?c ''203.0.113.9''" by (simp add: trustedClient_def)
  have k: "keeps zeroRoute XFF"
    by (simp add: keeps_def not_deleted_def not_added_def zeroRoute_def)
  have "connectionNames (rq_Header (director ''/api/'' zeroRoute ?c demo_upstream demo_request)) = []"
    by code_simp
  then have "hop_kept (rq_Header (director ''/api/'' zeroRoute ?c demo_upstream demo_request)) XFF"
    by (simp add: hop_kept_def hop_canonical) (simp add: hopHeaders_def)
  from trusted_forwarded_chain[OF demo_split _ _ t _ k this, of "[''6.6.6.6'']"] show ?thesis
    by (simp add: demo_request_def)
qed

text \<open>The headers that the \<open>Connection\<close> header of the client names are removed after the Director
  has run, so a client can have \<open>X-Forwarded-For\<close> left out of its own request.\<close>

theorem connection_header_strips_xff:
  assumes "SplitHostPort (rq_RemoteAddr r) = Some (i, port)" and "CHR '' '' \<notin> set i"
    and "rq_Header r ''Connection'' = Some [XFF]" and "keeps rc ''Connection''"
  shows "outgoing rp rc cfg u r XFF = None"
proof -
  have "CanonicalHeaderKey ''Connection'' = ''Connection''" by code_simp
  have "forwardedHeaders cfg c r ''Connection'' = rq_Header r ''Connection''" for c
    by (auto simp: forwardedHeaders_def Let_def hdr_simps split: option.split)
  then have "rq_Header (director rp rc cfg u r) ''Connection'' = Some [XFF]"
    using assms(3,4) director_kept[of rc "''Connection''" rp cfg u r] by simp
  moreover have "Split XFF CHR '','' = [XFF] \<and> TrimSpace XFF = XFF" by code_simp
  ultimately have "connectionNames (rq_Header (director rp rc cfg u r)) = [XFF]"
    by (simp add: connectionNames_def)
  then have "removeHopByHop (rq_Header (director rp rc cfg u r)) XFF = None"
    by (simp add: removeHopByHop_app hop_kept_def)
  then show ?thesis using outgoing_XFF[OF assms(1,2), of rp rc cfg u "[]"] by simp
qed

lemma connection_header_strips_xff_witness:
  "outgoing ''/api/'' zeroRoute zeroConfig demo_upstream
     (demo_request\<lparr>rq_Header := [''Connection'' \<mapsto> [XFF]]\<rparr>) XFF = None"
proof (rule connection_header_strips_xff)
  show "SplitHostPort (rq_RemoteAddr (demo_request\<lparr>rq_Header := [''Connection'' \<mapsto> [XFF]]\<rparr>)) =
      Some (''203.0.113.9'', ''4711'')"
    using demo_split by simp
  show "keeps zeroRoute ''Connection''"
    by (simp add: keeps_def not_deleted_def not_added_def zeroRoute_def)
qed simp_all

section \<open>Credentials, added headers, paths\<close>

lemma fold_addOne_cong:
  "rq_Header s = rq_Header s' \<Longrightarrow>
   rq_Header (fold (addOne e) adds s) n = rq_Header (fold (addOne e) adds s') n"
proof (induction adds arbitrary: s s')
  case (Cons kv adds)
  have "rq_Header (addOne e kv s) = rq_Header (addOne e kv s')"
    using Cons.prems by (simp add: addOne_def Let_def)
  from Cons.IH[OF this] show ?case by simp
qed simp

lemma director_app:
  "rq_Header (director rp rc cfg u r) n =
     rq_Header (fold (addOne (addCtx rc cfg r (xffCopyOf rc (forwardedHeaders cfg (fst (clientAddr (rq_RemoteAddr r))) r))))
        (ParsedAddHeaders rc)
        (r\<lparr>rq_Header := applyDeleteHeaders
             (if effectiveAuth rc cfg \<noteq> None
              then hdr_Del ''Authorization'' (forwardedHeaders cfg (fst (clientAddr (rq_RemoteAddr r))) r)
              else forwardedHeaders cfg (fst (clientAddr (rq_RemoteAddr r))) r)
             (DeleteHeaders rc) (DeleteHasWildcard rc)\<rparr>)) n"
  unfolding director_def Let_def
  by (rule trans, rule fold_addOne_cong[where s' = "r\<lparr>rq_Header := applyDeleteHeaders
             (if effectiveAuth rc cfg \<noteq> None
              then hdr_Del ''Authorization'' (forwardedHeaders cfg (fst (clientAddr (rq_RemoteAddr r))) r)
              else forwardedHeaders cfg (fst (clientAddr (rq_RemoteAddr r))) r)
             (DeleteHeaders rc) (DeleteHasWildcard rc)\<rparr>"]) simp_all

lemma applyDelete_None: "h n = None \<Longrightarrow> applyDeleteHeaders h names wild n = None"
  by (auto simp: applyDeleteHeaders_def fold_Del_app)

text \<open>C23. When the route is behind basic authentication, the credentials never reach the upstream,
  unless the configuration adds an \<open>Authorization\<close> header itself.\<close>

theorem credentials_not_forwarded:
  assumes "effectiveAuth rc cfg \<noteq> None" and "not_added (ParsedAddHeaders rc) ''Authorization''"
  shows "outgoing rp rc cfg u r ''Authorization'' = None"
proof -
  have "rq_Header (director rp rc cfg u r) ''Authorization'' = None"
    using assms by (simp add: director_app fold_addOne_kept applyDelete_None hdr_simps)
  then show ?thesis by (simp add: outgoing_other removeHopByHop_app)
qed

lemma credentials_not_forwarded_witness:
  "outgoing ''/api/'' zeroRoute (zeroConfig\<lparr>GlobalAuth := Some \<lparr>auth_User = ''u'', auth_Password = ''p''\<rparr>\<rparr>)
     demo_upstream demo_request ''Authorization'' = None"
  by (rule credentials_not_forwarded)
     (simp_all add: effectiveAuth_def zeroRoute_def zeroConfig_def not_added_def)

text \<open>Later entries of the range do not touch a header whose canonical name is another.\<close>

lemma fold_addOne_set:
  assumes "(k, ph) \<in> set adds" and "distinct (map (CanonicalHeaderKey \<circ> fst) adds)"
    and "\<not> EqualFold k ''host''"
  shows "rq_Header (fold (addOne e) adds r) (CanonicalHeaderKey k) = Some [eval ph e]"
  using assms(1,2)
proof (induction adds arbitrary: r)
  case (Cons kv adds)
  show ?case
  proof (cases "kv = (k, ph)")
    case True
    with Cons.prems have "not_added adds (CanonicalHeaderKey k)"
      by (auto simp: not_added_def list_all_iff image_iff)
    with True assms(3) show ?thesis by (simp add: fold_addOne_kept addOne_header)
  next
    case False
    with Cons show ?thesis by auto
  qed
qed simp

text \<open>An added header always wins: the upstream sees the value of \<open>dest-add-header\<close>, whatever the
  client sent and whatever the delete list says, and in whatever order the map is ranged over.\<close>

theorem added_header_wins:
  assumes "(k, ph) \<in> set (ParsedAddHeaders rc)" and "\<not> EqualFold k ''host''"
    and "distinct (map (CanonicalHeaderKey \<circ> fst) (ParsedAddHeaders rc))"
    and "CanonicalHeaderKey k \<noteq> XFF" and "hop_kept (rq_Header (director rp rc cfg u r)) (CanonicalHeaderKey k)"
  shows "outgoing rp rc cfg u r (CanonicalHeaderKey k) =
    Some [eval ph (addCtx rc cfg r (xffCopyOf rc (forwardedHeaders cfg (fst (clientAddr (rq_RemoteAddr r))) r)))]"
  using assms(4,5) fold_addOne_set[OF assms(1,3,2)]
  by (simp add: outgoing_other removeHopByHop_app) (simp add: director_app)

definition demo_add_route :: RouteConfig where
  "demo_add_route = zeroRoute\<lparr>ParsedAddHeaders := [(''x-env'', compileHeaderValue ''prod'')],
     DeleteHeaders := [''x-env'']\<rparr>"

lemma added_header_wins_witness:
  "outgoing ''/api/'' demo_add_route zeroConfig demo_upstream demo_request ''X-Env'' = Some [''prod'']"
proof -
  let ?e = "addCtx demo_add_route zeroConfig demo_request (xffCopyOf demo_add_route
     (forwardedHeaders zeroConfig (fst (clientAddr (rq_RemoteAddr demo_request))) demo_request))"
  have c: "CanonicalHeaderKey ''x-env'' = ''X-Env''" by code_simp
  have "connectionNames (rq_Header (director ''/api/'' demo_add_route zeroConfig demo_upstream demo_request)) = []"
    by code_simp
  then have "hop_kept (rq_Header (director ''/api/'' demo_add_route zeroConfig demo_upstream demo_request))
      (CanonicalHeaderKey ''x-env'')"
    by (simp add: c hop_kept_def hop_canonical) (simp add: hopHeaders_def)
  moreover have "\<not> EqualFold ''x-env'' ''host''" by code_simp
  moreover have "eval (compileHeaderValue ''prod'') ?e = ''prod''"
    by (simp add: eval_expand expand_no_marker)
  ultimately show ?thesis
    using added_header_wins[of "''x-env''" "compileHeaderValue ''prod''" demo_add_route] c
    by (simp add: demo_add_route_def)
qed

text \<open>The request path of a subtree route is the path of the upstream followed by the rest behind
  the route prefix, with one slash between them.\<close>

theorem rewrite_path:
  assumes "url_Path u = routePath @ rest"
  shows "url_Path (rewriteURL routePath dest u) =
    (if HasSuffix (url_Path dest) ''/'' \<or> rest = [] then url_Path dest @ rest
     else url_Path dest @ ''/'' @ rest)"
  using assms by (auto simp: rewriteURL_def Let_def TrimPrefix_def HasPrefix_def)

lemma rewrite_path_witness:
  "url_Path (rewriteURL ''/api/'' demo_url (rq_URL demo_request)) = ''/v1/x''"
proof -
  have "url_Path (rq_URL demo_request) = ''/api/'' @ ''x''" by (simp add: demo_request_def)
  moreover have "\<not> HasSuffix (url_Path demo_url) ''/''" by code_simp
  ultimately show ?thesis
    using rewrite_path[of "rq_URL demo_request" "''/api/''" "''x''" demo_url] by (simp add: demo_url_def)
qed

section \<open>The flags only skip work\<close>

lemma eval_cong_segments:
  assumes "\<And>s. s \<in> set (segments (compileHeaderValue raw)) \<Longrightarrow> evalSegment e s = evalSegment e' s"
  shows "eval (compileHeaderValue raw) e = eval (compileHeaderValue raw) e'"
proof -
  have "map (evalSegment e) (segments (compileHeaderValue raw)) =
        map (evalSegment e') (segments (compileHeaderValue raw))"
    using assms by simp
  then show ?thesis unfolding eval_evalAll evalAll_def by (rule arg_cong)
qed

text \<open>Two contexts that differ only in what the flags say is not used.\<close>

definition ctx_agree :: "bool \<Rightarrow> bool \<Rightarrow> bool \<Rightarrow> evalCtx \<Rightarrow> evalCtx \<Rightarrow> bool" where
  "ctx_agree vars orig xff e e' \<longleftrightarrow>
     ev_cfg e = ev_cfg e' \<and>
     (vars \<longrightarrow> ev_host e = ev_host e' \<and> ev_clientIP e = ev_clientIP e' \<and>
        ev_clientPort e = ev_clientPort e' \<and> ev_scheme e = ev_scheme e' \<and> ev_requestURI e = ev_requestURI e') \<and>
     (orig \<longrightarrow> ev_original e = ev_original e') \<and> (xff \<longrightarrow> ev_XFFcopy e = ev_XFFcopy e')"

lemma eval_flags:
  assumes "(k, compileHeaderValue raw) \<in> set hs"
    and "ctx_agree (hasNonConstHeader hs) (hasHeaderNameVar hs) (hasTrustedXFFVar hs) e e'"
  shows "eval (compileHeaderValue raw) e = eval (compileHeaderValue raw) e'"
proof (cases "isConst (compileHeaderValue raw)")
  case True
  then show ?thesis by (simp add: eval_def)
next
  case False
  with assms(1) have "hasNonConstHeader hs" by (auto simp: hasNonConstHeader_def list_ex_iff)
  with assms have vars: "ev_host e = ev_host e'" "ev_clientIP e = ev_clientIP e'"
    "ev_clientPort e = ev_clientPort e'" "ev_scheme e = ev_scheme e'"
    "ev_requestURI e = ev_requestURI e'" "ev_cfg e = ev_cfg e'"
    by (simp_all add: ctx_agree_def)
  show ?thesis
  proof (rule eval_cong_segments)
    fix s assume s: "s \<in> set (segments (compileHeaderValue raw))"
    have "ev_original e = ev_original e'" if "seg_kind s = SegHeaderName"
    proof -
      have "hasHeaderNameVar hs"
        using assms(1) s that by (auto simp: hasHeaderNameVar_def list_ex_iff)
      with assms(2) show ?thesis by (simp add: ctx_agree_def)
    qed
    moreover have "ev_XFFcopy e = ev_XFFcopy e'" if "seg_kind s = SegTrustedXFF"
    proof -
      have "hasTrustedXFFVar hs"
        using assms(1) s that by (auto simp: hasTrustedXFFVar_def list_ex_iff)
      with assms(2) show ?thesis by (simp add: ctx_agree_def)
    qed
    ultimately show "evalSegment e s = evalSegment e' s"
      using vars by (auto simp: evalSegment_def split: segKind.split)
  qed
qed

text \<open>The flags of a route as the loader of the configuration file computes them, and the route with
  every flag raised.\<close>

definition flags_ok :: "RouteConfig \<Rightarrow> bool" where
  "flags_ok rc \<longleftrightarrow>
     AddHasVars rc = hasNonConstHeader (ParsedAddHeaders rc) \<and>
     NeedsOriginal rc = hasHeaderNameVar (ParsedAddHeaders rc) \<and>
     ClientAddHasVars rc = hasNonConstHeader (ParsedClientAddHeaders rc) \<and>
     ClientNeedsRespHeaders rc = hasHeaderNameVar (ParsedClientAddHeaders rc) \<and>
     ClientNeedsTrustedXFF rc = hasTrustedXFFVar (ParsedClientAddHeaders rc) \<and>
     NeedsTrustedXFF rc = (hasTrustedXFFVar (ParsedAddHeaders rc) \<or> ClientNeedsTrustedXFF rc)"

definition all_flags :: "RouteConfig \<Rightarrow> RouteConfig" where
  "all_flags rc = rc\<lparr>AddHasVars := True, NeedsOriginal := True, ClientAddHasVars := True,
     ClientNeedsRespHeaders := True, ClientNeedsTrustedXFF := True, NeedsTrustedXFF := True\<rparr>"

lemma all_flags_sel [simp]:
  "ParsedAddHeaders (all_flags rc) = ParsedAddHeaders rc"
  "ParsedClientAddHeaders (all_flags rc) = ParsedClientAddHeaders rc"
  "DeleteHeaders (all_flags rc) = DeleteHeaders rc" "DeleteHasWildcard (all_flags rc) = DeleteHasWildcard rc"
  "ClientDelHeaders (all_flags rc) = ClientDelHeaders rc"
  "ClientDelHasWildcard (all_flags rc) = ClientDelHasWildcard rc"
  "effectiveAuth (all_flags rc) cfg = effectiveAuth rc cfg"
  "AddHasVars (all_flags rc)" "NeedsOriginal (all_flags rc)" "ClientAddHasVars (all_flags rc)"
  "ClientNeedsRespHeaders (all_flags rc)" "ClientNeedsTrustedXFF (all_flags rc)" "NeedsTrustedXFF (all_flags rc)"
  by (simp_all add: all_flags_def effectiveAuth_def)

lemma compiled_mem: "(k, ph) \<in> set (compiledHeaders raw) \<Longrightarrow> \<exists>v. ph = compileHeaderValue v"
  by (auto simp: compiledHeaders_def)

lemma eval_compiled_flags:
  assumes "(k, ph) \<in> set (compiledHeaders raw)"
    and "ctx_agree (hasNonConstHeader (compiledHeaders raw)) (hasHeaderNameVar (compiledHeaders raw))
           (hasTrustedXFFVar (compiledHeaders raw)) e e'"
  shows "eval ph e = eval ph e'"
proof -
  obtain v where v: "ph = compileHeaderValue v" using compiled_mem[OF assms(1)] by blast
  show ?thesis using eval_flags[OF assms(1)[unfolded v] assms(2)] by (simp add: v)
qed

lemma fold_addOne_agree:
  assumes "\<And>k ph. (k, ph) \<in> set adds \<Longrightarrow> eval ph e = eval ph e'"
    and "rq_Header s = rq_Header s'" and "rq_Host s = rq_Host s'"
  shows "rq_Header (fold (addOne e) adds s) = rq_Header (fold (addOne e') adds s') \<and>
         rq_Host (fold (addOne e) adds s) = rq_Host (fold (addOne e') adds s')"
  using assms
proof (induction adds arbitrary: s s')
  case (Cons kv adds)
  obtain k ph where kv: "kv = (k, ph)" by fastforce
  have "eval ph e = eval ph e'" using Cons.prems(1) kv by auto
  then have step: "rq_Header (addOne e kv s) = rq_Header (addOne e' kv s')"
    "rq_Host (addOne e kv s) = rq_Host (addOne e' kv s')"
    using Cons.prems(2,3) by (simp_all add: addOne_def Let_def kv)
  have "\<And>k ph. (k, ph) \<in> set adds \<Longrightarrow> eval ph e = eval ph e'"
    using Cons.prems(1) by (meson list.set_intros(2))
  from Cons.IH[OF this step] show ?case unfolding fold_Cons o_apply .
qed simp

lemma fold_setOne_agree:
  assumes "\<And>k ph. (k, ph) \<in> set adds \<Longrightarrow> eval ph e = eval ph e'"
  shows "fold (setOne e) adds h = fold (setOne e') adds h"
  using assms
proof (induction adds arbitrary: h)
  case (Cons kv adds)
  have "setOne e kv h = setOne e' kv h" using Cons.prems[of "fst kv" "snd kv"] by (simp add: setOne_def)
  moreover have "\<And>k ph. (k, ph) \<in> set adds \<Longrightarrow> eval ph e = eval ph e'"
    using Cons.prems by (meson list.set_intros(2))
  from Cons.IH[OF this] have "fold (setOne e) adds (setOne e' kv h) = fold (setOne e') adds (setOne e' kv h)" .
  ultimately show ?case by (simp only: fold_Cons o_apply)
qed simp

text \<open>C34. The flags of a route only skip work: with them all raised, so that every value and every
  snapshot is computed for every request, the request and the response come out the same.\<close>

theorem flags_only_skip:
  assumes "flags_ok rc" and "ParsedAddHeaders rc = compiledHeaders raw"
    and "ParsedClientAddHeaders rc = compiledHeaders craw"
    and out_def: "out = director rp rc cfg u r" and out'_def: "out' = director rp (all_flags rc) cfg u r"
  shows "rq_Header out = rq_Header out' \<and> rq_Host out = rq_Host out' \<and>
    modifyResponse rc cfg out resp = modifyResponse (all_flags rc) cfg out' resp"
proof -
  let ?xff = "\<lambda>rc. xffCopyOf rc (forwardedHeaders cfg (fst (clientAddr (rq_RemoteAddr r))) r)"
  have agree: "ctx_agree (hasNonConstHeader (compiledHeaders raw)) (hasHeaderNameVar (compiledHeaders raw))
      (hasTrustedXFFVar (compiledHeaders raw)) (addCtx rc cfg r (?xff rc)) (addCtx (all_flags rc) cfg r (?xff (all_flags rc)))"
    using assms(1,2) by (auto simp: ctx_agree_def addCtx_def flags_ok_def xffCopyOf_def split: prod.split)
  have "rq_Header out = rq_Header out' \<and> rq_Host out = rq_Host out'"
    unfolding out_def out'_def director_def Let_def all_flags_sel assms(2)
    by (rule fold_addOne_agree, rule eval_compiled_flags, assumption) (use agree in simp_all)
  moreover have "modifyResponse rc cfg out resp = modifyResponse (all_flags rc) cfg out' resp"
  proof -
    have fields: "rq_ctxHost out = rq_ctxHost out'" "rq_RemoteAddr out = rq_RemoteAddr out'"
      "rq_TLS out = rq_TLS out'" "rq_RequestURI out = rq_RequestURI out'"
      by (simp_all add: out_def out'_def director_def Let_def)
    have ctx: "rq_ctxXFF out = rq_ctxXFF out'" if "ClientNeedsTrustedXFF rc"
      using assms(1) that by (simp add: out_def out'_def director_def Let_def flags_ok_def xffCopyOf_def)
    have "ctx_agree (hasNonConstHeader (compiledHeaders craw)) (hasHeaderNameVar (compiledHeaders craw))
      (hasTrustedXFFVar (compiledHeaders craw))
      (respCtx rc (out\<lparr>rq_Host := rq_ctxHost out\<rparr>)
         (if ClientNeedsRespHeaders rc then resp else (\<lambda>_. None))
         (if ClientNeedsTrustedXFF rc then rq_ctxXFF out else []) (Some cfg))
      (respCtx (all_flags rc) (out'\<lparr>rq_Host := rq_ctxHost out'\<rparr>) resp (rq_ctxXFF out') (Some cfg))"
      using assms(1,3) ctx fields
      by (auto simp: ctx_agree_def respCtx_def flags_ok_def schemeOf_def Let_def split: prod.split)
    from fold_setOne_agree[OF eval_compiled_flags[OF _ this]] show ?thesis
      by (simp add: modifyResponse_def manipulateClientHeaders_def Let_def assms(3))
  qed
  ultimately show ?thesis by blast
qed

lemma flags_only_skip_witness:
  "rq_Header (director ''/api/'' demo_add_route zeroConfig demo_upstream demo_request) =
   rq_Header (director ''/api/'' (all_flags demo_add_route) zeroConfig demo_upstream demo_request)"
proof -
  have "hasNonConstHeader (ParsedAddHeaders demo_add_route) = False \<and>
      hasHeaderNameVar (ParsedAddHeaders demo_add_route) = False \<and>
      hasTrustedXFFVar (ParsedAddHeaders demo_add_route) = False"
    by code_simp
  then have "flags_ok demo_add_route"
    by (simp add: flags_ok_def) (simp add: demo_add_route_def zeroRoute_def hasNonConstHeader_def
        hasHeaderNameVar_def hasTrustedXFFVar_def)
  moreover have "ParsedAddHeaders demo_add_route = compiledHeaders [(''x-env'', ''prod'')]"
    "ParsedClientAddHeaders demo_add_route = compiledHeaders []"
    by (simp_all add: demo_add_route_def compiledHeaders_def zeroRoute_def)
  ultimately show ?thesis using flags_only_skip[OF _ _ _ refl refl] by blast
qed

end
