(* ===== verification/Cidr_Text.thy ===== *)
theory Cidr_Text
  imports Cidr_List
begin

text \<open>
  The text form of networks in files: the lines that the scanner yields, and the round trip of the
  cache file, which \<^verbatim>\<open>writeCacheFile\<close> prints and \<^verbatim>\<open>loadSource\<close> reads back.
\<close>

section \<open>Lines\<close>

lemma takeWhile_upto: "c \<notin> set l \<Longrightarrow> takeWhile (\<lambda>x. x \<noteq> c) (l @ c # r) = l"
  by (induction l) auto

lemma dropWhile_upto: "c \<notin> set l \<Longrightarrow> dropWhile (\<lambda>x. x \<noteq> c) (l @ c # r) = c # r"
  by (induction l) auto

lemma scan_lines_Nil [simp]: "scan_lines [] = ([], False)"
  by (simp add: scan_lines.simps)

lemma scan_lines_line:
  assumes "CHR 0x0A \<notin> set l" and "length l < 65536"
  shows "scan_lines (l @ CHR 0x0A # r) = (case scan_lines r of (ls, bad) \<Rightarrow> (dropCR l # ls, bad))"
proof -
  have "\<not> 65536 \<le> int (length l)" using assms(2) by linarith
  then show ?thesis
    using assms(1)
    by (subst scan_lines.simps) (simp add: Let_def takeWhile_upto dropWhile_upto)
qed

definition plain_line :: "string \<Rightarrow> bool" where
  "plain_line l \<longleftrightarrow> CHR 0x0A \<notin> set l \<and> CHR 0x0D \<notin> set l \<and> length l < 65536"

lemma dropCR_plain: "CHR 0x0D \<notin> set l \<Longrightarrow> dropCR l = l"
  by (auto simp: dropCR_def) (metis last_in_set)

text \<open>Text made of short lines is read back as these lines.\<close>

lemma scan_lines_concat:
  "list_all plain_line ls \<Longrightarrow> scan_lines (concat (map (\<lambda>l. l @ [CHR 0x0A]) ls)) = (ls, False)"
  by (induction ls) (auto simp: plain_line_def scan_lines_line dropCR_plain)

section \<open>Decimal numbers\<close>

lemma digit_char:
  assumes "0 \<le> d" and "d < (10 :: int)"
  shows "is_digit (char_of (48 + d))" and "digit_val (char_of (48 + d)) = d"
proof -
  have "d \<in> {0, 1, 2, 3, 4, 5, 6, 7, 8, 9}"
    using assms by (simp only: insert_iff empty_iff simp_thms) presburger
  moreover have "\<forall>d \<in> {0, 1, 2, 3, 4, 5, 6, 7, 8, 9}.
      is_digit (char_of (48 + d :: int)) \<and> digit_val (char_of (48 + d :: int)) = d"
    by code_simp
  ultimately show "is_digit (char_of (48 + d))" "digit_val (char_of (48 + d)) = d"
    by blast+
qed

lemma digits_val_append: "digits_val a (s @ t) = digits_val (digits_val a s) t"
  by (induction s arbitrary: a) auto

lemma digits_val_decimal: "0 \<le> n \<Longrightarrow> digits_val 0 (decimal_of n) = n"
proof (induction n rule: decimal_of.induct)
  case (1 n)
  then show ?case
    using digit_char[of n] digit_char[of "n mod 10"]
    by (subst decimal_of.simps) (auto simp: digits_val_append)
qed

lemma dtoi_snoc:
  "dtoi v (s @ [c]) =
     (case dtoi v s of None \<Rightarrow> None
      | Some w \<Rightarrow> if is_digit c \<and> w * 10 + digit_val c < 16777215
                  then Some (w * 10 + digit_val c) else None)"
  by (induction v s rule: dtoi.induct) (auto simp: Let_def)

lemma decimal_of_digits: "0 \<le> n \<Longrightarrow> list_all is_digit (decimal_of n) \<and> decimal_of n \<noteq> []"
proof (induction n rule: decimal_of.induct)
  case (1 n)
  then show ?case
    by (subst (1 2) decimal_of.simps) (auto simp: digit_char)
qed

lemma dtoi_decimal_of:
  "0 \<le> n \<Longrightarrow> n < 16777215 \<Longrightarrow> dtoi 0 (decimal_of n) = Some n"
proof (induction n rule: decimal_of.induct)
  case (1 n)
  show ?case
  proof (cases "n < 10")
    case True
    then show ?thesis
      using 1 digit_char[of n] by (simp add: decimal_of.simps Let_def)
  next
    case False
    then have "dtoi 0 (decimal_of (n div 10)) = Some (n div 10)" using 1 by simp
    moreover have "n div 10 * 10 + n mod 10 = n" by simp
    ultimately show ?thesis
      using False 1(3) digit_char[of "n mod 10"]
      by (subst decimal_of.simps) (simp add: dtoi_snoc)
  qed
qed

section \<open>Dotted decimal\<close>

lemma v4_fields_digit:
  assumes "0 \<le> d" and "d < 10" and "v * 10 + d \<le> 255" and "k \<noteq> 1 \<or> v \<noteq> 0"
  shows "v4_fields p v k fs (char_of (48 + d) # r) =
         v4_fields (Some (char_of (48 + d))) (v * 10 + d) (Suc k) fs r"
  using assms by (auto simp: digit_char)

text \<open>The loop reads the digits of a byte as its value, whatever follows.\<close>

lemma v4_fields_byte:
  assumes "0 \<le> n" and "n < 256"
  obtains q k where "is_digit q"
    "\<And>p fs r. v4_fields p 0 0 fs (decimal_of n @ r) = v4_fields (Some q) n (Suc k) fs r"
proof -
  let ?c = "\<lambda>d. char_of (48 + d :: int)"
  have last_digit: "is_digit (?c (n mod 10))" by (rule digit_char) simp_all
  consider "n < 10" | "10 \<le> n" "n < 100" | "100 \<le> n" by linarith
  then show thesis
  proof cases
    case 1
    then have "decimal_of n = [?c n]" by (simp add: decimal_of.simps)
    with 1 assms that[of "?c n" 0] digit_char[of n] show thesis
      using v4_fields_digit[of n 0 0] by simp
  next
    case 2
    then have d: "decimal_of n = [?c (n div 10), ?c (n mod 10)]"
      by (simp add: decimal_of.simps[of n] decimal_of.simps[of "n div 10"])
    have "v4_fields p 0 0 fs (decimal_of n @ r) = v4_fields (Some (?c (n mod 10))) n (Suc 1) fs r" for p fs r
      using 2 v4_fields_digit[of "n div 10" 0 0 p fs] v4_fields_digit[of "n mod 10" "n div 10" 1]
      by (simp add: d)
    with that last_digit show thesis by blast
  next
    case 3
    have dd: "n div 10 div 10 = n div 100" by (simp add: zdiv_zmult2_eq[symmetric])
    have r: "n div 100 < 10" "\<not> n div 10 < 10" "\<not> n < 10" using 3 assms by linarith+
    with dd have d: "decimal_of n = [?c (n div 100), ?c (n div 10 mod 10), ?c (n mod 10)]"
      by (simp add: decimal_of.simps[of n] decimal_of.simps[of "n div 10"] decimal_of.simps[of "n div 100"])
    have s2: "n div 100 * 10 + n div 10 mod 10 = n div 10" by (simp flip: dd)
    have "v4_fields p 0 0 fs (decimal_of n @ r) = v4_fields (Some (?c (n mod 10))) n (Suc 2) fs r" for p fs r
      using 3 assms s2 v4_fields_digit[of "n div 100" 0 0 p fs]
        v4_fields_digit[of "n div 10 mod 10" "n div 100" 1]
        v4_fields_digit[of "n mod 10" "n div 10" 2]
      by (simp add: d numeral_2_eq_2)
    with that last_digit show thesis by blast
  qed
qed

lemma digit_not_dot: "is_digit q \<Longrightarrow> q \<noteq> CHR ''.''"
  by (auto simp: is_digit_def)

lemma v4_fields_octet:
  assumes "length fs < 3" and "r \<noteq> []"
  shows "v4_fields p 0 0 fs (decimal_of (uint (b :: byte)) @ CHR ''.'' # r) =
         v4_fields (Some CHR ''.'') 0 0 (fs @ [uint b]) r"
proof -
  have "uint b < 256" using uint_lt2p[of b] by simp
  then obtain q k where q: "is_digit q" and
    e: "\<And>p fs r. v4_fields p 0 0 fs (decimal_of (uint b) @ r) = v4_fields (Some q) (uint b) (Suc k) fs r"
    using v4_fields_byte[of "uint b"] by auto
  have "\<not> is_digit CHR ''.''" by code_simp
  with q assms digit_not_dot[OF q] show ?thesis by (simp add: e)
qed

lemma v4_fields_last:
  assumes "length fs = 3"
  shows "v4_fields p 0 0 fs (decimal_of (uint (b :: byte))) = Some (fs @ [uint b])"
proof -
  have "uint b < 256" using uint_lt2p[of b] by simp
  then obtain q k where "is_digit q" and
    e: "\<And>p fs r. v4_fields p 0 0 fs (decimal_of (uint b) @ r) = v4_fields (Some q) (uint b) (Suc k) fs r"
    using v4_fields_byte[of "uint b"] by auto
  from e[of p fs "[]"] assms show ?thesis by simp
qed

lemma length_4_conv: "length xs = 4 \<longleftrightarrow> (\<exists>a b c d. xs = [a, b, c, d])"
  by (auto simp: eval_nat_numeral length_Suc_conv)

lemma parseIPv4_dotted: "length j = 4 \<Longrightarrow> parseIPv4 (dotted j) = Some (map uint j)"
  using decimal_of_digits
  by (auto simp: length_4_conv parseIPv4_def dotted_def v4_fields_octet v4_fields_last)

section \<open>The cache file\<close>

lemma count_high_mask: "n < 8 \<Longrightarrow> length (filter (\<lambda>b. b) (byte_bits (NOT (drop_bit n 255)))) = n"
proof -
  assume "n < 8"
  then have "n \<in> {0, 1, 2, 3, 4, 5, 6, 7}" by auto
  moreover have "byte_bits (NOT (drop_bit n 255)) = map (\<lambda>k. k < 8 \<and> 8 \<le> n + k) [7, 6, 5, 4, 3, 2, 1, 0]"
    by (simp only: byte_bits_def bit_high_mask list.map)
  ultimately show ?thesis by auto
qed

lemma count_255: "length (filter (\<lambda>b. b) (byte_bits 255)) = 8"
  by (simp only: byte_bits_def bit_255 list.map) simp

lemma mask_ones_mask_bytes: "n \<le> 8 * l \<Longrightarrow> mask_ones (mask_bytes l n) = int n"
proof (induction l n rule: mask_bytes.induct)
  case (2 l n)
  then show ?case
    by (cases "8 \<le> n") (auto simp: mask_ones_def ip_bits_Cons count_high_mask count_255)
qed (simp add: mask_ones_def)

lemma networkNumber_v4:
  "length j = 4 \<Longrightarrow> networkNumberAndMask (prefix_net 32 (v4InV6Prefix @ j) n) =
     Some (and_bytes j (mask_bytes 4 n), mask_bytes 4 n)"
  by (simp add: networkNumberAndMask_def prefix_net_def Let_def)

lemma net_String_v4:
  assumes "length j = 4" and "n \<le> 32"
  shows "net_String (prefix_net 32 (v4InV6Prefix @ j) n) =
         dotted (and_bytes j (mask_bytes 4 n)) @ CHR ''/'' # decimal_of (int n)"
  using assms
  by (simp add: net_String_def networkNumber_v4 ip_String_def mask_ones_mask_bytes)

definition plain_char :: "char \<Rightarrow> bool" where
  "plain_char c \<longleftrightarrow> is_digit c \<or> c = CHR ''.''"

lemma decimal_plain: "0 \<le> n \<Longrightarrow> c \<in> set (decimal_of n) \<Longrightarrow> plain_char c"
  using decimal_of_digits[of n] by (auto simp: plain_char_def list_all_iff)

lemma dotted_plain: "c \<in> set (dotted j) \<Longrightarrow> plain_char c"
proof (induction j)
  case (Cons b j)
  then show ?case
    by (cases j) (auto simp: dotted_def Join_Cons plain_char_def dest: decimal_plain[rotated, unfolded plain_char_def])
qed (simp add: dotted_def)

lemma plain_char_not:
  "\<not> plain_char CHR ''/''" "\<not> plain_char CHR ''#''" "\<not> plain_char CHR 0x0A" "\<not> plain_char CHR 0x0D"
  "\<not> plain_char CHR '':''" "\<not> plain_char CHR ''%''"
  by code_simp+

lemma plain_not_space: "plain_char c \<Longrightarrow> \<not> is_space c"
  by (auto simp: plain_char_def is_digit_def is_space_def Let_def)

lemma addr_kind_dotted: "list_all plain_char s \<Longrightarrow> CHR ''.'' \<in> set s \<Longrightarrow> addr_kind s = Some CHR ''.''"
  by (induction s) (auto simp: plain_char_not)

lemma ParseAddr_dotted:
  assumes "length j = 4"
  shows "ParseAddr (dotted j) = Some (32, v4InV6Prefix @ j)"
proof -
  have "CHR ''.'' \<in> set (dotted j)"
    using assms by (auto simp: length_4_conv dotted_def)
  moreover have "list_all plain_char (dotted j)"
    using dotted_plain by (auto simp: list_all_iff)
  ultimately show ?thesis
    using assms by (simp add: ParseAddr_def addr_kind_dotted parseIPv4_dotted comp_def)
qed

lemma length_decimal_of: "n < 10 ^ k \<Longrightarrow> 0 < k \<Longrightarrow> length (decimal_of n) \<le> k"
proof (induction n arbitrary: k rule: decimal_of.induct)
  case (1 n)
  show ?case
  proof (cases "n < 10")
    case True
    with 1 show ?thesis by (subst decimal_of.simps) simp
  next
    case False
    then obtain k' where k: "k = Suc k'" "0 < k'"
      using 1(2,3) by (cases k; cases "k - 1") auto
    then have "n div 10 < 10 ^ k'" using 1(2) by simp
    with 1(1)[OF False this k(2)] False k show ?thesis
      by (subst decimal_of.simps) simp
  qed
qed

lemma length_dotted: "length (dotted j) \<le> 4 * length j"
proof (induction j)
  case (Cons b j)
  have "length (decimal_of (uint b)) \<le> 3"
    using uint_lt2p[of b] by (intro length_decimal_of) auto
  with Cons show ?case by (cases j) (auto simp: dotted_def Join_Cons)
qed (simp add: dotted_def)

text \<open>A line of the cache is read back as the network it was printed from.\<close>

lemma and_bytes_mask_idem:
  "length j = 4 \<Longrightarrow> prefix_net 32 (v4InV6Prefix @ and_bytes j (mask_bytes 4 n)) n =
     prefix_net 32 (v4InV6Prefix @ j) n"
  by (simp add: prefix_net_def Let_def and_bytes_idem)

lemma cache_line_v4:
  assumes "length j = 4" and "n \<le> 32"
  defines "net \<equiv> prefix_net 32 (v4InV6Prefix @ j) n"
  shows "lineNet (net_String net) = Some net" and "plain_line (net_String net)"
proof -
  let ?a = "dotted (and_bytes j (mask_bytes 4 n))" and ?m = "decimal_of (int n)"
  have s: "net_String net = ?a @ CHR ''/'' # ?m"
    using assms by (simp add: net_String_v4)
  have slash: "CHR ''/'' \<in> set (net_String (prefix_net 32 (v4InV6Prefix @ j) n))"
    using s by (simp add: net_def)
  have plain: "c \<in> set (net_String net) \<Longrightarrow> plain_char c \<or> c = CHR ''/''" for c
    using dotted_plain decimal_plain[of "int n"] by (auto simp: s)
  have "c \<in> set (net_String net) \<Longrightarrow> \<not> is_space c" for c
  proof -
    have "\<not> is_space CHR ''/''" by code_simp
    then show "c \<in> set (net_String net) \<Longrightarrow> \<not> is_space c"
      using plain plain_not_space by blast
  qed
  then have trim: "TrimSpace (net_String net) = net_String net"
    by (simp add: TrimSpace_no_space)
  have hash: "\<not> HasPrefix (net_String net) ''#''"
    using plain[of "CHR ''#''"] plain_char_not(2) by (auto simp: HasPrefix_def prefix_one)
  have "ParseCIDR (net_String net) = Some (prefix_net 32 (v4InV6Prefix @ and_bytes j (mask_bytes 4 n)) n)"
    unfolding s
    using assms(1,2) decimal_of_digits[of "int n"] dotted_plain plain_char_not(1)
    by (subst ParseCIDR_slash[where b = 32 and k = "int n"])
       (auto simp: ParseAddr_dotted dtoi_decimal_of)
  then have "parseNet (net_String net) = Some net"
    using assms(1) and_bytes_mask_idem[OF assms(1), of n]
    by (simp add: parseNet_def cidrString_def Contains_byte_iff slash net_def)
  with trim hash s show "lineNet (net_String net) = Some net"
    by (simp add: lineNet_def Let_def)
  have "length ?m \<le> 2" using assms(2) by (intro length_decimal_of) auto
  moreover have "length ?a \<le> 16" using length_dotted[of "and_bytes j (mask_bytes 4 n)"] assms(1) by simp
  ultimately have "length (net_String net) < 65536" by (simp add: s)
  with plain plain_char_not show "plain_line (net_String net)"
    by (force simp: plain_line_def)
qed

lemma cacheText_lines: "cacheText nets = concat (map (\<lambda>l. l @ [CHR 0x0A]) (map net_String nets))"
  by (simp add: cacheText_def comp_def)

definition v4_net :: "IPNet \<Rightarrow> bool" where
  "v4_net net \<longleftrightarrow> (\<exists>j n. length j = 4 \<and> n \<le> 32 \<and> net = prefix_net 32 (v4InV6Prefix @ j) n)"

lemma v4_net_line: "v4_net net \<Longrightarrow> lineNet (net_String net) = Some net \<and> plain_line (net_String net)"
  by (auto simp: v4_net_def cache_line_v4)

lemma parse_cacheText:
  assumes "list_all v4_net nets"
  shows "parseCIDRLines \<lparr>rd_bytes = cacheText nets, rd_failed = False\<rparr> = (nets, False)"
proof -
  have "list_all plain_line (map net_String nets)"
    using assms v4_net_line by (auto simp: list_all_iff)
  moreover have "List.map_filter lineNet (map net_String nets) = nets"
    using assms v4_net_line by (induction nets) (auto simp: List.map_filter_simps)
  ultimately show ?thesis
    using scan_lines_concat[of "map net_String nets"]
    by (simp only: parseCIDRLines_def cacheText_lines) simp
qed

section \<open>Properties\<close>

text \<open>C35. What an accepted network text means (\<open>parseFilterEntry\<close>, \<open>parseCIDRLines\<close>): the address
  before the slash and the prefix length behind it (32 or 128 for a bare address) are parsed to
  a network which holds exactly the addresses of the same family with the same first bits.\<close>

theorem parseNet_members:
  assumes "cidrString s = Some (a @ CHR ''/'' # m)" and "CHR ''/'' \<notin> set a"
    and "ParseAddr a = Some (b, i)" and "m \<noteq> []" and "dtoi 0 m = Some k" and "0 \<le> k" and "k \<le> int b"
  shows "\<exists>net. parseNet s = Some net \<and>
    (\<forall>x. net_Contains net x \<longleftrightarrow>
       (if b = 32 then in_prefix (drop 12 i) (nat k) x
        else if 96 \<le> k \<and> take 12 i = v4InV6Prefix then in_prefix (drop 12 i) (nat k - 96) x
        else in_prefix i (nat k) x))"
  using assms(3)
proof (cases rule: ParseAddr_cases)
  case (v4 j)
  have "parseNet s = Some (prefix_net 32 i (nat k))"
    using assms v4 by (simp add: parseNet_def ParseCIDR_slash)
  then show ?thesis using v4 assms(7) by (simp add: prefix_net_v4)
next
  case v6
  have mapped: "net_Contains (prefix_net 128 i (nat k)) x \<longleftrightarrow> in_prefix (drop 12 i) (nat k - 96) x"
    if "96 \<le> k" "take 12 i = v4InV6Prefix" for x
  proof -
    from that have "v4InV6Prefix @ drop 12 i = i" by (metis append_take_drop_id)
    moreover have "96 + (nat k - 96) = nat k" using that by simp
    moreover have "nat k - 96 \<le> 32" using v6 assms(7) by simp
    ultimately show ?thesis
      using prefix_net_v6_mapped[of "drop 12 i" "nat k - 96" x] v6 by simp
  qed
  have plain: "net_Contains (prefix_net 128 i (nat k)) x \<longleftrightarrow> in_prefix i (nat k) x"
    if "\<not> (96 \<le> k \<and> take 12 i = v4InV6Prefix)" for x
    using prefix_net_v6[of i "nat k" x] that v6 assms(7) by auto
  have "parseNet s = Some (prefix_net 128 i (nat k))"
    using assms v6 by (simp add: parseNet_def ParseCIDR_slash)
  then show ?thesis using mapped plain v6 by simp
qed

lemma parseNet_members_witness:
  "\<exists>net. parseNet ''10.1.0.0/16'' = Some net \<and>
     net_Contains net (v4InV6Prefix @ [10, 1, 9, 9]) \<and> \<not> net_Contains net (v4InV6Prefix @ [10, 2, 9, 9])"
proof -
  have 1: "cidrString ''10.1.0.0/16'' = Some (''10.1.0.0'' @ CHR ''/'' # ''16'')" by code_simp
  have 2: "ParseAddr ''10.1.0.0'' = Some (32, v4InV6Prefix @ [10, 1, 0, 0])" by code_simp
  have 3: "dtoi 0 ''16'' = Some 16" by code_simp
  from parseNet_members[OF 1 _ 2 _ 3] obtain net where net: "parseNet ''10.1.0.0/16'' = Some net"
    and m: "\<And>x. net_Contains net x \<longleftrightarrow> in_prefix [10, 1, 0, 0] 16 x"
    by (auto simp: v4InV6Prefix_def)
  have "in_prefix [10, 1, 0, 0] 16 (v4InV6Prefix @ [10, 1, 9, 9])"
    "\<not> in_prefix [10, 1, 0, 0] 16 (v4InV6Prefix @ [10, 2, 9, 9])"
    by code_simp+
  with net m show ?thesis by blast
qed

text \<open>A bare address in a list, dotted decimal or an IPv6 address that is not IPv4-mapped,
  stands for exactly that address (\<open>parseFilterEntry\<close> and \<open>parseCIDRLines\<close> append \<open>/32\<close> or
  \<open>/128\<close>).\<close>

theorem bare_address_exact:
  assumes "CHR ''/'' \<notin> set s" and "ParseAddr s = Some (b, i)"
    and "b = 32 \<or> take 12 i \<noteq> v4InV6Prefix"
  shows "\<exists>net. parseNet s = Some net \<and> (\<forall>x. net_Contains net x \<longleftrightarrow> canon x = canon i)"
  using assms(2)
proof (cases rule: ParseAddr_cases)
  case (v4 j)
  with assms(1,2) show ?thesis
    using in_prefix_full[of j] by (simp add: parseNet_bare_v4 prefix_net_v4 canon_def)
next
  case v6
  with assms show ?thesis
    using in_prefix_full[of i]
    by (simp add: parseNet_bare_v6 prefix_net_v6 canon_def To4_def)
qed

lemma bare_address_exact_witness:
  "\<exists>net. parseNet ''2001:db8::1'' = Some net \<and> \<not> net_Contains net (v4InV6Prefix @ [10, 2, 9, 9])"
proof -
  have 1: "ParseAddr ''2001:db8::1'' = Some (128, [32, 1, 13, 184, 0, 0, 0, 0, 0, 0, 0, 0, 0, 0, 0, 1])"
    by code_simp
  have 2: "canon (v4InV6Prefix @ [10, 2, 9, 9]) \<noteq> canon [32, 1, 13, 184, 0, 0, 0, 0, 0, 0, 0, 0, 0, 0, 0, 1]"
    by code_simp
  show ?thesis
    using bare_address_exact[OF _ 1] 2 by (auto simp: v4InV6Prefix_def)
qed

text \<open>An IPv4-mapped address written in IPv6 notation does not stand for itself: \<open>/32\<close> is
  appended to a 128-bit address, so the entry holds no IPv4 address at all and every IPv6
  address that begins with 32 zero bits.\<close>

theorem mapped_address_entry:
  assumes "CHR ''/'' \<notin> set s" and "ParseAddr s = Some (128, i)" and "take 12 i = v4InV6Prefix"
  shows "\<exists>net. parseNet s = Some net \<and> \<not> net_Contains net i \<and>
    (\<forall>x. net_Contains net x \<longleftrightarrow> length (canon x) = 16 \<and> take 4 (canon x) = [0, 0, 0, 0])"
proof -
  from assms(2) have len: "length i = 16" by (cases rule: ParseAddr_cases) auto
  have "in_prefix i 32 x \<longleftrightarrow> length (canon x) = 16 \<and> take 4 (canon x) = [0, 0, 0, 0]" for x
  proof -
    have i4: "take 4 i = [0, 0, 0, 0]"
      using arg_cong[OF assms(3), of "take 4"] by (simp add: v4InV6Prefix_def)
    have tk: "take 32 (ip_bits y) = ip_bits (take 4 y)" if "length y = 16" for y
    proof -
      have "ip_bits y = ip_bits (take 4 y) @ ip_bits (drop 4 y)"
        by (simp flip: ip_bits_append)
      then show ?thesis using that by simp
    qed
    show ?thesis
    proof (cases "length (canon x) = 16")
      case True
      then have "take 32 (ip_bits (canon x)) = take 32 (ip_bits i) \<longleftrightarrow> take 4 (canon x) = take 4 i"
        using len by (simp only: tk ip_bits_inject length_take)
      with True len show ?thesis by (simp only: in_prefix_def i4 simp_thms)
    qed (use len in \<open>simp add: in_prefix_def\<close>)
  qed
  moreover have "length (canon i) = 4"
    using assms(3) len by (simp add: canon_def To4_def)
  ultimately show ?thesis
    using assms len by (auto simp: parseNet_bare_v6 prefix_net_v6)
qed

lemma mapped_address_entry_witness:
  "\<exists>net. parseNet ''::ffff:1.2.3.4'' = Some net \<and> \<not> net_Contains net (v4InV6Prefix @ [1, 2, 3, 4]) \<and>
     net_Contains net (replicate 15 0 @ [1])"
proof -
  have 1: "ParseAddr ''::ffff:1.2.3.4'' = Some (128, v4InV6Prefix @ [1, 2, 3, 4])" by code_simp
  have 2: "length (canon (replicate 15 0 @ [1])) = 16 \<and> take 4 (canon (replicate 15 0 @ [1])) = [0, 0, 0, 0]"
    by code_simp
  show ?thesis
    using mapped_address_entry[OF _ 1] 2 by auto
qed


definition empty_world :: world where
  "empty_world = \<lparr>w_open = (\<lambda>_. None), w_mtime = (\<lambda>_. None), w_writable = (\<lambda>_. True),
                  w_get = (\<lambda>_. None), w_now = Instant 0\<rparr>"


end
