(* ===== verification/Config_Props.thy ===== *)
theory Config_Props
  imports Config_File Director_Props Cidr_Text
begin

text \<open>
  What loading the configuration guarantees: environment references are expanded from left to
  right and can be escaped, destinations are read back as they were written, and a loaded route is
  one on which the optimisations of the request path are exact.
\<close>

section \<open>Environment variables\<close>

text \<open>The reference: one scan from left to right.\<close>

function envExpand :: "(string \<Rightarrow> string option) \<Rightarrow> string \<Rightarrow> string" where
  "envExpand env s =
     (if HasPrefix s envEscape then envPrefix @ envExpand env (drop 7 s)
      else if HasPrefix s envPrefix then
        (case IndexByte (drop 6 s) CHR ''}'' of
           None \<Rightarrow> s
         | Some close \<Rightarrow>
             envValue env (take close (drop 6 s)) @ envExpand env (drop (close + 1) (drop 6 s)))
      else (case s of [] \<Rightarrow> [] | c # cs \<Rightarrow> c # envExpand env cs))"
  by pat_completeness auto
termination
proof (relation "measure (\<lambda>(env, s). length s)", goal_cases)
  case 1
  then show ?case by simp
qed (auto simp: HasPrefix_def prefix_def envEscape_def)

declare envExpand.simps [simp del]

lemma Index_head: "HasPrefix s m \<Longrightarrow> m \<noteq> [] \<Longrightarrow> Index s m = Some 0"
  by (cases s) (auto simp: HasPrefix_def)

lemma Index_zero: "Index s m = Some 0 \<Longrightarrow> HasPrefix s m"
  by (cases s) (auto simp: HasPrefix_def split: if_splits option.splits)

lemma Index_tail: "\<not> HasPrefix (c # cs) m \<Longrightarrow> Index (c # cs) m = map_option Suc (Index cs m)"
  by (auto simp: HasPrefix_def split: option.split)

lemma envEscape_not_prefix: "HasPrefix s envEscape \<Longrightarrow> \<not> HasPrefix s envPrefix"
  by (auto simp: HasPrefix_def envEscape_def prefix_def)

lemma envStep_escape:
  assumes "HasPrefix s envEscape"
  shows "envStep env s = (envPrefix, Some (drop 7 s))"
proof -
  have 1: "Index s envEscape = Some 0" using assms by (intro Index_head) (auto simp: envEscape_def)
  have "Index s envPrefix \<noteq> Some 0"
  proof
    assume "Index s envPrefix = Some 0"
    then have "HasPrefix s envPrefix" by (rule Index_zero)
    with envEscape_not_prefix[OF assms] show False by blast
  qed
  moreover have "length envEscape = 7" by (simp add: envEscape_def)
  ultimately show ?thesis
    using 1 by (auto simp: envStep_def split: option.split)
qed

lemma envStep_prefix:
  assumes "HasPrefix s envPrefix"
  shows "envStep env s =
    (case IndexByte (drop 6 s) CHR ''}'' of
       None \<Rightarrow> (s, None)
     | Some close \<Rightarrow> (envValue env (take close (drop 6 s)), Some (drop (close + 1) (drop 6 s))))"
proof -
  have 1: "Index s envPrefix = Some 0" using assms by (intro Index_head) auto
  have 2: "envPrefix @ drop 6 s = s" using assms by (auto simp: HasPrefix_def prefix_def)
  show ?thesis using 1 2 by (auto simp: envStep_def split: option.split)
qed

lemma envStep_char:
  assumes "\<not> HasPrefix (c # cs) envEscape" and "\<not> HasPrefix (c # cs) envPrefix"
  shows "envStep env (c # cs) = (case envStep env cs of (out, r) \<Rightarrow> (c # out, r))"
  unfolding envStep_def Index_tail[OF assms(1)] Index_tail[OF assms(2)]
  by (cases "Index cs envEscape"; cases "Index cs envPrefix")
     (auto split: option.split simp: numeral_eq_Suc)

lemma expandEnvVars_char:
  assumes "\<not> HasPrefix (c # cs) envEscape" and "\<not> HasPrefix (c # cs) envPrefix"
  shows "expandEnvVars env (c # cs) = c # expandEnvVars env cs"
  by (subst (1 2) expandEnvVars.simps) (auto simp: envStep_char[OF assms] split: prod.split option.split)

lemma expandEnvVars_envExpand: "expandEnvVars env s = envExpand env s"
proof (induction env s rule: envExpand.induct)
  case (1 env s)
  show ?case
  proof (cases "HasPrefix s envEscape")
    case True
    then show ?thesis
      using "1.IH"(1)[OF True] by (subst expandEnvVars.simps, subst envExpand.simps) (simp add: envStep_escape)
  next
    case esc: False
    show ?thesis
    proof (cases "HasPrefix s envPrefix")
      case True
      show ?thesis
      proof (cases "IndexByte (drop 6 s) CHR ''}''")
        case None
        then show ?thesis
          using esc True by (subst expandEnvVars.simps, subst envExpand.simps) (simp add: envStep_prefix)
      next
        case (Some close)
        then show ?thesis
          using esc True "1.IH"(2)[OF esc True Some]
          by (subst expandEnvVars.simps, subst envExpand.simps) (simp add: envStep_prefix)
      qed
    next
      case pre: False
      show ?thesis
      proof (cases s)
        case Nil
        then show ?thesis
          by (subst expandEnvVars.simps, subst envExpand.simps)
             (simp add: envStep_def envEscape_def HasPrefix_def)
      next
        case (Cons c cs)
        have "expandEnvVars env s = c # expandEnvVars env cs"
          using esc pre unfolding Cons by (rule expandEnvVars_char)
        also have "\<dots> = envExpand env s"
          using "1.IH"(3)[OF esc pre Cons] esc pre Cons by (subst envExpand.simps) simp
        finally show ?thesis .
      qed
    qed
  qed
qed

text \<open>The environment is expanded by one scan from left to right: \<open>${env.NAME}\<close> is the value of
  the variable, its default or nothing, the escaped form is the literal prefix, and values are not
  scanned again.\<close>

theorem expandEnvVars_scan: "expandEnvVars env s = envExpand env s"
  by (rule expandEnvVars_envExpand)

fun envQuote :: "string \<Rightarrow> string" where
  "envQuote [] = []"
| "envQuote (c # cs) =
     (if HasPrefix (c # cs) envPrefix then CHR 0x5C # c # envQuote cs else c # envQuote cs)"

lemma envQuote_plain: "CHR ''$'' \<notin> set t \<Longrightarrow> envQuote (t @ s) = t @ envQuote s"
  by (induction t) (auto simp: HasPrefix_def)

lemma envQuote_no_prefix: "\<not> HasPrefix (envQuote s) envPrefix"
proof
  assume a: "HasPrefix (envQuote s) envPrefix"
  then obtain c cs where s: "s = c # cs" by (cases s) (auto simp: HasPrefix_def)
  have n: "\<not> HasPrefix (c # cs) envPrefix" using a by (auto simp: s HasPrefix_def)
  with a have c: "c = CHR ''$''" "HasPrefix (envQuote cs) (tl envPrefix)"
    by (auto simp: s HasPrefix_def)
  have strip: "HasPrefix (envQuote t) m \<Longrightarrow> CHR 0x5C \<notin> set m \<Longrightarrow> HasPrefix t m" for t m
  proof (induction m arbitrary: t)
    case (Cons d m)
    from Cons.prems obtain e t' where t: "t = e # t'" by (cases t) (auto simp: HasPrefix_def)
    with Cons.prems have "\<not> HasPrefix (e # t') envPrefix" by (auto simp: HasPrefix_def)
    with Cons t show ?case by (auto simp: HasPrefix_def)
  qed (simp add: HasPrefix_def)
  have "HasPrefix cs (tl envPrefix)" by (rule strip[OF c(2)]) simp
  with c(1) n show False by (simp add: HasPrefix_def)
qed

lemma envExpand_quote: "envExpand env (envQuote s) = s"
proof (induction s rule: length_induct)
  case (1 s)
  show ?case
  proof (cases s)
    case Nil
    then show ?thesis by (subst envExpand.simps) (simp add: HasPrefix_def envEscape_def)
  next
    case (Cons c cs)
    show ?thesis
    proof (cases "HasPrefix s envPrefix")
      case True
      then obtain r where r: "s = envPrefix @ r" by (auto simp: HasPrefix_def prefix_def)
      have "envQuote s = envEscape @ envQuote r"
        using envQuote_plain[of "''{env.''" r] by (simp add: r envEscape_def HasPrefix_def)
      moreover have "envExpand env (envEscape @ envQuote r) = envPrefix @ envExpand env (envQuote r)"
        by (subst envExpand.simps) (simp add: HasPrefix_def envEscape_def)
      moreover have "envExpand env (envQuote r) = r" using 1 r by simp
      ultimately show ?thesis by (simp add: r)
    next
      case False
      have q: "envQuote s = c # envQuote cs" using False by (simp add: Cons)
      have "\<not> HasPrefix (c # envQuote cs) envEscape"
        using envQuote_no_prefix[of cs] by (auto simp: HasPrefix_def envEscape_def)
      moreover have "\<not> HasPrefix (c # envQuote cs) envPrefix"
        using envQuote_no_prefix[of s] by (simp add: q)
      ultimately have "envExpand env (envQuote s) = c # envExpand env (envQuote cs)"
        unfolding q by (subst envExpand.simps) simp
      with 1 Cons show ?thesis by simp
    qed
  qed
qed

text \<open>Any text can stand in the file: with a backslash before each \<open>${env.\<close> the expansion gives it
  back, in every environment.\<close>

theorem expandEnvVars_quote: "expandEnvVars env (envQuote s) = s"
  by (simp only: expandEnvVars_envExpand envExpand_quote)

section \<open>Destinations\<close>

lemma digit_no_space: "is_digit c \<Longrightarrow> \<not> is_space c \<and> c \<noteq> CHR ''-'' \<and> c \<noteq> CHR ''+'' \<and> c \<noteq> CHR 0x0A \<and> c \<noteq> CHR 0x0D"
  by (auto simp: is_digit_def is_space_def Let_def)

lemma Sscanf_d_decimal:
  assumes "0 \<le> n" and "n < 2 ^ 63"
  shows "Sscanf_d (decimal_of n) = Some n"
proof -
  obtain c cs where ds: "decimal_of n = c # cs" and dig: "list_all is_digit (c # cs)"
    using decimal_of_digits[OF assms(1)] by (cases "decimal_of n") auto
  then have c: "\<not> is_space c" "c \<noteq> CHR ''-''" "c \<noteq> CHR ''+''" "c \<noteq> CHR 0x0A" "c \<noteq> CHR 0x0D"
    using digit_no_space[of c] by auto
  have tw: "takeWhile is_digit (c # cs) = c # cs"
    using dig unfolding list_all_iff by (rule takeWhile_eq_all_conv[THEN iffD2])
  have sk: "skip_space (c # cs) = Some (c # cs)"
    unfolding skip_space.simps(2) using c(1,4,5) by (simp only: simp_thms if_False)
  have dv: "digits_val 0 (c # cs) = n" using digits_val_decimal[OF assms(1)] by (simp only: ds)
  have s: "(c # cs \<noteq> [] \<and> (hd (c # cs) = CHR ''-'' \<or> hd (c # cs) = CHR ''+'')) = False"
    using c by (simp only: list.sel simp_thms)
  have m: "(c # cs \<noteq> [] \<and> hd (c # cs) = CHR ''-'') = False"
    using c by (simp only: list.sel simp_thms)
  have r: "(c # cs = [] \<or> n < - (2 ^ 63) \<or> 2 ^ 63 - 1 < n) = False" using assms by simp
  show ?thesis
    unfolding ds Sscanf_d_def sk option.case Let_def s m if_False tw dv r by (rule refl)
qed

text \<open>A status destination is read back as it was written: code and text.\<close>

theorem status_roundtrip:
  assumes "100 \<le> n" and "n \<le> 599" and "txt \<noteq> []" and "\<not> is_space (last txt)"
  shows "parseDestField (''STATUS '' @ decimal_of n @ '' '' @ txt) = Some (n, txt)"
proof -
  obtain c cs where ds: "decimal_of n = c # cs" and dig: "list_all is_digit (c # cs)"
    using decimal_of_digits[of n] assms(1) by (cases "decimal_of n") auto
  have "TrimSpace (decimal_of n @ '' '' @ txt) = decimal_of n @ '' '' @ txt"
    using assms(3,4) dig digit_no_space[of c] by (intro TrimSpace_id) (simp add: ds)
  moreover have "is_space CHR '' ''" by code_simp
  then have "CHR '' '' \<notin> set (decimal_of n)"
    using dig digit_no_space unfolding ds list_all_iff by blast
  then have "IndexByte (decimal_of n @ CHR '' '' # txt) CHR '' '' = Some (length (decimal_of n))"
    by (rule IndexByte_append)
  moreover have "HasPrefix (ToUpper (''STATUS '' @ decimal_of n @ '' '' @ txt)) ''STATUS ''"
  proof -
    have "ToUpper ''STATUS '' = ''STATUS ''" by code_simp
    then show ?thesis by (auto simp: ToUpper_def HasPrefix_def)
  qed
  ultimately show ?thesis
    using assms(1,2) Sscanf_d_decimal[of n] by (simp add: parseDestField_def)
qed

lemma status_roundtrip_witness: "parseDestField ''STATUS 404 not found'' = Some (404, ''not found'')"
proof -
  have "decimal_of 404 = ''404''" by code_simp
  moreover have "\<not> is_space (last ''not found'')" by code_simp
  ultimately show ?thesis using status_roundtrip[of 404 "''not found''"] by simp
qed

text \<open>A Unix upstream names its socket and its HTTP path, split at the last colon, over the scheme
  that the prefix says.\<close>

theorem unix_upstream:
  assumes "HasPrefix sock ''/''" and "HasPrefix path ''/''" and "CHR '':'' \<notin> set path"
  shows "upstreamOf ((if tls then ''unixs://'' else ''unix://'') @ sock @ '':'' @ path) w =
    Inr \<lparr>u_URL = (if tls then ''unixs://'' else ''unix://'') @ sock @ '':'' @ path,
         u_Parsed = \<lparr>url_Scheme = (if tls then ''https'' else ''http''), url_Host = unixHostLabel sock,
                     url_Path = path, url_RawQuery = []\<rparr>,
         u_Weight = w, u_UnixSocket = sock\<rparr>"
proof -
  have "LastIndex path '':'' = None" using assms(3) by (intro LastIndex_missing[of "CHR '':''"]) auto
  then have "LastIndex ('':'' @ path) '':'' = Some 0" by simp
  from LastIndex_append_Some[OF this, of sock]
  have "LastIndex (sock @ CHR '':'' # path) '':'' = Some (length sock)" by simp
  moreover have "sock \<noteq> []" using assms(1) by (auto simp: HasPrefix_def)
  ultimately show ?thesis
    using assms(1,2) by (simp add: upstreamOf_def parseUnixUpstream_def withSlash_def HasPrefix_def)
qed

lemma unix_upstream_witness:
  "map_sum (\<lambda>e. e) u_UnixSocket (upstreamOf ''unixs:///run/app.sock:/v1'' 1) = Inr ''/run/app.sock''"
proof -
  have "HasPrefix ''/run/app.sock'' ''/''" "HasPrefix ''/v1'' ''/''" by code_simp+
  from unix_upstream[OF this, of True 1] show ?thesis by simp
qed

text \<open>The error of an empty socket path is never reported: \<open>parseUnixUpstream\<close> returns it with
  \<open>ok = false\<close>, and its callers then read the text as an ordinary URL.\<close>

theorem unix_error_unreported: "upstreamOf raw w \<noteq> Inl (UnixError e)"
proof (cases "parseUnixUpstream raw")
  case (Pair r uerr)
  have "r = None \<or> \<not> uerr"
    using Pair by (auto simp: parseUnixUpstream_def Let_def split: if_splits option.splits)
  with Pair show ?thesis by (cases r) (auto simp: upstreamOf_def split: option.split)
qed

section \<open>Loaded routes\<close>

text \<open>What the request path relies on: the flags, the wildcard flags, the mode and the weights.\<close>

definition route_ready :: "RouteConfig \<Rightarrow> bool" where
  "route_ready rc \<longleftrightarrow>
     flags_ok rc \<and> DeleteHasWildcard rc = hasWildcard (DeleteHeaders rc) \<and>
     ClientDelHasWildcard rc = hasWildcard (ClientDelHeaders rc) \<and>
     LBMode rc \<in> {''random'', ''round-robin''} \<and> list_all (\<lambda>u. 1 \<le> u_Weight u) (Upstreams rc) \<and>
     (StatusCode rc = 0 \<or> 100 \<le> StatusCode rc \<and> StatusCode rc \<le> 599) \<and>
     (StatusCode rc \<noteq> 0 \<longrightarrow> Upstreams rc = [])"

lemma routeBase_ready: "route_ready (routeBase fr)"
  by (simp add: route_ready_def routeBase_def Let_def flags_ok_def zeroRoute_def normalizeLBMode_def)

lemma upstreamOf_weight: "upstreamOf raw w = Inr u \<Longrightarrow> u_Weight u = w"
  by (auto simp: upstreamOf_def split: prod.splits option.splits if_splits)

lemma parseUpstreamString_weight: "parseUpstreamString s = Inr (raw, w) \<Longrightarrow> 1 \<le> w"
  by (auto simp: parseUpstreamString_def Let_def split: if_splits option.splits)

lemma destList_weights: "destList es = Inr us \<Longrightarrow> list_all (\<lambda>u. 1 \<le> u_Weight u) us"
proof (induction es arbitrary: us)
  case (Cons e es)
  then obtain raw w u us' where p: "parseUpstreamString e = Inr (raw, w)" "upstreamOf raw w = Inr u"
    and r: "destList es = Inr us'" and us: "us = u # us'"
    by (auto split: sum.splits prod.splits)
  from Cons.IH[OF r] upstreamOf_weight[OF p(2)] parseUpstreamString_weight[OF p(1)] us
  show ?case by simp
qed simp

lemma parseDestField_range: "parseDestField d = Some (n, txt) \<Longrightarrow> 100 \<le> n \<and> n \<le> 599"
  by (auto simp: parseDestField_def Let_def split: if_splits option.splits)

lemma parseFileField_range: "parseFileField d = Some (n, p, b) \<Longrightarrow> 100 \<le> n \<and> n \<le> 599"
  by (auto simp: parseFileField_def fileFields_def split: if_splits option.splits list.splits)

lemma applyDestEntries_cases:
  assumes "applyDestEntries rc es = Inr rc'"
  obtains (none) "rc' = rc"
  | (status) code msg where "rc' = rc\<lparr>StatusCode := code, StatusText := msg\<rparr>" "100 \<le> code" "code \<le> 599"
  | (static) code p b where "rc' = rc\<lparr>StatusCode := code, StaticFilePath := p, StaticDirListing := b\<rparr>"
      "100 \<le> code" "code \<le> 599"
  | (proxy) us where "rc' = rc\<lparr>Upstreams := us\<rparr>" "list_all (\<lambda>u. 1 \<le> u_Weight u) us"
proof (cases es)
  case Nil
  with assms none show ?thesis by (simp add: applyDestEntries_def)
next
  case (Cons e es')
  show ?thesis
  proof (cases es')
    case Nil
    show ?thesis
    proof (cases "parseDestField e")
      case (Some ct)
      with assms Cons Nil status[of "snd ct" "fst ct"] parseDestField_range[of e "fst ct" "snd ct"]
      show ?thesis by (cases ct) (simp add: applyDestEntries_def)
    next
      case d: None
      show ?thesis
      proof (cases "parseFileField e")
        case (Some cpb)
        obtain c p b where "cpb = (c, p, b)" by (cases cpb)
        with Some assms Cons Nil d static[of b p c] parseFileField_range[of e c p b] show ?thesis
          by (simp add: applyDestEntries_def)
      next
        case None
        with assms Cons Nil d obtain u where "upstreamOf e 1 = Inr u" "rc' = rc\<lparr>Upstreams := [u]\<rparr>"
          by (auto simp: applyDestEntries_def split: sum.splits)
        with proxy[of "[u]"] upstreamOf_weight[of e 1 u] show ?thesis by simp
      qed
    qed
  next
    case (Cons e' es'')
    with assms \<open>es = e # es'\<close> obtain us where "destList es = Inr us" "rc' = rc\<lparr>Upstreams := us\<rparr>"
      by (auto simp: applyDestEntries_def split: sum.splits)
    with proxy destList_weights show ?thesis by blast
  qed
qed

lemma flags_ok_cong:
  "flags_ok (rc\<lparr>StatusCode := a, StatusText := b\<rparr>) = flags_ok rc"
  "flags_ok (rc\<lparr>StatusCode := a, StaticFilePath := c, StaticDirListing := d\<rparr>) = flags_ok rc"
  "flags_ok (rc\<lparr>Upstreams := us\<rparr>) = flags_ok rc" "flags_ok (rc\<lparr>rc_Auth := au\<rparr>) = flags_ok rc"
  by (simp_all add: flags_ok_def)

lemma applyDestEntries_ready:
  assumes "applyDestEntries (routeBase fr) es = Inr rc"
  shows "route_ready rc"
  using assms routeBase_ready[of fr]
proof (cases rule: applyDestEntries_cases)
  case none
  with routeBase_ready[of fr] show ?thesis by simp
next
  case (status code msg)
  with routeBase_ready[of fr] show ?thesis
    by (simp add: route_ready_def flags_ok_cong) (simp add: routeBase_def Let_def zeroRoute_def)
next
  case (static code p b)
  with routeBase_ready[of fr] show ?thesis
    by (simp add: route_ready_def flags_ok_cong) (simp add: routeBase_def Let_def zeroRoute_def)
next
  case (proxy us)
  with routeBase_ready[of fr] show ?thesis
    by (simp add: route_ready_def flags_ok_cong) (simp add: routeBase_def Let_def zeroRoute_def)
qed

lemma routeOf_ready: "routeOf path fr = Inr rc \<Longrightarrow> route_ready rc"
proof -
  assume r: "routeOf path fr = Inr rc"
  have auth: "route_ready (rc0\<lparr>rc_Auth := au\<rparr>) = route_ready rc0" for rc0 au
    by (simp add: route_ready_def flags_ok_cong)
  from r obtain rc0 where d: "applyDestEntries (routeBase fr) (fr_Dest fr) = Inr rc0"
    by (cases "applyDestEntries (routeBase fr) (fr_Dest fr)") (simp_all add: routeOf_def)
  with r have "rc = rc0 \<or> (\<exists>au. rc = rc0\<lparr>rc_Auth := au\<rparr>)"
    by (simp add: routeOf_def split: if_splits list.splits) blast
  with applyDestEntries_ready[OF d] auth show ?thesis by metis
qed

lemma fileRoutesOf_ready: "fileRoutesOf frs = Inr rs \<Longrightarrow> list_all (\<lambda>(p, rc). route_ready rc) rs"
proof (induction frs arbitrary: rs)
  case (Cons pfr frs)
  then obtain rc rs' where "routeOf (fst pfr) (snd pfr) = Inr rc" "fileRoutesOf frs = Inr rs'"
    "rs = (fst pfr, rc) # rs'"
    by (cases pfr) (auto split: sum.splits)
  with Cons.IH routeOf_ready show ?case by simp
qed simp

definition config_ready :: "Config \<Rightarrow> bool" where
  "config_ready cfg \<longleftrightarrow> list_all (\<lambda>vh. list_all (\<lambda>(p, rc). route_ready rc) (Routes vh)) (VHosts cfg)"

lemma parseFileVHost_ready:
  "parseFileVHost frs doms = Inr vh \<Longrightarrow> list_all (\<lambda>(p, rc). route_ready rc) (Routes vh)"
  by (auto simp: parseFileVHost_def fileRoutesOf_ready split: sum.splits)

lemma fileVHostsOf_ready:
  "fileVHostsOf i fvhs = Inr vhs \<Longrightarrow> list_all (\<lambda>vh. list_all (\<lambda>(p, rc). route_ready rc) (Routes vh)) vhs"
  by (induction fvhs arbitrary: i vhs) (auto split: if_splits sum.splits dest: parseFileVHost_ready)

lemma loadConfigFile_ready:
  assumes "loadConfigFile readFile env decode path = Inr cfg"
  shows "config_ready cfg"
proof -
  from assms obtain fc where "configOf fc = Inr cfg"
    by (auto simp: loadConfigFile_def split: option.splits)
  then show ?thesis
    by (auto simp: configOf_def config_ready_def parseFileVHost_ready split: sum.splits if_splits
        dest: fileVHostsOf_ready)
qed

text \<open>Every route of a loaded configuration file is ready for the request path: the flags say
  exactly which values its headers use, the wildcard flags are right, the balancing mode is one of
  two, every weight is positive and a status route has no upstream.\<close>

theorem loaded_config_ready:
  assumes "loadConfigFile readFile env decode path = Inr cfg"
  shows "config_ready cfg"
  by (rule loadConfigFile_ready[OF assms])

definition demo_file :: fileConfig where
  "demo_file = \<lparr>fc_Global = \<lparr>fg_Listen = [], fg_Port = 0, fg_TLSCert = [], fg_TLSKey = [], fg_Auth = [],
       fg_TrustClientHeaders = False, fg_IPFilter = None, fg_TrustedProxies = [], fg_JWTAuth = None,
       fg_ACME = None\<rparr>,
     fc_Routes = [(''/'', \<lparr>fr_Dest = [''http://a:1 weight=3'', ''http://b:2''], fr_NoTLSVerify = False,
       fr_Auth = [], fr_Timeout = [], fr_DialTimeout = [], fr_LBMode = ''RoundRobin'',
       fr_AddHeaders = [(''X-Real-IP'', ''${trusted_xff}'')], fr_DeleteHeaders = [''X-*''],
       fr_ClientAddHeaders = [], fr_ClientDelHeaders = [], fr_AuthUsers = [], fr_SkipJwtAuth = False,
       fr_authPresent = False\<rparr>)],
     fc_VHosts = []\<rparr>"

lemma loaded_config_ready_witness:
  "\<exists>cfg. loadConfigFile (\<lambda>p. Some []) (\<lambda>v. None) (\<lambda>s. Some demo_file) ''/c.yml'' = Inr cfg \<and>
     config_ready cfg"
proof -
  have "isl (configOf demo_file) = False" by code_simp
  then obtain cfg where "configOf demo_file = Inr cfg" by (cases "configOf demo_file") auto
  then have l: "loadConfigFile (\<lambda>p. Some []) (\<lambda>v. None) (\<lambda>s. Some demo_file) ''/c.yml'' = Inr cfg"
    by (simp add: loadConfigFile_def)
  from loaded_config_ready[OF l] l show ?thesis by blast
qed

end
