(* ===== verification/Upstream_Picker.thy ===== *)
theory Upstream_Picker
  imports Config_Types
begin

text \<open>
  Load balancing (\<open>upstreamPicker\<close> in \<^verbatim>\<open>src/server.go\<close>): weighted random choice by a draw in
  \<open>[0, totalWeight)\<close> and weighted round-robin by a counter over a pool of indices. The draw of
  \<^verbatim>\<open>rand.Intn\<close> is an argument; the counter is a Go \<^verbatim>\<open>int\<close>, a 64-bit word read with its sign,
  and \<^const>\<open>None\<close> is the panic of an index out of range. That both modes give every upstream its
  share is one contract, \<open>fair_choice\<close>.
\<close>

section \<open>The contract\<close>

locale fair_choice =
  fixes chosen :: "'d \<Rightarrow> nat"
    and draws :: "'d list"
    and share :: "nat \<Rightarrow> nat"
    and number :: nat
  assumes count_draws: "i < number \<Longrightarrow> count (mset (map chosen draws)) i = share i"
    and in_range: "d \<in> set draws \<Longrightarrow> chosen d < number"
begin

lemma no_starvation: "i < number \<Longrightarrow> 0 < share i \<Longrightarrow> \<exists>d \<in> set draws. chosen d = i"
proof -
  assume "i < number" "0 < share i"
  then have "0 < count (mset (map chosen draws)) i" by (simp only: count_draws)
  then show "\<exists>d \<in> set draws. chosen d = i" by (auto simp: count_greater_zero_iff)
qed

lemma total_share: "length draws = (\<Sum>i < number. share i)"
proof -
  have "length draws = size (mset (map chosen draws))" by simp
  also have "\<dots> = (\<Sum>i \<in> set_mset (mset (map chosen draws)). count (mset (map chosen draws)) i)"
    by (rule size_multiset_overloaded_eq)
  also have "\<dots> = (\<Sum>i < number. count (mset (map chosen draws)) i)"
    using in_range by (intro sum.mono_neutral_left) (auto simp: count_eq_zero_iff simp flip: count_mset)
  also have "\<dots> = (\<Sum>i < number. share i)"
    by (rule sum.cong) (simp_all add: count_draws del: mset_map)
  finally show ?thesis .
qed

end

section \<open>The picker\<close>

record upstreamPicker =
  pk_upstreams :: "Upstream list"
  totalWeight :: int
  pool :: "nat list"
  pk_next :: "64 word"

definition weightOf :: "Upstream \<Rightarrow> int" where
  "weightOf u = (if u_Weight u < 1 then 1 else u_Weight u)"

definition poolFrom :: "nat \<Rightarrow> Upstream list \<Rightarrow> nat list" where
  "poolFrom k us = concat (map (\<lambda>(idx, u). replicate (nat (weightOf u)) idx) (enumerate k us))"

definition newUpstreamPicker :: "Upstream list \<Rightarrow> upstreamPicker" where
  "newUpstreamPicker upstreams =
     \<lparr>pk_upstreams = upstreams, totalWeight = sum_list (map weightOf upstreams),
      pool = poolFrom 0 upstreams, pk_next = 0\<rparr>"

text \<open>The walk over the upstreams of the random mode; the fallback after the loop is the first.\<close>

fun randWalk :: "int \<Rightarrow> int \<Rightarrow> nat \<Rightarrow> Upstream list \<Rightarrow> nat" where
  "randWalk r cumulative i [] = 0"
| "randWalk r cumulative i (u # us) =
     (if r < cumulative + weightOf u then i else randWalk r (cumulative + weightOf u) (Suc i) us)"

text \<open>Go's \<^verbatim>\<open>%\<close> takes the sign of the dividend: a negative counter gives a negative index, unless
  it is a multiple of the length.\<close>

definition poolIndex :: "nat list \<Rightarrow> 64 word \<Rightarrow> nat option" where
  "poolIndex pl nxt =
     (let n = sint nxt; l = int (length pl) in
      if l = 0 then None
      else if 0 \<le> n then Some (pl ! nat (n mod l))
      else if n mod l = 0 then Some (pl ! 0)
      else None)"

definition pick :: "string \<Rightarrow> int \<Rightarrow> upstreamPicker \<Rightarrow> (Upstream \<times> upstreamPicker) option" where
  "pick mode r p =
     (if length (pk_upstreams p) = 1 then Some (pk_upstreams p ! 0, p)
      else if mode = ''round-robin'' then
        (case poolIndex (pool p) (pk_next p) of
           None \<Rightarrow> None
         | Some idx \<Rightarrow> Some (pk_upstreams p ! idx, p\<lparr>pk_next := pk_next p + 1\<rparr>))
      else if totalWeight p \<le> 0 then None
      else Some (pk_upstreams p ! randWalk r 0 0 (pk_upstreams p), p))"

section \<open>Shares\<close>

lemma weightOf_pos [simp]: "0 < weightOf u" "0 < nat (weightOf u)"
  by (auto simp: weightOf_def)

lemma poolFrom_Nil [simp]: "poolFrom k [] = []"
  by (simp add: poolFrom_def)

lemma poolFrom_Cons [simp]: "poolFrom k (u # us) = replicate (nat (weightOf u)) k @ poolFrom (Suc k) us"
  by (simp add: poolFrom_def)

lemma length_poolFrom: "int (length (poolFrom k us)) = sum_list (map weightOf us)"
  by (induction us arbitrary: k) (auto simp: less_imp_le)

lemma poolFrom_range: "i \<in> set (poolFrom k us) \<Longrightarrow> k \<le> i \<and> i < k + length us"
proof (induction us arbitrary: k)
  case (Cons u us)
  then have "i = k \<or> i \<in> set (poolFrom (Suc k) us)" by (auto split: if_splits)
  then show ?case
  proof
    assume "i \<in> set (poolFrom (Suc k) us)"
    from Cons.IH[OF this] have "Suc k \<le> i" "i < Suc k + length us" by (rule conjunct1, rule conjunct2)
    then show ?thesis by simp
  qed simp
qed simp

lemma count_poolFrom:
  "i < length us \<Longrightarrow> count (mset (poolFrom k us)) (k + i) = nat (weightOf (us ! i))"
proof (induction us arbitrary: k i)
  case (Cons u us)
  show ?case
  proof (cases i)
    case 0
    have "k \<notin> set (poolFrom (Suc k) us)" using poolFrom_range[of k "Suc k" us] by auto
    then have "count (mset (poolFrom (Suc k) us)) k = 0" by (simp add: count_eq_zero_iff)
    with 0 show ?thesis by simp
  next
    case (Suc j)
    then show ?thesis using Cons.IH[of j "Suc k"] Cons.prems by (auto simp: count_eq_zero_iff)
  qed
qed simp

text \<open>The random walk looks up the draw in the pool.\<close>

lemma randWalk_pool:
  "0 \<le> r - c \<Longrightarrow> r - c < int (length (poolFrom i us)) \<Longrightarrow>
   randWalk r c i us = poolFrom i us ! nat (r - c)"
proof (induction us arbitrary: c i)
  case (Cons u us)
  show ?case
  proof (cases "r < c + weightOf u")
    case True
    with Cons.prems show ?thesis by (simp add: nth_append nat_less_eq_zless)
  next
    case False
    have "nat (r - c) - nat (weightOf u) = nat (r - (c + weightOf u))"
      using False weightOf_pos(1)[of u] by linarith
    moreover have "randWalk r (c + weightOf u) (Suc i) us = poolFrom (Suc i) us ! nat (r - (c + weightOf u))"
      using False Cons.prems(2) weightOf_pos(1)[of u] by (intro Cons.IH) (auto simp: less_imp_le)
    moreover have "\<not> nat (r - c) < nat (weightOf u)" using False by linarith
    ultimately show ?thesis using False by (simp add: nth_append)
  qed
qed simp

lemma map_nth_all: "map (\<lambda>r. xs ! nat r) [0..int (length xs) - 1] = xs"
  by (rule nth_equalityI) auto

lemma random_draws:
  "map (\<lambda>r. randWalk r 0 0 us) [0..totalWeight (newUpstreamPicker us) - 1] = poolFrom 0 us"
proof -
  have t: "totalWeight (newUpstreamPicker us) = int (length (poolFrom 0 us))"
    by (simp add: newUpstreamPicker_def length_poolFrom)
  have "map (\<lambda>r. randWalk r 0 0 us) [0..int (length (poolFrom 0 us)) - 1] =
        map (\<lambda>r. poolFrom 0 us ! nat r) [0..int (length (poolFrom 0 us)) - 1]"
    using randWalk_pool[of _ 0 0 us] by (intro map_cong) auto
  then show ?thesis unfolding t map_nth_all .
qed

text \<open>The weighted random mode, over the equally likely draws.\<close>

interpretation rnd: fair_choice
  "\<lambda>r. randWalk r 0 0 us" "[0..totalWeight (newUpstreamPicker us) - 1]"
  "\<lambda>i. nat (weightOf (us ! i))" "length us" for us
proof
  fix i assume "i < length us"
  then show "count (mset (map (\<lambda>r. randWalk r 0 0 us) [0..totalWeight (newUpstreamPicker us) - 1])) i =
      nat (weightOf (us ! i))"
    unfolding random_draws using count_poolFrom[of i us 0] by simp
next
  fix r assume "r \<in> set [0..totalWeight (newUpstreamPicker us) - 1]"
  then have "randWalk r 0 0 us \<in> set (map (\<lambda>r. randWalk r 0 0 us) [0..totalWeight (newUpstreamPicker us) - 1])"
    by simp
  then have "randWalk r 0 0 us \<in> set (poolFrom 0 us)" unfolding random_draws .
  then show "randWalk r 0 0 us < length us" using poolFrom_range[of _ 0 us] by auto
qed

section \<open>Round-robin\<close>

lemma rotate_window: "map (\<lambda>k. xs ! (k mod length xs)) [n..<n + length xs] = rotate n xs"
  by (rule nth_equalityI) (auto simp: nth_rotate)

lemma mset_rotate: "mset (rotate n xs) = mset xs"
proof (induction n)
  case (Suc n)
  have "mset (rotate1 ys) = mset ys" for ys :: "'a list" by (cases ys) auto
  with Suc show ?case by simp
qed simp

definition rrChoose :: "Upstream list \<Rightarrow> nat \<Rightarrow> nat" where
  "rrChoose us k = poolFrom 0 us ! (k mod length (poolFrom 0 us))"

text \<open>One cycle of the counter, from any position.\<close>

interpretation rr: fair_choice
  "rrChoose us" "[n..<n + length (poolFrom 0 us)]" "\<lambda>i. nat (weightOf (us ! i))" "length us" for us n
proof
  have win: "map (rrChoose us) [n..<n + length (poolFrom 0 us)] = rotate n (poolFrom 0 us)"
    using rotate_window[of "poolFrom 0 us" n] unfolding rrChoose_def .
  fix i assume "i < length us"
  then show "count (mset (map (rrChoose us) [n..<n + length (poolFrom 0 us)])) i = nat (weightOf (us ! i))"
    unfolding win mset_rotate using count_poolFrom[of i us 0] by simp
next
  fix k assume "k \<in> set [n..<n + length (poolFrom 0 us)]"
  then have "poolFrom 0 us \<noteq> []" by auto
  then have "rrChoose us k \<in> set (poolFrom 0 us)" by (simp add: rrChoose_def)
  then show "rrChoose us k < length us" using poolFrom_range[of _ 0 us] by auto
qed

lemma poolFrom_nonempty: "us \<noteq> [] \<Longrightarrow> poolFrom k us \<noteq> []"
  using weightOf_pos(1) by (cases us) (auto simp: not_le)

text \<open>Repeated calls of \<open>pick\<close> in round-robin mode, the draw being unused.\<close>

fun picks :: "nat \<Rightarrow> upstreamPicker \<Rightarrow> Upstream list option" where
  "picks 0 p = Some []"
| "picks (Suc k) p =
     (case pick ''round-robin'' 0 p of
        None \<Rightarrow> None
      | Some (u, p') \<Rightarrow> map_option (\<lambda>us. u # us) (picks k p'))"

lemma sint_of_nat: "n < 2 ^ 63 \<Longrightarrow> sint (of_nat n :: 64 word) = int n"
  by (simp add: signed_of_nat signed_take_bit_int_eq_self_iff)

lemma picks_rr:
  assumes "length us > 1" and "n + k \<le> 2 ^ 63"
  shows "picks k ((newUpstreamPicker us)\<lparr>pk_next := of_nat n\<rparr>) = Some (map (\<lambda>j. us ! rrChoose us j) [n..<n + k])"
  using assms(2)
proof (induction k arbitrary: n)
  case (Suc k)
  let ?pl = "poolFrom 0 us"
  have pl: "?pl \<noteq> []" using assms(1) by (intro poolFrom_nonempty) auto
  have "poolIndex ?pl (of_nat n) = Some (?pl ! (n mod length ?pl))"
    using Suc.prems pl by (simp add: poolIndex_def Let_def sint_of_nat flip: zmod_int)
  then have "pick ''round-robin'' 0 ((newUpstreamPicker us)\<lparr>pk_next := of_nat n\<rparr>) =
      Some (us ! rrChoose us n, (newUpstreamPicker us)\<lparr>pk_next := of_nat (Suc n)\<rparr>)"
    using assms(1) by (simp add: pick_def newUpstreamPicker_def rrChoose_def add.commute)
  moreover have "[n..<n + Suc k] = n # [Suc n..<Suc n + k]" by (simp add: upt_rec)
  ultimately show ?case using Suc.IH[of "Suc n"] Suc.prems by simp
qed simp

section \<open>Properties\<close>

text \<open>C15. Weighted round-robin is exact: any window of as many requests as the weights add up to,
  while the counter has not wrapped, sends each upstream its weight in requests, and no call of
  \<open>pick\<close> panics.\<close>

theorem round_robin_fair:
  assumes "length us > 1" and "n + length (poolFrom 0 us) \<le> 2 ^ 63"
  shows "picks (length (poolFrom 0 us)) ((newUpstreamPicker us)\<lparr>pk_next := of_nat n\<rparr>) =
      Some (map (\<lambda>i. us ! i) (map (rrChoose us) [n..<n + length (poolFrom 0 us)])) \<and>
    filter (\<lambda>i. count (mset (map (rrChoose us) [n..<n + length (poolFrom 0 us)])) i \<noteq> nat (weightOf (us ! i)))
      [0..<length us] = []"
  using picks_rr[OF assms] rr.count_draws[of _ us n] by (simp add: comp_def filter_empty_conv)

definition demo_up :: "string \<Rightarrow> int \<Rightarrow> Upstream" where
  "demo_up s w = \<lparr>u_URL = s, u_Parsed = \<lparr>url_Scheme = ''http'', url_Host = s, url_Path = [], url_RawQuery = []\<rparr>,
     u_Weight = w, u_UnixSocket = []\<rparr>"

lemma round_robin_fair_witness:
  "picks 3 (newUpstreamPicker [demo_up ''a'' 2, demo_up ''b'' 0]) =
     Some [demo_up ''a'' 2, demo_up ''a'' 2, demo_up ''b'' 0]"
proof -
  let ?us = "[demo_up ''a'' 2, demo_up ''b'' 0]"
  have pl: "poolFrom 0 ?us = [0, 0, 1]" by (simp add: weightOf_def demo_up_def numeral_2_eq_2)
  have nx: "(newUpstreamPicker ?us)\<lparr>pk_next := of_nat 0\<rparr> = newUpstreamPicker ?us"
    by (simp add: newUpstreamPicker_def)
  have w: "map (\<lambda>i. ?us ! i) (map (rrChoose ?us) [0..<3]) = [demo_up ''a'' 2, demo_up ''a'' 2, demo_up ''b'' 0]"
    by code_simp
  have "length (poolFrom 0 ?us) = 3" by (simp only: pl) simp
  with round_robin_fair[of ?us 0] have
    "picks 3 (newUpstreamPicker ?us) = Some (map (\<lambda>i. ?us ! i) (map (rrChoose ?us) [0..<3]))"
    by (simp only: nx add_0) (simp del: list.map)
  then show ?thesis by (simp only: w)
qed

text \<open>Weighted random is fair: of the \<open>totalWeight\<close> equally likely draws, as many choose an
  upstream as its weight says, every draw chooses an upstream that exists, and the fallback behind
  the loop is never needed.\<close>

theorem random_fair:
  assumes "length us > 1" and "0 \<le> r" and "r < totalWeight (newUpstreamPicker us)"
  shows "pick mode r (newUpstreamPicker us) =
      (if mode = ''round-robin'' then Some (us ! rrChoose us 0, (newUpstreamPicker us)\<lparr>pk_next := 1\<rparr>)
       else Some (us ! randWalk r 0 0 us, newUpstreamPicker us)) \<and>
    randWalk r 0 0 us < length us \<and>
    filter (\<lambda>i. count (mset (map (\<lambda>r. randWalk r 0 0 us) [0..totalWeight (newUpstreamPicker us) - 1])) i
              \<noteq> nat (weightOf (us ! i))) [0..<length us] = []"
proof -
  have sel: "pk_upstreams (newUpstreamPicker us) = us" "pool (newUpstreamPicker us) = poolFrom 0 us"
    "pk_next (newUpstreamPicker us) = 0"
    by (simp_all add: newUpstreamPicker_def)
  have "poolFrom 0 us \<noteq> []" using assms(1) by (intro poolFrom_nonempty) auto
  then have "poolIndex (poolFrom 0 us) 0 = Some (us_idx)" if "us_idx = rrChoose us 0" for us_idx
    using that by (simp add: poolIndex_def rrChoose_def)
  then have "pick mode r (newUpstreamPicker us) =
      (if mode = ''round-robin'' then Some (us ! rrChoose us 0, (newUpstreamPicker us)\<lparr>pk_next := 1\<rparr>)
       else Some (us ! randWalk r 0 0 us, newUpstreamPicker us))"
    using assms by (simp add: pick_def sel)
  moreover have "randWalk r 0 0 us < length us"
    using assms(2,3) by (intro rnd.in_range) simp
  ultimately show ?thesis
    using rnd.count_draws[of _ us] by (simp add: filter_empty_conv)
qed

lemma random_fair_witness:
  "randWalk 2 0 0 [demo_up ''a'' 2, demo_up ''b'' 0] < 2"
proof -
  have "totalWeight (newUpstreamPicker [demo_up ''a'' 2, demo_up ''b'' 0]) = 3"
    by (simp add: newUpstreamPicker_def weightOf_def demo_up_def)
  with random_fair[of "[demo_up ''a'' 2, demo_up ''b'' 0]" 2] show ?thesis by simp
qed

end
