(* ===== verification/Go_Mux.thy ===== *)
theory Go_Mux
  imports Go_Url
begin

text \<open>
  Go's \<^verbatim>\<open>http.ServeMux\<close> as RouteMUX uses it: patterns that are paths, without method, host or
  wildcards in braces. A pattern is its list of segments, with a mark when it ends in a slash and
  so matches a whole subtree. Requests are those whose path needs no other encoding than the
  default one (\<^verbatim>\<open>RawPath\<close> is empty), and not \<^verbatim>\<open>CONNECT\<close>.
\<close>

section \<open>Clean paths\<close>

fun cleanSegs :: "string list \<Rightarrow> string list \<Rightarrow> string list" where
  "cleanSegs acc [] = rev acc"
| "cleanSegs acc (s # ss) =
     (if s = [] \<or> s = ''.'' then cleanSegs acc ss
      else if s = ''..'' then cleanSegs (tl acc) ss
      else cleanSegs (s # acc) ss)"

text \<open>\<^verbatim>\<open>path.Clean\<close> of a rooted path, and \<^verbatim>\<open>cleanPath\<close> of \<^verbatim>\<open>net/http\<close>, which keeps the trailing
  slash.\<close>

definition path_Clean :: "string \<Rightarrow> string" where
  "path_Clean p = CHR ''/'' # Join (cleanSegs [] (Split (tl p) CHR ''/'')) ''/''"

definition cleanPath :: "string \<Rightarrow> string" where
  "cleanPath p =
     (if p = [] then ''/''
      else let q = (if hd p = CHR ''/'' then p else CHR ''/'' # p); np = path_Clean q in
        if HasSuffix q ''/'' \<and> np \<noteq> ''/'' then np @ ''/'' else np)"

section \<open>Patterns\<close>

type_synonym pattern = "string list \<times> bool"

text \<open>The first three errors are panics of \<^verbatim>\<open>ServeMux.Handle\<close>. The other strings are patterns that
  the multiplexer gives another meaning (a method, a host, a wildcard in braces, and an empty
  segment or an escaped slash, which its tree stores like a wildcard); they are outside this model.\<close>

datatype patternError =
    EmptyPattern
  | NoSlash
  | Conflict
  | MethodPattern
  | HostPattern
  | WildcardPattern

definition pathUnescape :: "string \<Rightarrow> string" where
  "pathUnescape s = (case unescape s of None \<Rightarrow> s | Some t \<Rightarrow> t)"

definition parsePattern :: "string \<Rightarrow> patternError + pattern" where
  "parsePattern s =
     (if s = [] then Inl EmptyPattern
      else if CHR '' '' \<in> set s \<or> CHR 0x09 \<in> set s then Inl MethodPattern
      else if CHR ''/'' \<notin> set s then Inl NoSlash
      else if hd s \<noteq> CHR ''/'' then Inl HostPattern
      else let segs = map pathUnescape (Split (tl s) CHR ''/'') in
        if CHR ''{'' \<in> set s \<or> [] \<in> set (butlast segs) \<or> ''/'' \<in> set segs then Inl WildcardPattern
        else if last segs = [] then Inr (butlast segs, True)
        else Inr (segs, False))"

text \<open>The registered patterns with their handlers. Two path patterns conflict only when they are
  the same.\<close>

type_synonym 'h mux = "(pattern \<times> 'h) list"

definition mux_Handle :: "'h mux \<Rightarrow> string \<Rightarrow> 'h \<Rightarrow> patternError + 'h mux" where
  "mux_Handle mx s h =
     (case parsePattern s of
        Inl e \<Rightarrow> Inl e
      | Inr pt \<Rightarrow> if map_of mx pt \<noteq> None then Inl Conflict else Inr ((pt, h) # mx))"

section \<open>Matching\<close>

text \<open>The walk of the routing tree: the exact pattern, then the deepest subtree. The number is how
  many leading segments the subtree pattern may have.\<close>

fun multi_match :: "'h mux \<Rightarrow> string list \<Rightarrow> nat \<Rightarrow> (pattern \<times> 'h) option" where
  "multi_match mx segs 0 = map_option (Pair ([], True)) (map_of mx ([], True))"
| "multi_match mx segs (Suc n) =
     (case map_of mx (take (Suc n) segs, True) of
        Some h \<Rightarrow> Some ((take (Suc n) segs, True), h)
      | None \<Rightarrow> multi_match mx segs n)"

definition mux_match :: "'h mux \<Rightarrow> string \<Rightarrow> (pattern \<times> 'h) option" where
  "mux_match mx path =
     (let segs = Split (tl path) CHR ''/'' in
      case map_of mx (segs, False) of
        Some h \<Rightarrow> Some ((segs, False), h)
      | None \<Rightarrow> multi_match mx segs (length segs - 1))"

definition exactMatch :: "(pattern \<times> 'h) option \<Rightarrow> string \<Rightarrow> bool" where
  "exactMatch n path =
     (case n of
        None \<Rightarrow> False
      | Some ((segs, multi), h) \<Rightarrow>
          if \<not> multi then True
          else if path \<noteq> [] \<and> last path \<noteq> CHR ''/'' then False
          else length segs + 1 = length (filter (\<lambda>c. c = CHR ''/'') path))"

datatype 'h muxResult = mux_Serve 'h | mux_Redirect string | mux_NotFound

definition findHandler :: "'h mux \<Rightarrow> string \<Rightarrow> 'h muxResult" where
  "findHandler mx urlPath =
     (let path = cleanPath urlPath; n = mux_match mx path in
      if \<not> exactMatch n path \<and> \<not> HasSuffix path ''/'' \<and>
           exactMatch (mux_match mx (path @ ''/'')) (path @ ''/'')
      then mux_Redirect (cleanPath urlPath @ ''/'')
      else if path \<noteq> urlPath then mux_Redirect path
      else (case n of None \<Rightarrow> mux_NotFound | Some (_, h) \<Rightarrow> mux_Serve h))"


section \<open>Matching is by the longest prefix\<close>

text \<open>What a pattern means on the text of a path.\<close>

definition pat_covers :: "string \<Rightarrow> string \<Rightarrow> bool" where
  "pat_covers s p \<longleftrightarrow> (if HasSuffix s ''/'' then HasPrefix p s else p = s)"

lemma unescape_plain: "CHR ''%'' \<notin> set s \<Longrightarrow> unescape s = Some s"
  by (induction s rule: unescape.induct) (auto split: if_splits)

lemma pathUnescape_plain: "CHR ''%'' \<notin> set s \<Longrightarrow> pathUnescape s = s"
  by (simp add: pathUnescape_def unescape_plain)

lemma Split_concat: "set (concat (Split s sep)) \<subseteq> set s"
proof (induction s)
  case (Cons c s)
  then show ?case by (cases "Split s sep") auto
qed simp

lemma Split_mem: "w \<in> set (Split s sep) \<Longrightarrow> c \<in> set w \<Longrightarrow> c \<in> set s"
  using Split_concat[of s sep] by auto

lemma Split_plain: "CHR ''%'' \<notin> set s \<Longrightarrow> map pathUnescape (Split s sep) = Split s sep"
  by (rule map_idI) (auto intro: pathUnescape_plain dest: Split_mem)

lemma parsePattern_plain:
  assumes "parsePattern s = Inr (segs, m)" and "CHR ''%'' \<notin> set s"
  obtains s' where "s = CHR ''/'' # s'"
    and "Split s' CHR ''/'' = segs @ (if m then [[]] else [])" and "m = False \<Longrightarrow> last segs \<noteq> []"
proof -
  from assms(1) obtain c s' where s: "s = c # s'" by (cases s) (auto simp: parsePattern_def)
  from assms(1) s have c: "c = CHR ''/''" by (auto simp: parsePattern_def split: if_splits)
  from assms(2) s have "map pathUnescape (Split s' CHR ''/'') = Split s' CHR ''/''"
    by (intro Split_plain) simp
  with assms(1) s c have r: "(if last (Split s' CHR ''/'') = [] then (butlast (Split s' CHR ''/''), True)
      else (Split s' CHR ''/'', False)) = (segs, m)"
    by (auto simp: parsePattern_def Let_def split: if_splits)
  show thesis
  proof (rule that)
    show "s = CHR ''/'' # s'" using s c by simp
    show "Split s' CHR ''/'' = segs @ (if m then [[]] else [])"
      using r append_butlast_last_id[OF Split_not_Nil, of s' "CHR ''/''", symmetric]
      by (cases "last (Split s' CHR ''/'') = []") (simp_all only: if_True if_False prod.inject, simp_all)
    show "m = False \<Longrightarrow> last segs \<noteq> []" using r by (auto split: if_splits)
  qed
qed

lemma Split_Nil_iff: "Split s sep = [[]] \<longleftrightarrow> s = []"
  by (cases s) (auto split: list.splits)

lemma last_Split: "last (Split s sep) = [] \<longleftrightarrow> s = [] \<or> last s = sep"
proof (induction s)
  case (Cons c s)
  show ?case
  proof (cases "s = []")
    case False
    then have "Split s sep \<noteq> [[]]" by (simp add: Split_Nil_iff)
    moreover obtain w ws where "Split s sep = w # ws" by (cases "Split s sep") auto
    ultimately show ?thesis using Cons False by (cases ws) auto
  qed auto
qed simp

lemma HasSuffix_one: "HasSuffix s [c] \<longleftrightarrow> s \<noteq> [] \<and> last s = c"
  by (cases s rule: rev_cases) (auto simp: HasSuffix_def)

lemma Split_last_nil: "Split s sep = segs @ [[]] \<Longrightarrow> s = [] \<or> last s = sep"
  using last_Split[of s sep] by simp

lemma Split_inj: "Split s sep = Split t sep \<Longrightarrow> s = t"
  by (metis Join_Split)

lemma Split_prefix:
  assumes "Split s sep = segs @ [[]]"
  shows "prefix s p \<longleftrightarrow> length segs < length (Split p sep) \<and> take (length segs) (Split p sep) = segs"
proof (cases "s = []")
  case True
  with assms show ?thesis by simp
next
  case False
  with Split_last_nil[OF assms] obtain r where s: "s = r @ [sep]"
    by (metis append_butlast_last_id)
  have segs: "segs = Split r sep"
    using assms Split_append_sep[of r sep "[]"] by (simp add: s)
  show ?thesis
  proof
    assume "prefix s p"
    then obtain q where "p = r @ sep # q" by (auto simp: s prefix_def)
    then show "length segs < length (Split p sep) \<and> take (length segs) (Split p sep) = segs"
      by (simp add: Split_append_sep segs)
  next
    assume t: "length segs < length (Split p sep) \<and> take (length segs) (Split p sep) = segs"
    then obtain w ws where "Split p sep = segs @ w # ws"
      by (metis append_take_drop_id drop_eq_Nil linorder_not_le neq_Nil_conv)
    moreover have "Join (us @ w # ws) [sep] = Join us [sep] @ sep # Join (w # ws) [sep]" if "us \<noteq> []" for us
      using that by (induction us rule: induct_list012) auto
    ultimately have "p = Join segs [sep] @ sep # Join (w # ws) [sep]"
      using Join_Split[of p sep] segs by simp
    then show "prefix s p" by (simp add: s segs Join_Split)
  qed
qed

text \<open>The pattern as the tree sees it and the pattern as text cover the same paths.\<close>

definition tree_covers :: "pattern \<Rightarrow> string list \<Rightarrow> bool" where
  "tree_covers pt P \<longleftrightarrow>
     (if snd pt then length (fst pt) < length P \<and> take (length (fst pt)) P = fst pt else P = fst pt)"

lemma tree_covers_text:
  assumes "parsePattern s = Inr pt" and "CHR ''%'' \<notin> set s"
  shows "tree_covers pt (Split p CHR ''/'') \<longleftrightarrow> pat_covers s (CHR ''/'' # p)"
proof -
  obtain segs m where pt: "pt = (segs, m)" by (cases pt)
  from assms pt obtain s' where s: "s = CHR ''/'' # s'"
    and sp: "Split s' CHR ''/'' = segs @ (if m then [[]] else [])" and l: "m = False \<Longrightarrow> last segs \<noteq> []"
    by (auto elim: parsePattern_plain)
  show ?thesis
  proof (cases m)
    case True
    with sp have "s' = [] \<or> last s' = CHR ''/''" by (auto dest: Split_last_nil)
    then have "HasSuffix s ''/''" by (auto simp: s HasSuffix_one)
    with True sp show ?thesis
      by (simp add: tree_covers_def pat_covers_def pt s HasPrefix_def Split_prefix)
  next
    case False
    with sp l last_Split[of s' "CHR ''/''"] have "s' \<noteq> [] \<and> last s' \<noteq> CHR ''/''" by auto
    then have "\<not> HasSuffix s ''/''" by (simp add: s HasSuffix_one)
    with False sp show ?thesis
      by (auto simp: tree_covers_def pat_covers_def pt s dest: Split_inj)
  qed
qed


section \<open>What a lookup returns\<close>

lemma multi_match_Some:
  "n < length P \<Longrightarrow> multi_match mx P n = Some (pt, h) \<Longrightarrow>
   map_of mx pt = Some h \<and> tree_covers pt P \<and> snd pt \<and>
   (\<forall>segs. map_of mx (segs, True) \<noteq> None \<longrightarrow> tree_covers (segs, True) P \<longrightarrow>
      length segs \<le> n \<longrightarrow> length segs \<le> length (fst pt))"
proof (induction n)
  case 0
  then show ?case by (auto simp: tree_covers_def)
next
  case (Suc n)
  show ?case
  proof (cases "map_of mx (take (Suc n) P, True)")
    case None
    with Suc have IH: "map_of mx pt = Some h \<and> tree_covers pt P \<and> snd pt \<and>
      (\<forall>segs. map_of mx (segs, True) \<noteq> None \<longrightarrow> tree_covers (segs, True) P \<longrightarrow>
         length segs \<le> n \<longrightarrow> length segs \<le> length (fst pt))" by simp
    moreover have "length segs \<le> n"
      if "map_of mx (segs, True) \<noteq> None" "tree_covers (segs, True) P" "length segs \<le> Suc n" for segs
      using that None by (cases "length segs = Suc n") (auto simp: tree_covers_def)
    ultimately show ?thesis by blast
  next
    case (Some h')
    with Suc show ?thesis by (auto simp: tree_covers_def)
  qed
qed

lemma multi_match_None:
  "n < length P \<Longrightarrow> multi_match mx P n = None \<Longrightarrow> length segs \<le> n \<Longrightarrow>
   tree_covers (segs, True) P \<Longrightarrow> map_of mx (segs, True) = None"
proof (induction n)
  case 0
  then show ?case by simp
next
  case (Suc n)
  then show ?case
    by (cases "length segs = Suc n") (auto simp: tree_covers_def split: option.splits)
qed

lemma mux_match_Some:
  assumes "mux_match mx (CHR ''/'' # p) = Some (pt, h)"
  defines "P \<equiv> Split p CHR ''/''"
  shows "map_of mx pt = Some h" and "tree_covers pt P"
    and "map_of mx pt' \<noteq> None \<Longrightarrow> tree_covers pt' P \<Longrightarrow> pt' = pt \<or> snd pt' \<and> (snd pt \<longrightarrow> length (fst pt') < length (fst pt))"
proof -
  have len: "length P - 1 < length P" by (simp add: P_def)
  consider (lit) "pt = (P, False)" "map_of mx pt = Some h"
    | (sub) "map_of mx (P, False) = None" "multi_match mx P (length P - 1) = Some (pt, h)"
    using assms(1) by (auto simp: mux_match_def P_def Let_def split: option.splits)
  note cs = this
  from cs show "map_of mx pt = Some h" using multi_match_Some[OF len, of mx pt h] by cases (simp_all del: split_paired_All)
  from cs show "tree_covers pt P"
    using multi_match_Some[OF len, of mx pt h] by cases (simp_all add: tree_covers_def)
  assume d: "map_of mx pt' \<noteq> None" and c: "tree_covers pt' P"
  from cs show "pt' = pt \<or> snd pt' \<and> (snd pt \<longrightarrow> length (fst pt') < length (fst pt))"
  proof cases
    case lit
    with c show ?thesis by (cases pt') (auto simp: tree_covers_def split: if_splits)
  next
    case sub
    from sub(1) d c have t: "snd pt'" by (cases pt') (auto simp: tree_covers_def split: if_splits)
    with c have "length (fst pt') \<le> length P - 1" by (auto simp: tree_covers_def)
    with multi_match_Some[OF len sub(2)] t d c
    have le: "length (fst pt') \<le> length (fst pt)" and s: "snd pt" and c2: "tree_covers pt P"
      by (cases pt', simp)+
    have "pt' = pt" if "length (fst pt') = length (fst pt)"
      using that t c s c2 by (simp add: tree_covers_def prod_eq_iff)
    with le t show ?thesis by fastforce
  qed
qed

lemma mux_match_None:
  assumes "mux_match mx (CHR ''/'' # p) = None" and "tree_covers pt (Split p CHR ''/'')"
  shows "map_of mx pt = None"
proof (cases pt)
  case (Pair segs m)
  let ?P = "Split p CHR ''/''"
  from assms(1) have n: "map_of mx (?P, False) = None" "multi_match mx ?P (length ?P - 1) = None"
    by (auto simp: mux_match_def Let_def split: option.splits)
  show ?thesis
  proof (cases m)
    case True
    with assms(2) Pair have "length segs \<le> length ?P - 1" by (auto simp: tree_covers_def)
    from multi_match_None[OF _ n(2) this] assms(2) Pair True show ?thesis by simp
  next
    case False
    with n assms(2) Pair show ?thesis by (simp add: tree_covers_def)
  qed
qed

end
