(* ===== verification/Vhosts.thy ===== *)
theory Vhosts
  imports Go_Mux Upstream_Picker Director Config_Load
begin

text \<open>
  From the configuration to the handlers (\<^verbatim>\<open>src/server.go\<close>): \<open>buildRouteHandler\<close> makes the handler
  of one route, \<open>buildMux\<close> registers the routes of a vhost, \<open>compileVHosts\<close> does so for every vhost
  and orders them, and \<open>matchHost\<close> picks one for a request. What a handler does with a request is in
  \<open>Serve\<close>.
\<close>

section \<open>The handler of a route\<close>

record proxyHandler =
  px_picker :: "upstreamPicker option"
  px_unixHosts :: "(string \<times> string) list"
  px_skipVerify :: bool
  px_dialTimeout :: duration
  px_clientTimeout :: duration

datatype routeKind =
    DirKind string bool
  | FileKind string int string
  | StatusKind int string
  | ProxyKind proxyHandler

text \<open>The kind of route inside its two wrappers, basic authentication and JWT.\<close>

record routeHandler =
  rh_path :: string
  rh_rc :: RouteConfig
  rh_kind :: routeKind
  rh_auth :: "Auth option"
  rh_jwt :: "JWTAuth option"

datatype routeError =
    BadDialTimeout string
  | BadTimeout string
  | PatternPanic string patternError

definition jwtFor :: "RouteConfig \<Rightarrow> Config \<Rightarrow> JWTAuth option" where
  "jwtFor rc cfg = (if SkipJwtAuth rc then None else cfg_JWTAuth cfg)"

text \<open>A timeout field: empty stands for the default.\<close>

definition timeoutOr :: "duration \<Rightarrow> string \<Rightarrow> duration option" where
  "timeoutOr dflt s = (if s = [] then Some dflt else ParseDuration s)"

definition unixHosts :: "Upstream list \<Rightarrow> (string \<times> string) list" where
  "unixHosts us = map (\<lambda>u. (url_Host (u_Parsed u), u_UnixSocket u)) (filter (\<lambda>u. u_UnixSocket u \<noteq> []) us)"

definition proxyHandlerOf :: "upstreamPicker option \<Rightarrow> RouteConfig \<Rightarrow> routeError + proxyHandler" where
  "proxyHandlerOf picker rc =
     (case timeoutOr (5 * second) (DialTimeout rc) of
        None \<Rightarrow> Inl (BadDialTimeout (DialTimeout rc))
      | Some dial \<Rightarrow>
          (case timeoutOr 0 (Timeout rc) of
             None \<Rightarrow> Inl (BadTimeout (Timeout rc))
           | Some client \<Rightarrow>
               Inr \<lparr>px_picker = picker, px_unixHosts = unixHosts (Upstreams rc),
                    px_skipVerify = (NoTLSVerify rc \<or> unixHosts (Upstreams rc) \<noteq> []),
                    px_dialTimeout = dial, px_clientTimeout = client\<rparr>))"

text \<open>\<^verbatim>\<open>DialContext\<close> of the transport: the socket that an address stands for, if any. The map is
  filled in the order of the upstreams, so the last entry for a label counts.\<close>

definition dialTarget :: "proxyHandler \<Rightarrow> string \<Rightarrow> string option" where
  "dialTarget px addr =
     map_of (rev (px_unixHosts px)) (case SplitHostPort addr of None \<Rightarrow> [] | Some (host, _) \<Rightarrow> host)"

definition routeKindOf ::
  "(string \<Rightarrow> bool) \<Rightarrow> upstreamPicker option \<Rightarrow> RouteConfig \<Rightarrow> routeError + routeKind" where
  "routeKindOf isDir picker rc =
     (if StaticFilePath rc \<noteq> [] then
        (if StaticDirListing rc \<or> isDir (StaticFilePath rc)
         then Inr (DirKind (StaticFilePath rc) (StaticDirListing rc))
         else Inr (FileKind (StaticFilePath rc) (StatusCode rc) (guessContentType (StaticFilePath rc))))
      else if StatusCode rc \<noteq> 0 then Inr (StatusKind (StatusCode rc) (StatusText rc))
      else (case proxyHandlerOf picker rc of Inl e \<Rightarrow> Inl e | Inr p \<Rightarrow> Inr (ProxyKind p)))"

definition buildRouteHandler ::
  "(string \<Rightarrow> bool) \<Rightarrow> string \<Rightarrow> upstreamPicker option \<Rightarrow> RouteConfig \<Rightarrow> Config \<Rightarrow> routeError + routeHandler"
where
  "buildRouteHandler isDir routePath picker rc cfg =
     (case routeKindOf isDir picker rc of
        Inl e \<Rightarrow> Inl e
      | Inr k \<Rightarrow> Inr \<lparr>rh_path = routePath, rh_rc = rc, rh_kind = k,
                       rh_auth = effectiveAuth rc cfg, rh_jwt = jwtFor rc cfg\<rparr>)"

section \<open>The multiplexer of a vhost\<close>

definition subtreeUpstream :: "Upstream \<Rightarrow> Upstream" where
  "subtreeUpstream u =
     (if HasSuffix (url_Path (u_Parsed u)) ''/'' then u
      else u\<lparr>u_URL := u_URL u @ ''/'',
             u_Parsed := (u_Parsed u)\<lparr>url_Path := url_Path (u_Parsed u) @ ''/''\<rparr>\<rparr>)"

definition pickerOf :: "Upstream list \<Rightarrow> upstreamPicker option" where
  "pickerOf us = (if us = [] then None else Some (newUpstreamPicker us))"

definition handleAt ::
  "(string \<Rightarrow> bool) \<Rightarrow> Config \<Rightarrow> RouteConfig \<Rightarrow> Upstream list \<Rightarrow> string \<Rightarrow> routeHandler mux \<Rightarrow>
   routeError + routeHandler mux" where
  "handleAt isDir cfg rc us pattern mx =
     (case buildRouteHandler isDir pattern (pickerOf us) rc cfg of
        Inl e \<Rightarrow> Inl e
      | Inr h \<Rightarrow> (case mux_Handle mx pattern h of
                      Inl e \<Rightarrow> Inl (PatternPanic pattern e)
                    | Inr mx' \<Rightarrow> Inr mx'))"

definition addRoute ::
  "(string \<Rightarrow> bool) \<Rightarrow> Config \<Rightarrow> string \<times> RouteConfig \<Rightarrow> routeHandler mux \<Rightarrow>
   routeError + routeHandler mux" where
  "addRoute isDir cfg prc mx =
     (case prc of (path, rc) \<Rightarrow>
        if HasSuffix path ''/'' then handleAt isDir cfg rc (Upstreams rc) path mx
        else (case handleAt isDir cfg rc (map subtreeUpstream (Upstreams rc)) (path @ ''/'') mx of
                Inl e \<Rightarrow> Inl e
              | Inr mx' \<Rightarrow> handleAt isDir cfg rc (Upstreams rc) path mx'))"

text \<open>The longest paths come first. Among paths of one length the order of Go's \<^verbatim>\<open>sort.Slice\<close> is
  not specified; it only shows in which of several errors is reported.\<close>

definition buildMux ::
  "(string \<Rightarrow> bool) \<Rightarrow> routes \<Rightarrow> Config \<Rightarrow> routeError + routeHandler mux" where
  "buildMux isDir routes cfg =
     rfold (addRoute isDir cfg) (sort_key (\<lambda>prc. - int (length (fst prc))) routes) []"

section \<open>Virtual hosts\<close>

record vhostEntry =
  ve_domains :: "string list"
  ve_mux :: "routeHandler mux"

definition matchHost :: "vhostEntry \<Rightarrow> string \<Rightarrow> bool" where
  "matchHost ve host \<longleftrightarrow> list_ex (\<lambda>d. d = ''*'' \<or> d = host) (ve_domains ve)"

definition isCatchAll :: "string list \<Rightarrow> bool" where
  "isCatchAll domains \<longleftrightarrow> list_ex (\<lambda>d. d = ''*'' \<or> d = []) domains"

definition compileVHost ::
  "(string \<Rightarrow> bool) \<Rightarrow> Config \<Rightarrow> VHost \<Rightarrow> routeError + vhostEntry" where
  "compileVHost isDir cfg vh =
     (case buildMux isDir (Routes vh) cfg of
        Inl e \<Rightarrow> Inl e
      | Inr mx \<Rightarrow> Inr \<lparr>ve_domains = map ToLower (Domains vh), ve_mux = mx\<rparr>)"

text \<open>\<^verbatim>\<open>sort.SliceStable\<close> by a key with two values is a stable partition.\<close>

definition compileVHosts ::
  "(string \<Rightarrow> bool) \<Rightarrow> Config \<Rightarrow> routeError + vhostEntry list \<times> bool" where
  "compileVHosts isDir cfg =
     (case rmap (compileVHost isDir cfg) (VHosts cfg) of
        Inl e \<Rightarrow> Inl e
      | Inr ves \<Rightarrow>
          let vhosts = stable_partition (\<lambda>ve. \<not> isCatchAll (ve_domains ve)) ves
          in Inr (vhosts, length vhosts = 1 \<and> isCatchAll (ve_domains (hd vhosts))))"

text \<open>The host of a request, as the dispatcher compares it, and the vhost it goes to.\<close>

definition requestHost :: "string \<Rightarrow> string" where
  "requestHost host =
     (let h = ToLower host in case SplitHostPort h of Some (h', _) \<Rightarrow> h' | None \<Rightarrow> h)"

definition dispatchHost :: "vhostEntry list \<times> bool \<Rightarrow> string \<Rightarrow> vhostEntry option" where
  "dispatchHost vs host =
     (case vs of (vhosts, singleMux) \<Rightarrow>
        if singleMux then Some (hd vhosts)
        else find (\<lambda>ve. matchHost ve (requestHost host)) vhosts)"

end
