(* ===== verification/Vhosts_Props.thy ===== *)
theory Vhosts_Props
  imports Vhosts
begin

text \<open>
  Dispatch: the multiplexer of a vhost serves a path by the longest route that covers it, two
  routes that differ in the trailing slash only cannot be registered, and a vhost that names the
  requested host is preferred to a catch-all.
\<close>

section \<open>What is registered\<close>

definition withFinalSlash :: "string \<Rightarrow> string" where
  "withFinalSlash R = (if HasSuffix R ''/'' then R else R @ ''/'')"

definition route_regs :: "string \<times> RouteConfig \<Rightarrow> (string \<times> Upstream list) list" where
  "route_regs prc =
     (case prc of (R, rc) \<Rightarrow>
        if HasSuffix R ''/'' then [(R, Upstreams rc)]
        else [(R @ ''/'', map subtreeUpstream (Upstreams rc)), (R, Upstreams rc)])"

definition registered ::
  "(string \<Rightarrow> bool) \<Rightarrow> Config \<Rightarrow> string \<times> RouteConfig \<Rightarrow> string \<Rightarrow> pattern \<Rightarrow> routeHandler \<Rightarrow> bool" where
  "registered isDir cfg prc s pt h \<longleftrightarrow>
     (\<exists>us. (s, us) \<in> set (route_regs prc) \<and> parsePattern s = Inr pt \<and>
           buildRouteHandler isDir s (pickerOf us) (snd prc) cfg = Inr h)"

text \<open>\<open>buildMux\<close> as one pass over all registrations of all routes.\<close>

definition all_regs :: "routes \<Rightarrow> ((string \<times> RouteConfig) \<times> string \<times> Upstream list) list" where
  "all_regs rs = concat (map (\<lambda>prc. map (Pair prc) (route_regs prc)) rs)"

fun regStep where
  "regStep isDir cfg (prc, s, us) mx = handleAt isDir cfg (snd prc) us s mx"

fun regEntry where
  "regEntry isDir cfg (prc, s, us) (pt, h) \<longleftrightarrow>
     parsePattern s = Inr pt \<and> buildRouteHandler isDir s (pickerOf us) (snd prc) cfg = Inr h"

lemma addRoute_regs: "addRoute isDir cfg prc mx = rfold (regStep isDir cfg) (map (Pair prc) (route_regs prc)) mx"
  by (cases prc) (auto simp: addRoute_def route_regs_def split: sum.splits)

lemma addRoutes_regs: "rfold (addRoute isDir cfg) rs mx = rfold (regStep isDir cfg) (all_regs rs) mx"
proof (induction rs arbitrary: mx)
  case (Cons prc rs)
  then show ?case
    by (auto simp: all_regs_def rfold_append addRoute_regs split: sum.split)
qed (simp add: all_regs_def)

lemma regs_Inr:
  "rfold (regStep isDir cfg) xs mx = Inr mx' \<Longrightarrow> distinct (map fst mx) \<Longrightarrow>
   \<exists>hs. mx' = rev hs @ mx \<and> list_all2 (regEntry isDir cfg) xs hs \<and> distinct (map fst mx')"
proof (induction xs arbitrary: mx)
  case (Cons x xs)
  obtain prc s us where x: "x = (prc, s, us)" by (cases x)
  with Cons.prems(1) obtain mx1 where 1: "handleAt isDir cfg (snd prc) us s mx = Inr mx1"
    and 2: "rfold (regStep isDir cfg) xs mx1 = Inr mx'" by (auto split: sum.splits)
  from 1 obtain h pt where mx1: "mx1 = (pt, h) # mx" and n: "pt \<notin> fst ` set mx"
    and e: "regEntry isDir cfg x (pt, h)"
    by (auto simp: x handleAt_def mux_Handle_def map_of_eq_None_iff split: sum.splits if_splits)
  from n mx1 Cons.prems(2) have "distinct (map fst mx1)" by simp
  from Cons.IH[OF 2 this] obtain hs where "mx' = rev hs @ mx1" "list_all2 (regEntry isDir cfg) xs hs"
    "distinct (map fst mx')" by blast
  with e mx1 show ?case by (intro exI[of _ "(pt, h) # hs"]) simp
qed simp

lemma all_regs_mem: "(prc, s, us) \<in> set (all_regs rs) \<longleftrightarrow> prc \<in> set rs \<and> (s, us) \<in> set (route_regs prc)"
  by (auto simp: all_regs_def)

lemma all_regs_registered:
  "(\<exists>x \<in> set (all_regs rs). regEntry isDir cfg x (pt, h)) \<longleftrightarrow>
   (\<exists>prc \<in> set rs. \<exists>s. registered isDir cfg prc s pt h)"
proof
  assume "\<exists>x \<in> set (all_regs rs). regEntry isDir cfg x (pt, h)"
  then obtain prc s us where "(prc, s, us) \<in> set (all_regs rs)" "regEntry isDir cfg (prc, s, us) (pt, h)"
    by (metis prod_cases3)
  then show "\<exists>prc \<in> set rs. \<exists>s. registered isDir cfg prc s pt h"
    by (auto simp: all_regs_mem registered_def)
next
  assume "\<exists>prc \<in> set rs. \<exists>s. registered isDir cfg prc s pt h"
  then obtain prc s us where "(prc, s, us) \<in> set (all_regs rs)" "regEntry isDir cfg (prc, s, us) (pt, h)"
    by (auto simp: all_regs_mem registered_def)
  then show "\<exists>x \<in> set (all_regs rs). regEntry isDir cfg x (pt, h)" by blast
qed

text \<open>The mux of a vhost holds what the routes register, each pattern once.\<close>

lemma buildMux_entries:
  assumes "buildMux isDir rs cfg = Inr mx"
  obtains xs hs where "mx = rev hs" and "distinct (map fst hs)"
    and "list_all2 (regEntry isDir cfg) xs hs"
    and "\<And>prc s us. (prc, s, us) \<in> set xs \<longleftrightarrow> prc \<in> set rs \<and> (s, us) \<in> set (route_regs prc)"
    and "\<And>pt h. (\<exists>x \<in> set xs. regEntry isDir cfg x (pt, h)) \<longleftrightarrow>
           (\<exists>prc \<in> set rs. \<exists>s. registered isDir cfg prc s pt h)"
proof -
  let ?rs = "sort_key (\<lambda>prc. - int (length (fst prc))) rs"
  from assms have "rfold (regStep isDir cfg) (all_regs ?rs) [] = Inr mx"
    by (simp add: buildMux_def addRoutes_regs)
  from regs_Inr[OF this] obtain hs where "mx = rev hs"
    "list_all2 (regEntry isDir cfg) (all_regs ?rs) hs" "distinct (map fst hs)"
    by (auto simp: rev_map[symmetric])
  then show thesis by (intro that[of hs "all_regs ?rs"]) (simp_all add: all_regs_mem all_regs_registered)
qed

lemma entry_at:
  "list_all2 (regEntry isDir cfg) xs hs \<Longrightarrow> x \<in> set xs \<Longrightarrow>
   \<exists>i < length hs. xs ! i = x \<and> regEntry isDir cfg x (hs ! i)"
  by (auto simp: list_all2_conv_all_nth in_set_conv_nth)

lemma regEntry_unique: "regEntry isDir cfg x e \<Longrightarrow> regEntry isDir cfg x e' \<Longrightarrow> e = e'"
  by (cases x; cases e; cases e') auto

lemma buildMux_map:
  assumes "buildMux isDir rs cfg = Inr mx"
  shows "map_of mx pt = Some h \<longleftrightarrow> (\<exists>prc \<in> set rs. \<exists>s. registered isDir cfg prc s pt h)"
  using assms
proof (rule buildMux_entries)
  fix xs hs
  assume mx: "mx = rev hs" "distinct (map fst hs)"
    and l: "list_all2 (regEntry isDir cfg) xs hs"
    and r: "\<And>pt h. (\<exists>x \<in> set xs. regEntry isDir cfg x (pt, h)) \<longleftrightarrow>
           (\<exists>prc \<in> set rs. \<exists>s. registered isDir cfg prc s pt h)"
  from mx have "map_of mx pt = Some h \<longleftrightarrow> (pt, h) \<in> set hs"
    by (simp add: map_of_eq_Some_iff rev_map[symmetric])
  also have "\<dots> \<longleftrightarrow> (\<exists>x \<in> set xs. regEntry isDir cfg x (pt, h))"
  proof
    assume "(pt, h) \<in> set hs"
    with l show "\<exists>x \<in> set xs. regEntry isDir cfg x (pt, h)"
      by (auto simp: list_all2_conv_all_nth in_set_conv_nth) (metis nth_mem)
  next
    assume "\<exists>x \<in> set xs. regEntry isDir cfg x (pt, h)"
    with entry_at[OF l] show "(pt, h) \<in> set hs" by (metis nth_mem regEntry_unique)
  qed
  finally show ?thesis by (simp only: r)
qed

lemma buildMux_all:
  assumes "buildMux isDir rs cfg = Inr mx" and "prc \<in> set rs" and "(s, us) \<in> set (route_regs prc)"
  shows "\<exists>pt h. registered isDir cfg prc s pt h"
  using assms(1)
proof (rule buildMux_entries)
  fix xs hs
  assume "list_all2 (regEntry isDir cfg) xs hs"
    and "\<And>prc s us. (prc, s, us) \<in> set xs \<longleftrightarrow> prc \<in> set rs \<and> (s, us) \<in> set (route_regs prc)"
  with assms(2,3) entry_at[of isDir cfg xs hs "(prc, s, us)"] obtain e where "regEntry isDir cfg (prc, s, us) e"
    by blast
  with assms(3) show ?thesis by (cases e) (auto simp: registered_def)
qed

lemma buildMux_unique:
  assumes "buildMux isDir rs cfg = Inr mx" and "prc \<in> set rs" and "prc' \<in> set rs"
    and "registered isDir cfg prc s pt h" and "registered isDir cfg prc' s' pt h'"
  shows "prc' = prc"
  using assms(1)
proof (rule buildMux_entries)
  fix xs hs
  assume d: "distinct (map fst hs)" and l: "list_all2 (regEntry isDir cfg) xs hs"
    and m: "\<And>prc s us. (prc, s, us) \<in> set xs \<longleftrightarrow> prc \<in> set rs \<and> (s, us) \<in> set (route_regs prc)"
  from assms(2-) m obtain us us' where x: "(prc, s, us) \<in> set xs" "(prc', s', us') \<in> set xs"
    and e: "parsePattern s = Inr pt" "parsePattern s' = Inr pt"
    by (auto simp: registered_def)
  from entry_at[OF l x(1)] entry_at[OF l x(2)] obtain i j where ij: "i < length hs" "j < length hs"
    "xs ! i = (prc, s, us)" "xs ! j = (prc', s', us')"
    "regEntry isDir cfg (prc, s, us) (hs ! i)" "regEntry isDir cfg (prc', s', us') (hs ! j)" by blast
  with e have "fst (hs ! i) = pt" "fst (hs ! j) = pt" by (cases "hs ! i", cases "hs ! j", simp)+
  with d ij have "i = j" by (metis distinct_conv_nth length_map nth_map)
  with ij show "prc' = prc" by simp
qed

section \<open>Dispatch by the longest route\<close>

text \<open>A route covers its own path and everything below it.\<close>

definition routeCovers :: "string \<Rightarrow> string \<Rightarrow> bool" where
  "routeCovers R p \<longleftrightarrow> p = R \<or> HasPrefix p (withFinalSlash R)"

definition plainRoutes :: "routes \<Rightarrow> bool" where
  "plainRoutes rs \<longleftrightarrow> list_all (\<lambda>(R, rc). CHR ''%'' \<notin> set R) rs"

lemma route_regs_covers:
  "routeCovers R p \<longleftrightarrow> (\<exists>(s, us) \<in> set (route_regs (R, rc)). pat_covers s p)"
  by (auto simp: routeCovers_def withFinalSlash_def route_regs_def pat_covers_def HasSuffix_one HasPrefix_def)

lemma registered_text:
  assumes "registered isDir cfg (R, rc) s pt h" and "CHR ''%'' \<notin> set R"
  shows "tree_covers pt (Split p CHR ''/'') \<longleftrightarrow> pat_covers s (CHR ''/'' # p)"
    and "CHR ''%'' \<notin> set s" and "parsePattern s = Inr pt" and "s = R \<or> s = withFinalSlash R"
  using assms tree_covers_text[of s pt p]
  by (auto simp: registered_def route_regs_def withFinalSlash_def split: if_splits)

lemma parsePattern_multi:
  assumes "parsePattern s = Inr pt" and "CHR ''%'' \<notin> set s"
  shows "snd pt \<longleftrightarrow> HasSuffix s ''/''"
    and "snd pt \<Longrightarrow> Split (tl s) CHR ''/'' = fst pt @ [[]]"
    and "\<not> snd pt \<Longrightarrow> Split (tl s) CHR ''/'' = fst pt \<and> last (fst pt) \<noteq> []"
proof -
  obtain s' where s: "s = CHR ''/'' # s'"
    and sp: "Split s' CHR ''/'' = fst pt @ (if snd pt then [[]] else [])"
    and l: "snd pt = False \<Longrightarrow> last (fst pt) \<noteq> []"
    using parsePattern_plain[of s "fst pt" "snd pt"] assms by (metis prod.collapse)
  from sp l last_Split[of s' "CHR ''/''"] show "snd pt \<longleftrightarrow> HasSuffix s ''/''"
    by (auto simp: s HasSuffix_one split: if_splits)
  from sp show "snd pt \<Longrightarrow> Split (tl s) CHR ''/'' = fst pt @ [[]]" by (simp add: s)
  from sp l show "\<not> snd pt \<Longrightarrow> Split (tl s) CHR ''/'' = fst pt \<and> last (fst pt) \<noteq> []" by (simp add: s)
qed


lemma covers_length:
  assumes "parsePattern s = Inr pt" "CHR ''%'' \<notin> set s" "parsePattern s' = Inr pt'" "CHR ''%'' \<notin> set s'"
    and "pat_covers s p" "pat_covers s' p" "snd pt'" "snd pt \<Longrightarrow> length (fst pt') < length (fst pt)"
  shows "length s' < length s"
proof -
  note m = parsePattern_multi[OF assms(1,2)] and m' = parsePattern_multi[OF assms(3,4)]
  from assms(6,7) m'(1) have p': "prefix s' p" by (simp add: pat_covers_def HasPrefix_def)
  show ?thesis
  proof (cases "snd pt")
    case True
    with assms(5) m(1) have p: "prefix s p" by (simp add: pat_covers_def HasPrefix_def)
    show ?thesis
    proof (rule ccontr)
      assume "\<not> length s' < length s"
      then have "prefix s s'" using prefix_length_prefix[OF p p'] by simp
      moreover obtain t t' where t: "s = CHR ''/'' # t" "s' = CHR ''/'' # t'"
        using assms(1-4) by (metis parsePattern_plain prod.collapse)
      ultimately have "prefix t t'" by simp
      with Split_prefix[of t "CHR ''/''" "fst pt" t'] m(2) m'(2) True assms(7) t
      have "length (fst pt) < length (fst pt' @ [[]])" by simp
      with assms(8) True show False by simp
    qed
  next
    case False
    with assms(5) m(1) have "p = s" by (simp add: pat_covers_def)
    moreover have "s' \<noteq> s" using False m(1) m'(1) assms(7) by auto
    ultimately show ?thesis using p' by (metis prefix_length_le prefix_order.antisym le_neq_implies_less prefix_length_prefix prefix_order.refl)
  qed
qed

lemma plainRoutes_mem: "plainRoutes rs \<Longrightarrow> (R, rc) \<in> set rs \<Longrightarrow> CHR ''%'' \<notin> set R"
  by (auto simp: plainRoutes_def list_all_iff)

lemma served_maximal:
  assumes b: "buildMux isDir rs cfg = Inr mx" and pl: "plainRoutes rs"
    and m: "mux_match mx (CHR ''/'' # p) = Some (pt, h)"
    and R: "(R, rc) \<in> set rs" "registered isDir cfg (R, rc) s pt h" "pat_covers s (CHR ''/'' # p)"
    and R': "(R', rc') \<in> set rs" "routeCovers R' (CHR ''/'' # p)"
  shows "length R' \<le> length R"
proof -
  note rt = registered_text[OF R(2) plainRoutes_mem[OF pl R(1)]]
  from R'(2) obtain s' us where s': "(s', us) \<in> set (route_regs (R', rc'))" "pat_covers s' (CHR ''/'' # p)"
    by (auto simp: route_regs_covers[of R' _ rc'])
  from buildMux_all[OF b R'(1) s'(1)] obtain pt' h'
    where reg': "registered isDir cfg (R', rc') s' pt' h'" by blast
  note rt' = registered_text[OF reg' plainRoutes_mem[OF pl R'(1)]]
  from buildMux_map[OF b] reg' R'(1) have "map_of mx pt' \<noteq> None" by blast
  from mux_match_Some(3)[OF m this] s'(2) rt'(1)
  have c: "pt' = pt \<or> snd pt' \<and> (snd pt \<longrightarrow> length (fst pt') < length (fst pt))" by blast
  show ?thesis
  proof (cases "pt' = pt")
    case True
    with buildMux_unique[OF b R(1) R'(1) R(2)] reg' show ?thesis by simp
  next
    case False
    with covers_length[OF rt(3,2) rt'(3,2) R(3) s'(2)] c have "length s' < length s" by blast
    moreover have "length R' \<le> length s'" "length s \<le> Suc (length R)"
      using rt(4) rt'(4) by (auto simp: withFinalSlash_def)
    ultimately show ?thesis by simp
  qed
qed

lemma served_longest:
  assumes b: "buildMux isDir rs cfg = Inr mx" and pl: "plainRoutes rs"
    and m: "mux_match mx (CHR ''/'' # p) = Some (pt, h)"
  shows "\<exists>(R, rc) \<in> set rs. routeCovers R (CHR ''/'' # p) \<and>
           registered isDir cfg (R, rc) (if CHR ''/'' # p = R then R else withFinalSlash R) pt h \<and>
           (\<forall>(R', rc') \<in> set rs. routeCovers R' (CHR ''/'' # p) \<longrightarrow> length R' \<le> length R)"
proof -
  let ?p = "CHR ''/'' # p"
  from buildMux_map[OF b] mux_match_Some(1)[OF m] obtain R rc s
    where R: "(R, rc) \<in> set rs" and reg: "registered isDir cfg (R, rc) s pt h" by auto
  note rt = registered_text[OF reg plainRoutes_mem[OF pl R]]
  from mux_match_Some(2)[OF m] rt(1) have cov: "pat_covers s ?p" by blast
  then have "routeCovers R ?p"
    using reg by (auto simp: route_regs_covers[of R _ rc] registered_def)
  moreover have "s = (if ?p = R then R else withFinalSlash R)"
  proof (cases "HasSuffix R ''/''")
    case False
    with cov rt(4) show ?thesis
      by (auto simp: pat_covers_def withFinalSlash_def HasSuffix_one HasPrefix_def)
  qed (use rt(4) in \<open>simp add: withFinalSlash_def\<close>)
  ultimately show ?thesis using R reg served_maximal[OF b pl m R reg cov] by blast
qed

lemma served_none:
  assumes b: "buildMux isDir rs cfg = Inr mx" and pl: "plainRoutes rs"
    and m: "mux_match mx (CHR ''/'' # p) = None" and R: "(R, rc) \<in> set rs"
  shows "\<not> routeCovers R (CHR ''/'' # p)"
proof
  assume "routeCovers R (CHR ''/'' # p)"
  then obtain s us where s: "(s, us) \<in> set (route_regs (R, rc))" "pat_covers s (CHR ''/'' # p)"
    by (auto simp: route_regs_covers[of R _ rc])
  from buildMux_all[OF b R s(1)] obtain pt h where reg: "registered isDir cfg (R, rc) s pt h" by blast
  from mux_match_None[OF m] registered_text(1)[OF reg plainRoutes_mem[OF pl R]] s(2)
  have "map_of mx pt = None" by blast
  moreover have "map_of mx pt = Some h" using buildMux_map[OF b] R reg by blast
  ultimately show False by simp
qed

text \<open>A redirect adds the slash that a route asks for.\<close>

lemma count_slash: "length (Split p CHR ''/'') = Suc (length (filter (\<lambda>c. c = CHR ''/'') p))"
proof (induction p)
  case (Cons c p)
  then show ?case by (cases "Split p CHR ''/''") auto
qed simp

lemma exact_subtree:
  assumes b: "buildMux isDir rs cfg = Inr mx" and pl: "plainRoutes rs"
    and e: "exactMatch (mux_match mx (CHR ''/'' # p @ ''/'')) (CHR ''/'' # p @ ''/'')"
  shows "\<exists>(R, rc) \<in> set rs. withFinalSlash R = CHR ''/'' # p @ ''/''"
proof -
  let ?p = "CHR ''/'' # p @ ''/''"
  from e obtain pt h where m: "mux_match mx ?p = Some (pt, h)"
    by (cases "mux_match mx ?p") (auto simp: exactMatch_def)
  from buildMux_map[OF b] mux_match_Some(1)[OF m] obtain R rc s
    where R: "(R, rc) \<in> set rs" and reg: "registered isDir cfg (R, rc) s pt h" by auto
  note rt = registered_text[OF reg plainRoutes_mem[OF pl R]]
  note mu = parsePattern_multi[OF rt(3,2)]
  from mux_match_Some(2)[OF m] have t: "tree_covers pt (Split (p @ ''/'') CHR ''/'')" by simp
  have sp: "Split (p @ ''/'') CHR ''/'' = Split p CHR ''/'' @ [[]]"
    using Split_append_sep[of p "CHR ''/''" "[]"] by simp
  have multi: "snd pt"
  proof (rule ccontr)
    assume "\<not> snd pt"
    with t mu(3) sp have "fst pt = Split p CHR ''/'' @ [[]]" "last (fst pt) \<noteq> []"
      by (simp_all add: tree_covers_def)
    then show False by simp
  qed
  with e m have "length (fst pt) = length (Split p CHR ''/'')"
    by (cases pt) (simp add: exactMatch_def count_slash)
  with t multi sp have "fst pt = Split p CHR ''/''" by (simp add: tree_covers_def)
  with mu(2)[OF multi] sp have "tl s = p @ ''/''" by (metis Split_inj)
  moreover obtain s' where "s = CHR ''/'' # s'"
    using parsePattern_plain[of s "fst pt" "snd pt"] rt(2,3) by (metis prod.collapse)
  moreover from multi mu(1) rt(4) have "s = withFinalSlash R" by (auto simp: withFinalSlash_def)
  ultimately show ?thesis using R by (intro bexI[of _ "(R, rc)"]) auto
qed


text \<open>What the multiplexer may answer to a clean path.\<close>

definition dispatch_spec ::
  "(string \<Rightarrow> bool) \<Rightarrow> Config \<Rightarrow> routes \<Rightarrow> string \<Rightarrow> routeHandler muxResult \<Rightarrow> bool" where
  "dispatch_spec isDir cfg rs p res \<longleftrightarrow>
     (case res of
        mux_Serve h \<Rightarrow>
          (\<exists>(R, rc) \<in> set rs. routeCovers R p \<and>
             (\<forall>(R', rc') \<in> set rs. routeCovers R' p \<longrightarrow> length R' \<le> length R) \<and>
             (\<exists>pt. registered isDir cfg (R, rc) (if p = R then R else withFinalSlash R) pt h))
      | mux_Redirect q \<Rightarrow> q = p @ ''/'' \<and> (\<exists>(R, rc) \<in> set rs. R = q) \<and> (\<forall>(R, rc) \<in> set rs. R \<noteq> p)
      | mux_NotFound \<Rightarrow> (\<forall>(R, rc) \<in> set rs. \<not> routeCovers R p))"

lemma cleanPath_head: "\<exists>p'. cleanPath p = CHR ''/'' # p'"
  by (auto simp: cleanPath_def path_Clean_def Let_def)

text \<open>A registered path without final slash is matched exactly.\<close>

lemma exact_route:
  assumes b: "buildMux isDir rs cfg = Inr mx" and pl: "plainRoutes rs"
    and R: "(CHR ''/'' # p, rc) \<in> set rs" and n: "\<not> HasSuffix (CHR ''/'' # p) ''/''"
  shows "exactMatch (mux_match mx (CHR ''/'' # p)) (CHR ''/'' # p)"
proof -
  let ?R = "CHR ''/'' # p"
  have "(?R, Upstreams rc) \<in> set (route_regs (?R, rc))" using n by (simp add: route_regs_def)
  from buildMux_all[OF b R this] obtain pt h where reg: "registered isDir cfg (?R, rc) ?R pt h" by blast
  note rt = registered_text[OF reg plainRoutes_mem[OF pl R]]
  from parsePattern_multi[OF rt(3,2)] n have pt: "pt = (Split p CHR ''/'', False)"
    by (cases pt) auto
  have "map_of mx pt = Some h" using buildMux_map[OF b] R reg by blast
  with pt show ?thesis by (simp add: mux_match_def exactMatch_def)
qed

lemma dispatch_routes:
  assumes "buildMux isDir rs cfg = Inr mx" and "plainRoutes rs" and "cleanPath p = p"
  shows "dispatch_spec isDir cfg rs p (findHandler mx p)"
proof -
  obtain p0 where p: "p = CHR ''/'' # p0" using cleanPath_head[of p] assms(3) by auto
  let ?redir = "\<not> exactMatch (mux_match mx p) p \<and> \<not> HasSuffix p ''/'' \<and>
     exactMatch (mux_match mx (p @ ''/'')) (p @ ''/'')"
  show ?thesis
  proof (cases ?redir)
    case True
    with exact_subtree[OF assms(1,2), of p0] p obtain R rc
      where R: "(R, rc) \<in> set rs" "withFinalSlash R = p @ ''/''" by auto
    from True exact_route[OF assms(1,2), of p0] p have np: "\<forall>(R, rc) \<in> set rs. R \<noteq> p" by blast
    with R have "R = p @ ''/''" by (auto simp: withFinalSlash_def split: if_splits)
    with R np True assms(3) show ?thesis
      by (auto simp: findHandler_def Let_def dispatch_spec_def)
  next
    case False
    show ?thesis
    proof (cases "mux_match mx p")
      case None
      with False assms(3) have "findHandler mx p = mux_NotFound" by (auto simp: findHandler_def Let_def)
      with served_none[OF assms(1,2), of p0] None p show ?thesis by (auto simp: dispatch_spec_def)
    next
      case (Some e)
      then obtain pt h where m: "mux_match mx p = Some (pt, h)" by (cases e) auto
      with False assms(3) have "findHandler mx p = mux_Serve h" by (auto simp: findHandler_def Let_def)
      moreover from served_longest[OF assms(1,2), of p0 pt h] m p
      obtain R rc where "(R, rc) \<in> set rs" "routeCovers R p"
        "registered isDir cfg (R, rc) (if p = R then R else withFinalSlash R) pt h"
        "\<forall>(R', rc') \<in> set rs. routeCovers R' p \<longrightarrow> length R' \<le> length R" by auto
      ultimately show ?thesis unfolding dispatch_spec_def by (auto intro!: bexI[of _ "(R, rc)"] simp del: split_paired_Ex)
    qed
  qed
qed

text \<open>C6. The multiplexer built from the routes of a vhost serves a clean path by the route of that very
  path or else by the longest route above it, with the handler made for that route; it redirects to
  a route that only adds the final slash, and answers with 404 when no route is above the path.\<close>

theorem route_dispatch:
  assumes "buildMux isDir rs cfg = Inr mx" and "plainRoutes rs" and "cleanPath p = p"
  shows "dispatch_spec isDir cfg rs p (findHandler mx p)"
  by (rule dispatch_routes[OF assms])

definition demo_routes :: routes where
  "demo_routes = [(''/'', zeroRoute\<lparr>StatusCode := 404\<rparr>), (''/api'', zeroRoute\<lparr>StatusCode := 200\<rparr>),
     (''/files/'', zeroRoute\<lparr>StatusCode := 403\<rparr>)]"

definition demo_mux :: "routeHandler mux" where
  "demo_mux = (case buildMux (\<lambda>_. False) demo_routes zeroConfig of Inr mx \<Rightarrow> mx | Inl e \<Rightarrow> [])"

lemma demo_mux_built: "buildMux (\<lambda>_. False) demo_routes zeroConfig = Inr demo_mux"
proof -
  have "\<not> isl (buildMux (\<lambda>_. False) demo_routes zeroConfig)" by code_simp
  then show ?thesis by (cases "buildMux (\<lambda>_. False) demo_routes zeroConfig") (simp_all add: demo_mux_def)
qed

lemma route_dispatch_witness:
  "dispatch_spec (\<lambda>_. False) zeroConfig demo_routes ''/api/users'' (findHandler demo_mux ''/api/users'') \<and>
   dispatch_spec (\<lambda>_. False) zeroConfig demo_routes ''/files'' (findHandler demo_mux ''/files'') \<and>
   findHandler demo_mux ''/files'' = mux_Redirect ''/files/''"
proof (intro conjI)
  have pl: "plainRoutes demo_routes" by code_simp
  have c: "cleanPath ''/api/users'' = ''/api/users''" "cleanPath ''/files'' = ''/files''" by code_simp+
  from route_dispatch[OF demo_mux_built pl c(1)]
  show "dispatch_spec (\<lambda>_. False) zeroConfig demo_routes ''/api/users'' (findHandler demo_mux ''/api/users'')" .
  from route_dispatch[OF demo_mux_built pl c(2)]
  show "dispatch_spec (\<lambda>_. False) zeroConfig demo_routes ''/files'' (findHandler demo_mux ''/files'')" .
  show "findHandler demo_mux ''/files'' = mux_Redirect ''/files/''" by code_simp
qed


section \<open>Routes that cannot stand together\<close>

text \<open>Two routes that differ in the final slash only claim the same subtree: the multiplexer
  panics, when the server starts and when it reloads its configuration.\<close>

theorem slash_twins_rejected:
  assumes "(R, rc) \<in> set rs" and "(R @ ''/'', rc') \<in> set rs" and "\<not> HasSuffix R ''/''"
  shows "\<not> (\<exists>mx. buildMux isDir rs cfg = Inr mx)"
proof
  assume "\<exists>mx. buildMux isDir rs cfg = Inr mx"
  then obtain mx where b: "buildMux isDir rs cfg = Inr mx" ..
  have "(R @ ''/'', map subtreeUpstream (Upstreams rc)) \<in> set (route_regs (R, rc))"
    and "(R @ ''/'', Upstreams rc') \<in> set (route_regs (R @ ''/'', rc'))"
    using assms(3) by (simp_all add: route_regs_def HasSuffix_one)
  with buildMux_all[OF b assms(1)] buildMux_all[OF b assms(2)] obtain pt h pt' h'
    where r: "registered isDir cfg (R, rc) (R @ ''/'') pt h"
      and r': "registered isDir cfg (R @ ''/'', rc') (R @ ''/'') pt' h'" by blast
  then have "pt' = pt" by (auto simp: registered_def)
  with buildMux_unique[OF b assms(1,2) r] r' show False by simp
qed

definition twin_routes :: routes where
  "twin_routes = [(''/api'', zeroRoute\<lparr>StatusCode := 200\<rparr>), (''/api/'', zeroRoute\<lparr>StatusCode := 404\<rparr>)]"

lemma slash_twins_rejected_witness:
  "\<not> (\<exists>mx. buildMux (\<lambda>_. False) twin_routes zeroConfig = Inr mx) \<and>
   buildMux (\<lambda>_. False) twin_routes zeroConfig = Inl (PatternPanic ''/api/'' Conflict)"
proof
  show "\<not> (\<exists>mx. buildMux (\<lambda>_. False) twin_routes zeroConfig = Inr mx)"
    by (rule slash_twins_rejected[of "''/api''" "zeroRoute\<lparr>StatusCode := 200\<rparr>" _ "zeroRoute\<lparr>StatusCode := 404\<rparr>"])
      (simp_all add: twin_routes_def HasSuffix_one)
  show "buildMux (\<lambda>_. False) twin_routes zeroConfig = Inl (PatternPanic ''/api/'' Conflict)" by code_simp
qed

section \<open>Which vhost\<close>

definition lowerDomains :: "VHost \<Rightarrow> string list" where
  "lowerDomains vh = map ToLower (Domains vh)"

definition selectVHost :: "VHost list \<Rightarrow> string \<Rightarrow> VHost option" where
  "selectVHost vhs h =
     (if length vhs = 1 \<and> isCatchAll (lowerDomains (hd vhs)) then Some (hd vhs)
      else (case find (\<lambda>vh. \<not> isCatchAll (lowerDomains vh) \<and> h \<in> set (lowerDomains vh)) vhs of
              Some vh \<Rightarrow> Some vh
            | None \<Rightarrow> find (\<lambda>vh. isCatchAll (lowerDomains vh) \<and>
                               (''*'' \<in> set (lowerDomains vh) \<or> h \<in> set (lowerDomains vh))) vhs))"

lemma find_rel:
  "list_all2 R xs ys \<Longrightarrow> (\<And>x y. R x y \<Longrightarrow> P x = Q y) \<Longrightarrow> rel_option R (find P xs) (find Q ys)"
  by (induction rule: list_all2_induct) auto

lemma find_append: "find P (xs @ ys) = (case find P xs of Some x \<Rightarrow> Some x | None \<Rightarrow> find P ys)"
  by (induction xs) auto

lemma find_filter: "find P (filter Q xs) = find (\<lambda>x. Q x \<and> P x) xs"
  by (induction xs) auto

lemma compileVHost_domains: "compileVHost isDir cfg vh = Inr ve \<Longrightarrow> ve_domains ve = lowerDomains vh"
  by (auto simp: compileVHost_def lowerDomains_def split: sum.splits)

lemma compiled_vhost:
  assumes "compileVHost isDir cfg vh = Inr ve"
  shows "isCatchAll (ve_domains ve) \<longleftrightarrow> isCatchAll (lowerDomains vh)"
    and "matchHost ve h \<longleftrightarrow> ''*'' \<in> set (lowerDomains vh) \<or> h \<in> set (lowerDomains vh)"
  using compileVHost_domains[OF assms] by (auto simp: matchHost_def list_ex_iff)

lemma no_star: "\<not> isCatchAll ds \<Longrightarrow> ''*'' \<notin> set ds"
  by (auto simp: isCatchAll_def list_ex_iff)

lemma dispatch_select:
  assumes "compileVHosts isDir cfg = Inr vs"
  shows "rel_option (\<lambda>ve vh. compileVHost isDir cfg vh = Inr ve)
           (dispatchHost vs host) (selectVHost (VHosts cfg) (requestHost host))"
proof -
  let ?R = "\<lambda>ve vh. compileVHost isDir cfg vh = Inr ve"
  let ?P = "\<lambda>ve. \<not> isCatchAll (ve_domains ve)"
  let ?h = "requestHost host"
  from assms obtain ves where ves: "rmap (compileVHost isDir cfg) (VHosts cfg) = Inr ves"
    and vs: "vs = (stable_partition ?P ves, length (stable_partition ?P ves) = 1 \<and>
                    isCatchAll (ve_domains (hd (stable_partition ?P ves))))"
    by (auto simp: compileVHosts_def Let_def split: sum.splits)
  from ves have l: "list_all2 ?R ves (VHosts cfg)"
    by (auto simp: rmap_Inr_iff list_all2_conv_all_nth)
  show ?thesis
  proof (cases "length ves = 1")
    case True
    then obtain ve where one: "ves = [ve]" by (cases ves) auto
    with l obtain vh where vh: "VHosts cfg = [vh]" "?R ve vh" by (auto simp: list_all2_Cons1)
    note d = compileVHost_domains[OF vh(2)]
    have "stable_partition ?P ves = [ve]" by (simp add: one stable_partition_def)
    then have "dispatchHost vs host =
        (if isCatchAll (lowerDomains vh) \<or> matchHost ve ?h then Some ve else None)"
      by (simp add: vs dispatchHost_def d)
    moreover have "\<not> isCatchAll (lowerDomains vh) \<Longrightarrow> matchHost ve ?h \<longleftrightarrow> ?h \<in> set (lowerDomains vh)"
      by (auto simp: matchHost_def d isCatchAll_def list_ex_iff)
    ultimately show ?thesis using vh by (simp add: selectVHost_def)
  next
    case False
    have "dispatchHost vs host =
        (case find (\<lambda>ve. ?P ve \<and> matchHost ve ?h) ves of Some ve \<Rightarrow> Some ve
         | None \<Rightarrow> find (\<lambda>ve. \<not> ?P ve \<and> matchHost ve ?h) ves)"
      using False by (simp add: vs dispatchHost_def) (simp add: stable_partition_def find_append find_filter cong: option.case_cong)
    moreover have "rel_option ?R (find (\<lambda>ve. ?P ve \<and> matchHost ve ?h) ves)
      (find (\<lambda>vh. \<not> isCatchAll (lowerDomains vh) \<and> ?h \<in> set (lowerDomains vh)) (VHosts cfg))"
      using l by (rule find_rel) (use no_star in \<open>auto simp only: compiled_vhost\<close>)
    moreover have "rel_option ?R (find (\<lambda>ve. \<not> ?P ve \<and> matchHost ve ?h) ves)
      (find (\<lambda>vh. isCatchAll (lowerDomains vh) \<and>
         (''*'' \<in> set (lowerDomains vh) \<or> ?h \<in> set (lowerDomains vh))) (VHosts cfg))"
      using l by (rule find_rel) (simp only: compiled_vhost not_not)
    moreover from False l have "length (VHosts cfg) \<noteq> 1" by (simp add: list_all2_lengthD)
    ultimately show ?thesis by (auto simp: selectVHost_def split: option.split)
  qed
qed


text \<open>C5. The vhost that answers, in terms of the configuration: the first one that names the host and
  is no catch-all, else the first catch-all; a single catch-all vhost answers every request.\<close>

theorem vhost_dispatch:
  assumes "compileVHosts isDir cfg = Inr vs"
  shows "rel_option (\<lambda>ve vh. compileVHost isDir cfg vh = Inr ve)
           (dispatchHost vs host) (selectVHost (VHosts cfg) (requestHost host))"
  by (rule dispatch_select[OF assms])

definition demo_vhosts :: Config where
  "demo_vhosts = zeroConfig\<lparr>VHosts :=
     [\<lparr>Domains = [''*''], Routes = demo_routes, vh_TLS = None\<rparr>,
      \<lparr>Domains = [''Example.com''], Routes = [(''/'', zeroRoute\<lparr>StatusCode := 204\<rparr>)], vh_TLS = None\<rparr>]\<rparr>"

definition demo_compiled :: "vhostEntry list \<times> bool" where
  "demo_compiled = (case compileVHosts (\<lambda>_. False) demo_vhosts of Inr vs \<Rightarrow> vs | Inl e \<Rightarrow> ([], False))"

lemma vhost_dispatch_witness:
  "rel_option (\<lambda>ve vh. compileVHost (\<lambda>_. False) demo_vhosts vh = Inr ve)
     (dispatchHost demo_compiled ''EXAMPLE.com:8080'') (Some (VHosts demo_vhosts ! 1))"
proof -
  have "\<not> isl (compileVHosts (\<lambda>_. False) demo_vhosts)" by code_simp
  then have "compileVHosts (\<lambda>_. False) demo_vhosts = Inr demo_compiled"
    by (cases "compileVHosts (\<lambda>_. False) demo_vhosts") (simp_all add: demo_compiled_def)
  moreover have "selectVHost (VHosts demo_vhosts) (requestHost ''EXAMPLE.com:8080'') = Some (VHosts demo_vhosts ! 1)"
    by code_simp
  ultimately show ?thesis using vhost_dispatch[of "\<lambda>_. False" demo_vhosts demo_compiled "''EXAMPLE.com:8080''"] by simp
qed

text \<open>A vhost with an empty domain counts as a catch-all when the vhosts are ordered, and alone it
  answers every request; next to another vhost no request with a host reaches it.\<close>

theorem empty_domain_unmatched:
  assumes "compileVHosts isDir cfg = Inr vs" and "VHosts cfg = [a, b]" and "Domains a = [[]]"
    and "requestHost host \<notin> set (lowerDomains b)" and "''*'' \<notin> set (lowerDomains b)"
    and "[] \<notin> set (lowerDomains b)" and "requestHost host \<noteq> []"
  shows "isCatchAll (lowerDomains a) \<and> dispatchHost vs host = None"
proof
  show c: "isCatchAll (lowerDomains a)" using assms(3) by (simp add: lowerDomains_def isCatchAll_def ToLower_def)
  have "\<not> isCatchAll (lowerDomains b)" using assms(5,6) by (auto simp: isCatchAll_def list_ex_iff)
  moreover have "lowerDomains a = [[]]" using assms(3) by (simp add: lowerDomains_def ToLower_def)
  ultimately have "selectVHost (VHosts cfg) (requestHost host) = None"
    using assms(2,4,7) c by (simp add: selectVHost_def)
  with dispatch_select[OF assms(1), of host] show "dispatchHost vs host = None" by simp
qed

definition empty_vhosts :: Config where
  "empty_vhosts = zeroConfig\<lparr>VHosts :=
     [\<lparr>Domains = [[]], Routes = demo_routes, vh_TLS = None\<rparr>,
      \<lparr>Domains = [''example.com''], Routes = [(''/'', zeroRoute\<lparr>StatusCode := 204\<rparr>)], vh_TLS = None\<rparr>]\<rparr>"

lemma empty_domain_unmatched_witness:
  "dispatchHost (case compileVHosts (\<lambda>_. False) empty_vhosts of Inr vs \<Rightarrow> vs | Inl e \<Rightarrow> ([], False)) ''other.org'' = None"
proof -
  have "\<not> isl (compileVHosts (\<lambda>_. False) empty_vhosts)" by code_simp
  then obtain vs where vs: "compileVHosts (\<lambda>_. False) empty_vhosts = Inr vs"
    by (cases "compileVHosts (\<lambda>_. False) empty_vhosts") simp_all
  have h: "requestHost ''other.org'' = ''other.org''" by code_simp
  have d: "lowerDomains (VHosts empty_vhosts ! 1) = [''example.com'']" by code_simp
  have "isCatchAll (lowerDomains (VHosts empty_vhosts ! 0)) \<and> dispatchHost vs ''other.org'' = None"
    by (rule empty_domain_unmatched[OF vs, of _ "VHosts empty_vhosts ! 1"])
      (simp_all only: h d, simp_all add: empty_vhosts_def)
  with vs show ?thesis by simp
qed

end
