(* ===== verification/Go_Base64.thy ===== *)
theory Go_Base64
  imports Go_Strings
begin

text \<open>
  Decoding of package \<^verbatim>\<open>encoding/base64\<close>: the standard alphabet with padding (basic
  authentication) and the URL alphabet without padding (JSON Web Keys). Carriage returns and
  newlines are skipped; left-over bits of the last group are not checked, as in Go's default mode.
\<close>

definition sextet :: "char \<Rightarrow> char \<Rightarrow> char \<Rightarrow> int option" where
  "sextet c62 c63 c =
     (let n = (of_char c :: int) in
      if 65 \<le> n \<and> n \<le> 90 then Some (n - 65)
      else if 97 \<le> n \<and> n \<le> 122 then Some (n - 71)
      else if 48 \<le> n \<and> n \<le> 57 then Some (n + 4)
      else if c = c62 then Some 62
      else if c = c63 then Some 63
      else None)"

fun sextets :: "char \<Rightarrow> char \<Rightarrow> string \<Rightarrow> int list option" where
  "sextets c62 c63 [] = Some []"
| "sextets c62 c63 (c # cs) =
     (case sextet c62 c63 c of
        None \<Rightarrow> None
      | Some n \<Rightarrow> (case sextets c62 c63 cs of None \<Rightarrow> None | Some ns \<Rightarrow> Some (n # ns)))"

fun quanta :: "int list \<Rightarrow> int list option" where
  "quanta [] = Some []"
| "quanta [a] = None"
| "quanta [a, b] = Some [a * 4 + b div 16]"
| "quanta [a, b, c] = Some [a * 4 + b div 16, b mod 16 * 16 + c div 4]"
| "quanta (a # b # c # d # r) =
     (case quanta r of
        None \<Rightarrow> None
      | Some bs \<Rightarrow> Some ((a * 4 + b div 16) # (b mod 16 * 16 + c div 4) # (c mod 4 * 64 + d) # bs))"

definition no_crlf :: "string \<Rightarrow> string" where
  "no_crlf s = filter (\<lambda>c. c \<noteq> CHR 0x0D \<and> c \<noteq> CHR 0x0A) s"

definition decode64 :: "char \<Rightarrow> char \<Rightarrow> string \<Rightarrow> string option" where
  "decode64 c62 c63 s =
     (case sextets c62 c63 s of
        None \<Rightarrow> None
      | Some ns \<Rightarrow> map_option (map char_of) (quanta ns))"

definition RawURLEncoding_Decode :: "string \<Rightarrow> string option" where
  "RawURLEncoding_Decode s = decode64 CHR ''-'' CHR ''_'' (no_crlf s)"

definition StdEncoding_Decode :: "string \<Rightarrow> string option" where
  "StdEncoding_Decode s =
     (let t = no_crlf s in
      if length t mod 4 \<noteq> 0 then None
      else decode64 CHR ''+'' CHR ''/''
             (if HasSuffix t ''=='' then TrimSuffix t ''=='' else TrimSuffix t ''=''))"

lemma base64_samples:
  "StdEncoding_Decode ''dXNlcjpwYXNz'' = Some ''user:pass''"
  "StdEncoding_Decode ''dTpw'' = Some ''u:p''"
  "StdEncoding_Decode ''YQ=='' = Some ''a''"
  "StdEncoding_Decode ''YWI='' = Some ''ab''"
  "StdEncoding_Decode ''YWI'' = None"
  "StdEncoding_Decode ''===='' = None"
  "RawURLEncoding_Decode ''AQAB'' = Some [CHR 0x01, CHR 0x00, CHR 0x01]"
  "RawURLEncoding_Decode ''YQ'' = Some ''a''"
  "RawURLEncoding_Decode ''Y'' = None"
  "RawURLEncoding_Decode ''YQ=='' = None"
  by code_simp+

end
