(* ===== verification/Jwks.thy ===== *)
theory Jwks
  imports Go_Base64 Go_Time "HOL-Library.Word"
begin

text \<open>
  JSON Web Keys and their cache (\<^verbatim>\<open>src/jwtverify/jwkscache.go\<close>, \<^verbatim>\<open>src/jwtverify/jwthelpers.go\<close> and
  the last part of \<^verbatim>\<open>src/jwtverify/jwtverify.go\<close>). The HTTP client and the JSON decoder are
  parameters; the cache is a map of the state.
\<close>

section \<open>Keys\<close>

datatype curve = P256 | P384 | P521

text \<open>The keys that verification may use: a shared secret, \<^verbatim>\<open>*rsa.PublicKey\<close>, \<^verbatim>\<open>*ecdsa.PublicKey\<close>.
  The exponent of an RSA key is a Go \<^verbatim>\<open>int\<close>.\<close>

datatype key = KBytes string | KRSA int "64 word" | KEC curve int int

record jwk =
  jwk_Kid :: string
  jwk_Kty :: string
  jwk_Alg :: string
  jwk_Use :: string
  jwk_N :: string
  jwk_E :: string
  jwk_Crv :: string
  jwk_X :: string
  jwk_Y :: string

definition base64URLDecodeBytes :: "string \<Rightarrow> string option" where
  "base64URLDecodeBytes s = RawURLEncoding_Decode s"

definition big_SetBytes :: "string \<Rightarrow> int" where
  "big_SetBytes bs = foldl (\<lambda>n b. n * 256 + of_char b) 0 bs"

definition base64URLDecodeBigInt :: "string \<Rightarrow> int option" where
  "base64URLDecodeBigInt s = map_option big_SetBytes (base64URLDecodeBytes s)"

definition curveByName :: "string \<Rightarrow> curve option" where
  "curveByName crv =
     (if crv = ''P-256'' then Some P256 else if crv = ''P-384'' then Some P384
      else if crv = ''P-521'' then Some P521 else None)"

text \<open>The loop \<^verbatim>\<open>e = e<<8 | int(b)\<close> drops what no longer fits 64 bits.\<close>

definition rsaExponent :: "string \<Rightarrow> 64 word" where
  "rsaExponent bs = foldl (\<lambda>e b. or (push_bit 8 e) (of_char b)) 0 bs"

definition parseRSAJWK :: "jwk \<Rightarrow> key option" where
  "parseRSAJWK k =
     (case base64URLDecodeBigInt (jwk_N k) of
        None \<Rightarrow> None
      | Some n \<Rightarrow>
          (case base64URLDecodeBytes (jwk_E k) of
             None \<Rightarrow> None
           | Some eBuf \<Rightarrow> Some (KRSA n (rsaExponent eBuf))))"

definition parseECJWK :: "jwk \<Rightarrow> key option" where
  "parseECJWK k =
     (case curveByName (jwk_Crv k) of
        None \<Rightarrow> None
      | Some crv \<Rightarrow>
          (case base64URLDecodeBigInt (jwk_X k) of
             None \<Rightarrow> None
           | Some x \<Rightarrow>
               (case base64URLDecodeBigInt (jwk_Y k) of
                  None \<Rightarrow> None
                | Some y \<Rightarrow> Some (KEC crv x y))))"

definition jwkToPublicKey :: "jwk \<Rightarrow> key option" where
  "jwkToPublicKey k =
     (if jwk_Kty k = ''RSA'' then parseRSAJWK k
      else if jwk_Kty k = ''EC'' then parseECJWK k
      else None)"

section \<open>Fetching\<close>

text \<open>\<^verbatim>\<open>strconv.ParseInt(s, 10, 64)\<close>.\<close>

definition ParseInt64 :: "string \<Rightarrow> int option" where
  "ParseInt64 s =
     (let signed = s \<noteq> [] \<and> (hd s = CHR ''-'' \<or> hd s = CHR ''+'');
          ds = (if signed then tl s else s);
          v = digits_val 0 ds;
          n = (if s \<noteq> [] \<and> hd s = CHR ''-'' then - v else v)
      in if ds = [] \<or> \<not> list_all is_digit ds then None
         else if n < - (2 ^ 63) \<or> 2 ^ 63 - 1 < n then None
         else Some n)"

definition defaultJWKSTTL :: duration where
  "defaultJWKSTTL = 300 * second"

text \<open>\<^verbatim>\<open>time.Duration(secs) * time.Second\<close> is a product of \<^verbatim>\<open>int64\<close> values.\<close>

definition durationSeconds :: "int \<Rightarrow> duration" where
  "durationSeconds secs = sint (word_of_int (secs * second) :: 64 word)"

fun maxAgeOf :: "string list \<Rightarrow> duration" where
  "maxAgeOf [] = defaultJWKSTTL"
| "maxAgeOf (part # parts) =
     (let p = ToLower (TrimSpace part) in
      if \<not> HasPrefix p ''max-age='' then maxAgeOf parts
      else (case ParseInt64 (TrimSpace (TrimPrefix p ''max-age='')) of
              None \<Rightarrow> defaultJWKSTTL
            | Some secs \<Rightarrow> if secs < 0 then defaultJWKSTTL else durationSeconds secs))"

definition parseCacheControlMaxAge :: "string \<Rightarrow> duration" where
  "parseCacheControlMaxAge header = maxAgeOf (Split header CHR '','')"

text \<open>A response of the HTTP client: status, the header Cache-Control and the body.\<close>

record jwksResponse =
  jr_Status :: int
  jr_CacheControl :: string
  jr_Body :: string

definition maxJWKSBodySize :: nat where
  "maxJWKSBodySize = 1048576"

text \<open>The world as verification sees it: the client, the decoder of the key set, and the clock
  at the start, after a fetch and when the claims are checked.\<close>

record jwksWorld =
  jw_Get :: "string \<Rightarrow> jwksResponse option"
  jw_decode :: "string \<Rightarrow> jwk list option"
  jw_now :: instant
  jw_fetched :: instant
  jw_check :: instant

datatype jwtError =
    TokenInvalid
  | TokenExpired
  | AudienceMismatch
  | ClaimNotFound string
  | JWKSKeyNotFound
  | MissingKey
  | FetchFailed

definition addKey :: "jwk \<Rightarrow> (string \<Rightarrow> key option) \<Rightarrow> (string \<Rightarrow> key option)" where
  "addKey k keys = (case jwkToPublicKey k of None \<Rightarrow> keys | Some pub \<Rightarrow> keys(jwk_Kid k \<mapsto> pub))"

definition fetchAndParseJWKS ::
  "jwksWorld \<Rightarrow> string \<Rightarrow> jwtError + (string \<Rightarrow> key option) \<times> duration" where
  "fetchAndParseJWKS w url =
     (case jw_Get w url of
        None \<Rightarrow> Inl FetchFailed
      | Some resp \<Rightarrow>
          if jr_Status resp \<noteq> 200 then Inl FetchFailed
          else (case jw_decode w (take maxJWKSBodySize (jr_Body resp)) of
                  None \<Rightarrow> Inl FetchFailed
                | Some ks \<Rightarrow>
                    Inr (fold addKey ks (\<lambda>_. None), parseCacheControlMaxAge (jr_CacheControl resp))))"

section \<open>The cache\<close>

record jwksCacheEntry =
  ce_keys :: "string \<Rightarrow> key option"
  ce_fetchedAt :: instant
  ce_ttl :: duration

type_synonym jwksCache = "string \<Rightarrow> jwksCacheEntry option"

definition cacheFresh :: "jwksWorld \<Rightarrow> jwksCacheEntry \<Rightarrow> bool" where
  "cacheFresh w e \<longleftrightarrow> t_sub (jw_now w) (ce_fetchedAt e) < ce_ttl e"

definition getFetch :: "jwksWorld \<Rightarrow> jwksCache \<Rightarrow> string \<Rightarrow> string \<Rightarrow> (jwtError + key) \<times> jwksCache" where
  "getFetch w c url kid =
     (case fetchAndParseJWKS w url of
        Inl e \<Rightarrow> (Inl e, c)
      | Inr (keys, ttl) \<Rightarrow>
          (case keys kid of None \<Rightarrow> Inl JWKSKeyNotFound | Some key \<Rightarrow> Inr key,
           c(url \<mapsto> \<lparr>ce_keys = keys, ce_fetchedAt = jw_fetched w, ce_ttl = ttl\<rparr>)))"

text \<open>The second check under the write lock repeats the first one: in a single goroutine it is
  the same test.\<close>

definition getKey :: "jwksWorld \<Rightarrow> jwksCache \<Rightarrow> string \<Rightarrow> string \<Rightarrow> (jwtError + key) \<times> jwksCache" where
  "getKey w c url kid =
     (case c url of
        None \<Rightarrow> getFetch w c url kid
      | Some e \<Rightarrow>
          (case ce_keys e kid of
             Some key \<Rightarrow> (Inr key, c)
           | None \<Rightarrow> if cacheFresh w e then (Inl JWKSKeyNotFound, c) else getFetch w c url kid))"

lemma max_age_samples:
  "parseCacheControlMaxAge ''public, max-age=21478'' = 21478 * second"
  "parseCacheControlMaxAge ''public, Max-Age=0'' = 0"
  "parseCacheControlMaxAge ''no-cache'' = defaultJWKSTTL"
  "parseCacheControlMaxAge '''' = defaultJWKSTTL"
  "parseCacheControlMaxAge ''max-age=x, max-age=5'' = defaultJWKSTTL"
  "parseCacheControlMaxAge ''max-age=9223372036854775807'' = - second"
  by code_simp+

end
