(* ===== verification/Jwt_Verify.thy ===== *)
theory Jwt_Verify
  imports Jwks Go_Url Complex_Main
begin

text \<open>
  Verification of JSON Web Tokens (\<^verbatim>\<open>src/jwtverify/jwtverify.go\<close>). The library
  \<^verbatim>\<open>golang-jwt/jwt\<close> is the parameter \<open>jwtLib\<close>: reading a token without checking it, reading and
  checking it with a key function, and reading a PEM public key. What is documented of it is
  \<open>jwtLib_ok\<close>. Each call returns the new caches beside its result.
\<close>

section \<open>Tokens and the library\<close>

text \<open>A claim is a decoded JSON value. JSON numbers arrive as \<^verbatim>\<open>float64\<close>, here a rational number;
  the other number types are those that the code also accepts.\<close>

datatype claim =
    CFloat rat
  | CJsonNumber string
  | CInt int
  | CString string
  | CBool bool
  | CNull
  | CList "claim list"
  | CStrings "string list"
  | CObject "(string \<times> claim) list"

type_synonym claims = "string \<Rightarrow> claim option"

datatype signingMethod = HMAC | RSA | RSAPSS | ECDSA | OtherMethod string

record token =
  t_Method :: signingMethod
  t_kid :: "claim option"
  t_Claims :: claims

text \<open>A \<^verbatim>\<open>jwt.Keyfunc\<close> gives the key for a token, or an error.\<close>

type_synonym keyfunc = "token \<Rightarrow> key option"

record jwtLib =
  lib_ParseUnverified :: "string \<Rightarrow> token option"
  lib_Parse :: "string \<Rightarrow> keyfunc \<Rightarrow> token option"
  lib_ParseRSAPEM :: "string \<Rightarrow> key option"
  lib_ParseECPEM :: "string \<Rightarrow> key option"

text \<open>Which keys a method takes: the library refuses a key of another type.\<close>

fun keyFits :: "signingMethod \<Rightarrow> key \<Rightarrow> bool" where
  "keyFits HMAC (KBytes _) = True"
| "keyFits RSA (KRSA _ _) = True"
| "keyFits RSAPSS (KRSA _ _) = True"
| "keyFits ECDSA (KEC _ _ _) = True"
| "keyFits _ _ = False"

text \<open>The contract of \<^verbatim>\<open>Parser.Parse\<close>: it reads the token as \<^verbatim>\<open>ParseUnverified\<close> does, asks the key
  function for the key and checks the signature with the method of the token; \<open>sigOK m s k\<close> says
  that the signature of the token text \<open>s\<close> is right under \<open>m\<close> and \<open>k\<close>. A PEM parser returns a key of
  its type.\<close>

definition jwtLib_ok :: "(signingMethod \<Rightarrow> string \<Rightarrow> key \<Rightarrow> bool) \<Rightarrow> jwtLib \<Rightarrow> bool" where
  "jwtLib_ok sigOK lib \<longleftrightarrow>
     (\<forall>s kf t. lib_Parse lib s kf = Some t \<longrightarrow>
        lib_ParseUnverified lib s = Some t \<and>
        (\<exists>k. kf t = Some k \<and> keyFits (t_Method t) k \<and> sigOK (t_Method t) s k)) \<and>
     (\<forall>raw k. lib_ParseRSAPEM lib raw = Some k \<longrightarrow> (\<exists>n e. k = KRSA n e)) \<and>
     (\<forall>raw k. lib_ParseECPEM lib raw = Some k \<longrightarrow> (\<exists>c x y. k = KEC c x y))"

section \<open>The key of a static configuration\<close>

datatype keyKind = KindHMAC | KindRSA | KindEC

type_synonym keyClassCache = "string \<Rightarrow> (keyKind \<times> key) option"

record jwtState =
  js_jwks :: jwksCache
  js_class :: keyClassCache

definition classifyFresh :: "jwtLib \<Rightarrow> string \<Rightarrow> keyKind \<times> key" where
  "classifyFresh lib raw =
     (case lib_ParseRSAPEM lib raw of
        Some pub \<Rightarrow> (KindRSA, pub)
      | None \<Rightarrow>
          (case lib_ParseECPEM lib raw of
             Some pub \<Rightarrow> (KindEC, pub)
           | None \<Rightarrow> (KindHMAC, KBytes raw)))"

definition classifyKey :: "jwtLib \<Rightarrow> string \<Rightarrow> jwtState \<Rightarrow> (keyKind \<times> key) \<times> jwtState" where
  "classifyKey lib raw st =
     (case js_class st raw of
        Some ck \<Rightarrow> (ck, st)
      | None \<Rightarrow>
          let ck = classifyFresh lib raw
          in (ck, st\<lparr>js_class := (js_class st)(raw \<mapsto> ck)\<rparr>))"

fun methodKind :: "signingMethod \<Rightarrow> keyKind option" where
  "methodKind HMAC = Some KindHMAC"
| "methodKind RSA = Some KindRSA"
| "methodKind RSAPSS = Some KindRSA"
| "methodKind ECDSA = Some KindEC"
| "methodKind (OtherMethod _) = None"

definition staticKeyFunc :: "keyKind \<times> key \<Rightarrow> keyfunc" where
  "staticKeyFunc ck t = (if methodKind (t_Method t) = Some (fst ck) then Some (snd ck) else None)"

section \<open>Keys of a provider\<close>

definition allowedIssuerHosts :: "(string \<times> string) list" where
  "allowedIssuerHosts =
     [(''.cloudflareaccess.com'', ''/cdn-cgi/access/certs''),
      (''.auth0.com'', ''/.well-known/jwks.json'')]"

definition jwksURLForIssuer :: "string \<Rightarrow> string option" where
  "jwksURLForIssuer iss =
     (case url_Parse iss of
        None \<Rightarrow> None
      | Some u \<Rightarrow>
          if url_Scheme u \<noteq> ''https'' \<or> url_Host u = [] then None
          else if url_hasUser iss then None
          else map_option (\<lambda>p. ''https://'' @ url_Host u @ snd p)
                 (find (\<lambda>p. HasSuffix (url_Hostname (url_Host u)) (fst p)) allowedIssuerHosts))"

text \<open>A type assertion to \<^verbatim>\<open>string\<close> whose failure gives the empty string.\<close>

definition asString :: "claim option \<Rightarrow> string" where
  "asString c = (case c of Some (CString s) \<Rightarrow> s | _ \<Rightarrow> [])"

definition jwksKeyFunc ::
  "jwksWorld \<Rightarrow> jwtState \<Rightarrow> string \<Rightarrow> string \<Rightarrow> (jwtError + keyfunc) \<times> jwtState" where
  "jwksKeyFunc w st url kid =
     (case getKey w (js_jwks st) url kid of
        (r, c) \<Rightarrow>
          (case r of Inl e \<Rightarrow> Inl e | Inr pubKey \<Rightarrow> Inr (\<lambda>_. Some pubKey), st\<lparr>js_jwks := c\<rparr>))"

definition issuerKeyFunc :: "jwksWorld \<Rightarrow> jwtState \<Rightarrow> token \<Rightarrow> (jwtError + keyfunc) \<times> jwtState" where
  "issuerKeyFunc w st t =
     (case jwksURLForIssuer (TrimRight (asString (t_Claims t ''iss'')) CHR ''/'') of
        None \<Rightarrow> (Inl MissingKey, st)
      | Some url \<Rightarrow> jwksKeyFunc w st url (asString (t_kid t)))"

definition resolveKeyFunc ::
  "jwtLib \<Rightarrow> jwksWorld \<Rightarrow> jwtState \<Rightarrow> token \<Rightarrow> string \<Rightarrow> string \<Rightarrow> (jwtError + keyfunc) \<times> jwtState" where
  "resolveKeyFunc lib w st t Key JwkURL =
     (if Key \<noteq> [] then
        (case classifyKey lib Key st of (ck, st') \<Rightarrow> (Inr (staticKeyFunc ck), st'))
      else if JwkURL \<noteq> [] then jwksKeyFunc w st JwkURL (asString (t_kid t))
      else issuerKeyFunc w st t)"

section \<open>The claims\<close>

text \<open>\<^verbatim>\<open>int64(f)\<close> truncates; outside the range the result is the one of amd64, the least value.\<close>

definition floatToInt64 :: "rat \<Rightarrow> int" where
  "floatToInt64 r =
     (let n = (if r < 0 then - \<lfloor>- r\<rfloor> else \<lfloor>r\<rfloor>)
      in if - (2 ^ 63) \<le> n \<and> n < 2 ^ 63 then n else - (2 ^ 63))"

fun claimNumber :: "claim \<Rightarrow> int option" where
  "claimNumber (CFloat r) = Some (floatToInt64 r)"
| "claimNumber (CJsonNumber s) = ParseInt64 s"
| "claimNumber (CInt n) = Some n"
| "claimNumber _ = None"

definition claimToUnix :: "claim \<Rightarrow> int option" where
  "claimToUnix v =
     (case claimNumber v of None \<Rightarrow> None | Some n \<Rightarrow> if n \<le> 0 then None else Some n)"

definition unixTime :: "instant \<Rightarrow> int" where
  "unixTime t = nanos t div second"

definition checkExp :: "instant \<Rightarrow> claims \<Rightarrow> jwtError option" where
  "checkExp now cl =
     (case cl ''exp'' of
        None \<Rightarrow> Some TokenInvalid
      | Some v \<Rightarrow>
          (case claimToUnix v of
             None \<Rightarrow> Some TokenInvalid
           | Some expUnix \<Rightarrow> if unixTime now > expUnix then Some TokenExpired else None))"

definition checkNbf :: "instant \<Rightarrow> claims \<Rightarrow> jwtError option" where
  "checkNbf now cl =
     (case cl ''nbf'' of
        None \<Rightarrow> None
      | Some v \<Rightarrow>
          (case claimToUnix v of
             None \<Rightarrow> Some TokenInvalid
           | Some nbfUnix \<Rightarrow> if unixTime now + 60 < nbfUnix then Some TokenInvalid else None))"

definition audMatches :: "string \<Rightarrow> claim \<Rightarrow> bool" where
  "audMatches expected raw =
     (case raw of
        CString v \<Rightarrow> v = expected
      | CList vs \<Rightarrow> list_ex (\<lambda>item. item = CString expected) vs
      | CStrings vs \<Rightarrow> list_ex (\<lambda>s. s = expected) vs
      | _ \<Rightarrow> False)"

definition checkAud :: "claims \<Rightarrow> string \<Rightarrow> jwtError option" where
  "checkAud cl expected =
     (case cl ''aud'' of
        None \<Rightarrow> Some AudienceMismatch
      | Some raw \<Rightarrow> if audMatches expected raw then None else Some AudienceMismatch)"

definition extractClaim :: "claims \<Rightarrow> string \<Rightarrow> jwtError + claim option" where
  "extractClaim cl ClaimUsername =
     (if ClaimUsername = [] then Inr None
      else (case cl ClaimUsername of None \<Rightarrow> Inl (ClaimNotFound ClaimUsername) | Some v \<Rightarrow> Inr (Some v)))"

definition checkClaims :: "instant \<Rightarrow> claims \<Rightarrow> string \<Rightarrow> string \<Rightarrow> jwtError + claim option" where
  "checkClaims now cl ClaimUsername Audience =
     (case checkExp now cl of
        Some e \<Rightarrow> Inl e
      | None \<Rightarrow>
          (case checkNbf now cl of
             Some e \<Rightarrow> Inl e
           | None \<Rightarrow>
               (case (if Audience \<noteq> [] then checkAud cl Audience else None) of
                  Some e \<Rightarrow> Inl e
                | None \<Rightarrow> extractClaim cl ClaimUsername)))"

section \<open>Verify\<close>

definition Verify ::
  "jwtLib \<Rightarrow> jwksWorld \<Rightarrow> string \<Rightarrow> string \<Rightarrow> string \<Rightarrow> string \<Rightarrow> string \<Rightarrow> jwtState \<Rightarrow>
   (jwtError + claim option) \<times> jwtState" where
  "Verify lib w tokenString ClaimUsername Key JwkURL Audience st =
     (case lib_ParseUnverified lib tokenString of
        None \<Rightarrow> (Inl TokenInvalid, st)
      | Some unverified \<Rightarrow>
          (case resolveKeyFunc lib w st unverified Key JwkURL of
             (Inl e, st') \<Rightarrow> (Inl e, st')
           | (Inr keyFunc, st') \<Rightarrow>
               (case lib_Parse lib tokenString keyFunc of
                  None \<Rightarrow> (Inl TokenInvalid, st')
                | Some t \<Rightarrow> (checkClaims (jw_check w) (t_Claims t) ClaimUsername Audience, st'))))"

end
