(* ===== verification/Jwt_Props.thy ===== *)
theory Jwt_Props
  imports Jwt_Verify
begin

text \<open>
  What a verified token guarantees. The caches keep an invariant: a classified key is what a fresh
  classification gives, and a key set holds public keys only. From it and the contract of the
  library follows that a token with a shared-secret algorithm is accepted under the configured
  secret only, never under a public key.
\<close>

section \<open>The invariant of the caches\<close>

definition jwtState_ok :: "jwtLib \<Rightarrow> jwtState \<Rightarrow> bool" where
  "jwtState_ok lib st \<longleftrightarrow>
     (\<forall>raw ck. js_class st raw = Some ck \<longrightarrow> ck = classifyFresh lib raw) \<and>
     (\<forall>url e kid k. js_jwks st url = Some e \<longrightarrow> ce_keys e kid = Some k \<longrightarrow> \<not> keyFits HMAC k)"

definition jwtState_init :: jwtState where
  "jwtState_init = \<lparr>js_jwks = (\<lambda>_. None), js_class = (\<lambda>_. None)\<rparr>"

lemma jwtState_ok_init: "jwtState_ok lib jwtState_init"
  by (simp add: jwtState_ok_def jwtState_init_def)

lemma jwkToPublicKey_public: "jwkToPublicKey k = Some pub \<Longrightarrow> \<not> keyFits HMAC pub"
  by (auto simp: jwkToPublicKey_def parseRSAJWK_def parseECJWK_def split: if_splits option.splits)

lemma addKeys_public:
  "fold addKey ks keys kid = Some pub \<Longrightarrow> (\<And>kid p. keys kid = Some p \<Longrightarrow> \<not> keyFits HMAC p) \<Longrightarrow> \<not> keyFits HMAC pub"
proof (induction ks arbitrary: keys)
  case (Cons k ks)
  have "\<not> keyFits HMAC p" if "addKey k keys kid = Some p" for kid p
    using that Cons.prems(2) jwkToPublicKey_public
    by (auto simp: addKey_def split: option.splits if_splits)
  with Cons.IH[of "addKey k keys"] Cons.prems(1) show ?case by simp
qed simp

lemma fetch_public:
  "fetchAndParseJWKS w url = Inr (keys, ttl) \<Longrightarrow> keys kid = Some pub \<Longrightarrow> \<not> keyFits HMAC pub"
  by (auto simp: fetchAndParseJWKS_def split: option.splits if_splits dest: addKeys_public)

text \<open>Every entry after a lookup is an old one or holds what was fetched.\<close>

lemma getKey_entry:
  assumes "getKey w c url kid = (r, c')" and "c' u = Some e"
  shows "c u = Some e \<or> (\<exists>ttl. fetchAndParseJWKS w url = Inr (ce_keys e, ttl))"
  using assms by (auto simp: getKey_def getFetch_def split: option.splits sum.splits if_splits)

lemma getKey_key:
  assumes "getKey w c url kid = (Inr k, c')"
  shows "\<exists>e. c' url = Some e \<and> ce_keys e kid = Some k"
  using assms by (auto simp: getKey_def getFetch_def split: option.splits sum.splits if_splits)

lemma getKey_public:
  assumes "jwtState_ok lib st" and "getKey w (js_jwks st) url kid = (r, c)"
  shows "c u = Some e \<Longrightarrow> ce_keys e kid' = Some k \<Longrightarrow> \<not> keyFits HMAC k"
    and "r = Inr key \<Longrightarrow> \<not> keyFits HMAC key"
proof -
  show 1: "c u = Some e \<Longrightarrow> ce_keys e kid' = Some k \<Longrightarrow> \<not> keyFits HMAC k" for u e kid' k
    using getKey_entry[OF assms(2)] assms(1) fetch_public unfolding jwtState_ok_def by blast
  show "r = Inr key \<Longrightarrow> \<not> keyFits HMAC key"
    using getKey_key[of w "js_jwks st" url kid key c] assms(2) 1 by blast
qed

lemma jwksKeyFunc_ok:
  assumes "jwtState_ok lib st"
  shows "jwtState_ok lib (snd (jwksKeyFunc w st url kid))"
proof -
  obtain r c where g: "getKey w (js_jwks st) url kid = (r, c)" by (cases "getKey w (js_jwks st) url kid")
  then have "snd (jwksKeyFunc w st url kid) = st\<lparr>js_jwks := c\<rparr>" by (simp add: jwksKeyFunc_def)
  with assms getKey_public(1)[OF assms g] show ?thesis unfolding jwtState_ok_def by simp
qed

lemma classifyKey_ok:
  assumes "jwtState_ok lib st" and "classifyKey lib raw st = (ck, st')"
  shows "ck = classifyFresh lib raw \<and> jwtState_ok lib st'"
proof (cases "js_class st raw")
  case None
  with assms(2) have "ck = classifyFresh lib raw" "st' = st\<lparr>js_class := (js_class st)(raw \<mapsto> ck)\<rparr>"
    by (auto simp: classifyKey_def Let_def)
  with assms(1) show ?thesis by (simp add: jwtState_ok_def)
next
  case (Some ck')
  with assms(2) have "ck = ck'" "st' = st" by (auto simp: classifyKey_def)
  moreover from assms(1) Some have "ck' = classifyFresh lib raw" unfolding jwtState_ok_def by blast
  ultimately show ?thesis using assms(1) by simp
qed

lemma resolveKeyFunc_ok:
  "jwtState_ok lib st \<Longrightarrow> jwtState_ok lib (snd (resolveKeyFunc lib w st t Key JwkURL))"
  by (auto simp: resolveKeyFunc_def issuerKeyFunc_def jwksKeyFunc_ok dest: classifyKey_ok split: prod.split option.split)

section \<open>Accepted tokens\<close>

text \<open>Where the key of an accepted token comes from.\<close>

definition keySource ::
  "jwtLib \<Rightarrow> jwksWorld \<Rightarrow> jwtState \<Rightarrow> token \<Rightarrow> string \<Rightarrow> string \<Rightarrow> key \<Rightarrow> bool" where
  "keySource lib w st t Key JwkURL k \<longleftrightarrow>
     (if Key \<noteq> []
      then methodKind (t_Method t) = Some (fst (classifyFresh lib Key)) \<and> k = snd (classifyFresh lib Key)
      else (\<exists>url. (if JwkURL \<noteq> [] then url = JwkURL
                   else jwksURLForIssuer (TrimRight (asString (t_Claims t ''iss'')) CHR ''/'') = Some url) \<and>
                  fst (getKey w (js_jwks st) url (asString (t_kid t))) = Inr k))"

text \<open>The demands on the claims.\<close>

definition timely :: "instant \<Rightarrow> claims \<Rightarrow> bool" where
  "timely now cl \<longleftrightarrow>
     (\<exists>v e. cl ''exp'' = Some v \<and> claimToUnix v = Some e \<and> unixTime now \<le> e) \<and>
     (\<forall>v. cl ''nbf'' = Some v \<longrightarrow> (\<exists>n. claimToUnix v = Some n \<and> n \<le> unixTime now + 60))"

definition forAudience :: "string \<Rightarrow> claims \<Rightarrow> bool" where
  "forAudience aud cl \<longleftrightarrow> aud = [] \<or> (\<exists>raw. cl ''aud'' = Some raw \<and> audMatches aud raw)"

lemma checkClaims_Inr:
  "checkClaims now cl user aud = Inr v \<longleftrightarrow>
     timely now cl \<and> forAudience aud cl \<and> (if user = [] then v = None else v = cl user \<and> v \<noteq> None)"
proof -
  have "timely now cl \<longleftrightarrow> checkExp now cl = None \<and> checkNbf now cl = None"
    by (cases "cl ''exp''"; cases "cl ''nbf''") (auto simp: timely_def checkExp_def checkNbf_def split: option.split)
  moreover have "forAudience aud cl \<longleftrightarrow> (if aud \<noteq> [] then checkAud cl aud else None) = None"
    by (auto simp: forAudience_def checkAud_def split: option.split)
  moreover have "(if user = [] then v = None else v = cl user \<and> v \<noteq> None) \<longleftrightarrow> extractClaim cl user = Inr v"
    by (auto simp: extractClaim_def split: option.split)
  ultimately show ?thesis
    by (simp add: checkClaims_def split: option.split)
qed

lemma resolveKeyFunc_key:
  assumes "jwtState_ok lib st" and "resolveKeyFunc lib w st t Key JwkURL = (Inr kf, st')"
    and "kf t = Some k"
  shows "keySource lib w st t Key JwkURL k"
  using assms classifyKey_ok[OF assms(1), of Key]
  by (fastforce simp: resolveKeyFunc_def keySource_def issuerKeyFunc_def jwksKeyFunc_def staticKeyFunc_def
        split: if_splits prod.splits option.splits sum.splits)

lemma keySource_HMAC:
  assumes ok: "jwtState_ok lib st" and lib: "jwtLib_ok sigOK lib"
    and src: "keySource lib w st t Key JwkURL k" and fits: "keyFits HMAC k"
  shows "Key \<noteq> [] \<and> k = KBytes Key \<and> lib_ParseRSAPEM lib Key = None \<and> lib_ParseECPEM lib Key = None"
proof (cases "Key = []")
  case True
  with src obtain url where "fst (getKey w (js_jwks st) url (asString (t_kid t))) = Inr k"
    by (auto simp: keySource_def)
  with getKey_public(2)[OF ok, of w url "asString (t_kid t)" _ _ k] fits show ?thesis by (metis prod.collapse)
next
  case False
  with src fits lib show ?thesis
    by (fastforce simp: keySource_def classifyFresh_def jwtLib_ok_def split: option.splits)
qed

lemma Verify_accepts:
  assumes "jwtLib_ok sigOK lib" and "jwtState_ok lib st"
    and "Verify lib w s user Key JwkURL aud st = (Inr v, st')"
  shows "\<exists>t k. lib_ParseUnverified lib s = Some t \<and> keySource lib w st t Key JwkURL k \<and>
           keyFits (t_Method t) k \<and> sigOK (t_Method t) s k \<and>
           checkClaims (jw_check w) (t_Claims t) user aud = Inr v"
proof -
  from assms(3) obtain u kf t where u: "lib_ParseUnverified lib s = Some u"
    and kf: "resolveKeyFunc lib w st u Key JwkURL = (Inr kf, st')"
    and t: "lib_Parse lib s kf = Some t" and c: "checkClaims (jw_check w) (t_Claims t) user aud = Inr v"
    by (auto simp: Verify_def split: option.splits prod.splits sum.splits)
  from assms(1) t obtain k where "lib_ParseUnverified lib s = Some t" "kf t = Some k"
    "keyFits (t_Method t) k" "sigOK (t_Method t) s k" unfolding jwtLib_ok_def by blast
  with u kf c resolveKeyFunc_key[OF assms(2), of w t Key JwkURL kf st' k] show ?thesis by auto
qed


definition userClaim :: "string \<Rightarrow> claims \<Rightarrow> claim option \<Rightarrow> bool" where
  "userClaim user cl v \<longleftrightarrow> (if user = [] then v = None else v = cl user \<and> v \<noteq> None)"



section \<open>A concrete token\<close>

definition demo_token :: token where
  "demo_token = \<lparr>t_Method = HMAC, t_kid = None,
     t_Claims = [''exp'' \<mapsto> CFloat 2000, ''aud'' \<mapsto> CList [CString ''app''], ''sub'' \<mapsto> CString ''alice'']\<rparr>"

definition demo_sig :: "signingMethod \<Rightarrow> string \<Rightarrow> key \<Rightarrow> bool" where
  "demo_sig m s k \<longleftrightarrow> m = HMAC \<and> s = ''tok'' \<and> k = KBytes ''secret''"

definition demo_lib :: jwtLib where
  "demo_lib = \<lparr>lib_ParseUnverified = (\<lambda>s. if s = ''tok'' then Some demo_token else None),
     lib_Parse = (\<lambda>s kf. if s = ''tok'' \<and> kf demo_token = Some (KBytes ''secret'') then Some demo_token else None),
     lib_ParseRSAPEM = (\<lambda>_. None), lib_ParseECPEM = (\<lambda>_. None)\<rparr>"

definition jwt_world :: jwksWorld where
  "jwt_world = \<lparr>jw_Get = (\<lambda>_. None), jw_decode = (\<lambda>_. None), jw_now = Instant 0, jw_fetched = Instant 0,
     jw_check = Instant (1000 * second)\<rparr>"

lemma demo_lib_ok: "jwtLib_ok demo_sig demo_lib"
  by (auto simp: jwtLib_ok_def demo_lib_def demo_sig_def demo_token_def split: if_splits)

lemma demo_verified:
  "Verify demo_lib jwt_world ''tok'' ''sub'' ''secret'' [] ''app'' jwtState_init =
     (Inr (Some (CString ''alice'')), jwtState_init\<lparr>js_class := [''secret'' \<mapsto> (KindHMAC, KBytes ''secret'')]\<rparr>)"
proof -
  have exp: "claimToUnix (CFloat 2000) = Some 2000" by (simp add: claimToUnix_def floatToInt64_def)
  have now: "unixTime (Instant (1000 * second)) = 1000" by (simp add: unixTime_def second_def)
  show ?thesis
    by (simp add: Verify_def demo_lib_def resolveKeyFunc_def classifyKey_def jwtState_init_def classifyFresh_def
        Let_def staticKeyFunc_def demo_token_def checkClaims_def checkExp_def checkNbf_def checkAud_def
        audMatches_def extractClaim_def jwt_world_def exp now)
qed



section \<open>The key set of an issuer\<close>

text \<open>A character that cannot end the host of a URL.\<close>

definition host_inside :: "char \<Rightarrow> bool" where
  "host_inside c \<longleftrightarrow> c \<notin> set ''/?#@''"

lemma host_char_inside: "host_char c \<Longrightarrow> host_inside c"
proof -
  have "\<not> host_char CHR ''/'' \<and> \<not> host_char CHR ''?'' \<and> \<not> host_char CHR ''#'' \<and> \<not> host_char CHR ''@''"
    by code_simp
  then show "host_char c \<Longrightarrow> host_inside c" by (auto simp: host_inside_def)
qed

lemma hex_val_range: "is_hex c \<Longrightarrow> 0 \<le> hex_val c \<and> hex_val c \<le> 15"
proof -
  assume h: "is_hex c"
  define n where "n = (of_char c :: nat)"
  have i: "(of_char c :: int) = int n" by (simp only: n_def of_nat_of_char)
  from h have "(48 \<le> n \<and> n \<le> 57) \<or> (97 \<le> n \<and> n \<le> 102) \<or> (65 \<le> n \<and> n \<le> 70)"
    by (simp add: is_hex_def n_def Let_def)
  then show ?thesis unfolding hex_val_def Let_def i by auto
qed

lemma decoded_inside:
  assumes "is_hex a" "is_hex b" "8 \<le> hex_val a \<or> (a = CHR ''2'' \<and> b = CHR ''5'')"
  shows "host_inside (char_of (hex_val a * 16 + hex_val b))"
  using assms(3)
proof
  let ?n = "hex_val a * 16 + hex_val b"
  assume "8 \<le> hex_val a"
  with hex_val_range[OF assms(1)] hex_val_range[OF assms(2)] have n: "128 \<le> ?n" "?n < 256" by linarith+
  have "(of_char (char_of ?n :: char) :: int) = ?n mod 256" by simp
  with n have big: "(of_char (char_of ?n :: char) :: int) \<ge> 128" by simp
  have "list_all (\<lambda>c. (of_char c :: int) < 128) ''/?#@''" by code_simp
  with big show ?thesis unfolding host_inside_def list_all_iff by (metis linorder_not_less)
next
  assume "a = CHR ''2'' \<and> b = CHR ''5''"
  moreover have "host_inside (char_of (hex_val CHR ''2'' * 16 + hex_val CHR ''5''))" by code_simp
  ultimately show ?thesis by simp
qed

lemma unescapeHost_inside: "unescapeHost s = Some h \<Longrightarrow> list_all host_inside h"
proof (induction s arbitrary: h rule: unescapeHost.induct)
  case (2 c cs)
  then show ?case
    by (auto split: if_splits list.splits intro: host_char_inside decoded_inside)
qed simp

lemma parseHost_inside: "parseHost s = Some h \<Longrightarrow> list_all host_inside h"
  unfolding parseHost_def Let_def using unescapeHost_inside[of s h] by (meson option.distinct(1))

lemma parseAuthority_inside: "parseAuthority s = Some h \<Longrightarrow> list_all host_inside h"
  unfolding parseAuthority_def by (auto split: option.splits if_splits intro: parseHost_inside)

lemma parseRest_inside: "parseRest sch q rest = Some u \<Longrightarrow> list_all host_inside (url_Host u)"
  unfolding parseRest_def Let_def
  by (auto split: if_splits option.splits prod.splits dest: parseAuthority_inside)


lemma url_Parse_inside: "url_Parse raw = Some u \<Longrightarrow> list_all host_inside (url_Host u)"
  unfolding url_Parse_def by (auto split: prod.splits if_splits option.splits dest: parseRest_inside)

text \<open>C39. The URL that is derived from an unverified issuer: the scheme is https, the path is the
  provider's, nothing in between can end the host or start user information, and the name of the
  host ends in the domain of a provider.\<close>

theorem issuer_url_host:
  assumes "jwksURLForIssuer iss = Some url"
  shows "\<exists>host sfx path. (sfx, path) \<in> set allowedIssuerHosts \<and> url = ''https://'' @ host @ path \<and>
           HasSuffix (url_Hostname host) sfx \<and> list_all host_inside host"
proof -
  from assms obtain u p where u: "url_Parse iss = Some u"
    and p: "find (\<lambda>p. HasSuffix (url_Hostname (url_Host u)) (fst p)) allowedIssuerHosts = Some p"
    and url: "url = ''https://'' @ url_Host u @ snd p"
    by (auto simp: jwksURLForIssuer_def split: option.splits if_splits)
  from find_Some_in[OF p] url url_Parse_inside[OF u] show ?thesis by (metis prod.collapse)
qed

lemma issuer_samples:
  "jwksURLForIssuer ''https://acme.auth0.com/x?y#z'' = Some ''https://acme.auth0.com/.well-known/jwks.json''"
  "jwksURLForIssuer ''https://evil.com/.auth0.com'' = None"
  "jwksURLForIssuer ''https://a@t.auth0.com'' = None"
  "jwksURLForIssuer ''http://t.auth0.com'' = None"
  by code_simp+

lemma issuer_url_host_witness:
  "jwksURLForIssuer ''https://acme.auth0.com/x?y#z'' = Some ''https://acme.auth0.com/.well-known/jwks.json'' \<and>
   (\<exists>host sfx path. (sfx, path) \<in> set allowedIssuerHosts \<and>
      ''https://acme.auth0.com/.well-known/jwks.json'' = ''https://'' @ host @ path \<and>
      HasSuffix (url_Hostname host) sfx \<and> list_all host_inside host)"
  using issuer_url_host[OF issuer_samples(1)] issuer_samples(1) by blast

text \<open>The name of the host can be an IPv6 literal whose zone is the domain: the key set is then
  asked for at an address that the issuer of an unverified token chooses.\<close>

theorem issuer_address_literal:
  "jwksURLForIssuer ''https://[2001:db8::1%2525.auth0.com]:8443'' =
     Some ''https://[2001:db8::1%25.auth0.com]:8443/.well-known/jwks.json'' \<and>
   url_Parse ''https://[2001:db8::1%25.auth0.com]:8443/.well-known/jwks.json'' =
     Some \<lparr>url_Scheme = ''https'', url_Host = ''[2001:db8::1%.auth0.com]:8443'',
           url_Path = ''/.well-known/jwks.json'', url_RawQuery = []\<rparr>"
  by code_simp

section \<open>The key cache\<close>

text \<open>A known key, and while the key set is fresh an unknown one too, is answered without the
  network: the client is not asked and the cache stays as it is.\<close>

theorem cached_without_network:
  assumes "c url = Some e" and "ce_keys e kid \<noteq> None \<or> cacheFresh w e"
  shows "getKey (w\<lparr>jw_Get := g\<rparr>) c url kid = getKey w c url kid \<and> snd (getKey w c url kid) = c \<and>
         fst (getKey w c url kid) = (case ce_keys e kid of Some k \<Rightarrow> Inr k | None \<Rightarrow> Inl JWKSKeyNotFound)"
proof (cases "ce_keys e kid")
  case None
  with assms have "cacheFresh w e" by simp
  moreover have "cacheFresh (w\<lparr>jw_Get := g\<rparr>) e = cacheFresh w e" by (simp add: cacheFresh_def)
  ultimately show ?thesis using assms(1) None by (simp add: getKey_def)
next
  case (Some k)
  with assms(1) show ?thesis by (simp add: getKey_def)
qed

definition demo_entry :: jwksCacheEntry where
  "demo_entry = \<lparr>ce_keys = [''k1'' \<mapsto> KRSA 5 3], ce_fetchedAt = Instant 0, ce_ttl = 60 * second\<rparr>"

lemma cached_without_network_witness:
  "getKey (jwt_world\<lparr>jw_Get := g\<rparr>) [''u'' \<mapsto> demo_entry] ''u'' ''k2'' = (Inl JWKSKeyNotFound, [''u'' \<mapsto> demo_entry])"
proof -
  have f: "cacheFresh jwt_world demo_entry"
    by (simp add: cacheFresh_def jwt_world_def demo_entry_def t_sub_def second_def)
  have "ce_keys demo_entry ''k2'' = None" by (simp add: demo_entry_def)
  with f cached_without_network[of "[''u'' \<mapsto> demo_entry]" "''u''" demo_entry "''k2''" jwt_world g] show ?thesis
    by (simp add: prod_eq_iff)
qed

text \<open>Lifetimes: a value that fits is taken as it is; one above 9223372036 seconds wraps around, so
  the lifetime can be negative and then every unknown key goes to the network.\<close>

lemma durationSeconds_exact: "0 \<le> n \<Longrightarrow> n \<le> 9223372036 \<Longrightarrow> durationSeconds n = n * second"
  unfolding durationSeconds_def second_def int_word_sint by (simp add: mod_pos_pos_trivial)

lemma maxAgeOf_bounds: "- (2 ^ 63) \<le> maxAgeOf ps \<and> maxAgeOf ps < 2 ^ 63"
proof (induction ps)
  case (Cons p ps)
  have "- (2 ^ 63) \<le> durationSeconds n \<and> durationSeconds n < 2 ^ 63" for n
    using sint_greater_eq[of "word_of_int (n * second) :: 64 word"] sint_less[of "word_of_int (n * second) :: 64 word"]
    by (simp add: durationSeconds_def)
  moreover have "- (2 ^ 63) \<le> defaultJWKSTTL \<and> defaultJWKSTTL < 2 ^ 63"
    by (simp add: defaultJWKSTTL_def second_def)
  ultimately show ?case using Cons by (simp add: Let_def split: option.split)
qed (simp add: defaultJWKSTTL_def second_def)


lemma digit_plain:
  assumes "is_digit c"
  shows "lower_char c = c" "\<not> is_space c" "c \<noteq> CHR '',''" "c \<noteq> CHR ''-''" "c \<noteq> CHR ''+''"
  using assms by (auto simp: is_digit_def is_space_def lower_char_def Let_def)

text \<open>A lifetime of up to 9223372036 seconds is taken exactly; a larger one wraps around (the
  samples above end in a negative one, with which every unknown key goes to the network).\<close>

theorem max_age_exact:
  assumes "list_all is_digit ds" and "ds \<noteq> []" and "digits_val 0 ds \<le> 9223372036" and "0 \<le> digits_val 0 ds"
  shows "parseCacheControlMaxAge (''max-age='' @ ds) = digits_val 0 ds * second"
proof -
  let ?s = "''max-age='' @ ds"
  note d = digit_plain[OF assms(1)[unfolded list_all_iff, rule_format]]
  have "CHR '','' \<notin> set ?s" using d(3) by fastforce
  then have sp: "Split ?s CHR '','' = [?s]" by (rule Split_single)
  have "list_all (\<lambda>c. \<not> is_space c) ''max-age=''" by code_simp
  then have "\<forall>c \<in> set ?s. \<not> is_space c" using d(2) by (auto simp: list_all_iff)
  then have t: "TrimSpace ?s = ?s" by (rule TrimSpace_no_space)
  have "ToLower ''max-age='' = ''max-age=''" by code_simp
  moreover have "map lower_char ds = ds" using d(1) by (simp add: map_idI)
  ultimately have l: "ToLower ?s = ?s" by (simp add: ToLower_def)
  have pre: "HasPrefix ?s ''max-age=''" "TrimPrefix ?s ''max-age='' = ds"
    by (simp_all add: HasPrefix_def TrimPrefix_def)
  have td: "TrimSpace ds = ds" using d(2) by (intro TrimSpace_no_space) blast
  have "hd ds \<noteq> CHR ''-''" "hd ds \<noteq> CHR ''+''" using d(4,5) assms(2) by auto
  with assms have "ParseInt64 ds = Some (digits_val 0 ds)" by (simp add: ParseInt64_def Let_def)
  with sp t l pre td durationSeconds_exact[OF assms(4,3)] assms(4) show ?thesis
    by (simp add: parseCacheControlMaxAge_def Let_def del: append_Cons)
qed

lemma max_age_exact_witness:
  "parseCacheControlMaxAge ''max-age=21478'' = 21478 * second"
proof -
  have "list_all is_digit ''21478'' \<and> digits_val 0 ''21478'' = 21478" by code_simp
  with max_age_exact[of "''21478''"] show ?thesis by simp
qed

end
