(* ===== verification/Acme_Challenge.thy ===== *)
theory Acme_Challenge
  imports Director "HOL-Library.Multiset"
begin

text \<open>
  Challenge responses of the ACME client (\<^verbatim>\<open>src/acme/httpchallenge.go\<close>): the tokens that the router
  and a temporary listener on port 80 serve, and the counter of challenge windows that shares that
  listener. The contract that an issuer relies on, \<open>challenge_store\<close>, is also the one of the
  challenge certificates in \<open>Acme_Cert\<close>.
\<close>

section \<open>The contract of a store of challenge responses\<close>

locale challenge_store =
  fixes put :: "string \<Rightarrow> 'r \<Rightarrow> 's \<Rightarrow> 's"
    and del :: "string \<Rightarrow> 's \<Rightarrow> 's"
    and get :: "'s \<Rightarrow> string \<Rightarrow> 'r option"
    and norm :: "string \<Rightarrow> string"
  assumes get_put: "get (put k r s) k' = (if norm k' = norm k then Some r else get s k')"
    and get_del: "get (del k s) k' = (if norm k' = norm k then None else get s k')"
begin

text \<open>A challenge window: the response stands while the window is open, whatever else is put or
  deleted under other keys, and nothing is left of it afterwards.\<close>

lemma window_open: "norm k' \<noteq> norm k \<Longrightarrow> get (put k' r' (put k r s)) k = Some r \<and> get (del k' (put k r s)) k = Some r"
  by (simp add: get_put get_del eq_commute[of "norm k"])

lemma window_closed: "get (del k (put k r s)) k = None"
  by (simp add: get_del)

lemma window_frame: "norm k' \<noteq> norm k \<Longrightarrow> get (del k (put k r s)) k' = get s k'"
  by (simp add: get_put get_del)

end

section \<open>The server of HTTP-01 challenges\<close>

definition challengePrefix :: string where
  "challengePrefix = ''/.well-known/acme-challenge/''"

definition IsChallengeRequest :: "request \<Rightarrow> bool" where
  "IsChallengeRequest r = HasPrefix (url_Path (rq_URL r)) challengePrefix"

text \<open>\<open>hc_open\<close> says that \<^verbatim>\<open>port80ln\<close> and \<^verbatim>\<open>port80srv\<close> are set; they are set and cleared together.\<close>

record httpChallengeServer =
  hc_tokens :: "string \<Rightarrow> string option"
  hc_servePort80 :: bool
  hc_open :: bool
  hc_refs :: int

definition newHTTPChallengeServer :: "bool \<Rightarrow> httpChallengeServer" where
  "newHTTPChallengeServer servePort80 =
     \<lparr>hc_tokens = (\<lambda>_. None), hc_servePort80 = servePort80, hc_open = False, hc_refs = 0\<rparr>"

text \<open>The flag \<open>listens\<close> is what \<^verbatim>\<open>net.Listen("tcp", ":80")\<close> does.\<close>

definition openPort80 :: "bool \<Rightarrow> httpChallengeServer \<Rightarrow> httpChallengeServer" where
  "openPort80 listens h =
     (if \<not> hc_servePort80 h then h
      else let h = h\<lparr>hc_refs := hc_refs h + 1\<rparr> in
        if hc_open h then h
        else if \<not> listens then h\<lparr>hc_refs := hc_refs h - 1\<rparr>
        else h\<lparr>hc_open := True\<rparr>)"

definition closePort80 :: "httpChallengeServer \<Rightarrow> httpChallengeServer" where
  "closePort80 h =
     (if \<not> hc_servePort80 h then h
      else let h = (if 0 < hc_refs h then h\<lparr>hc_refs := hc_refs h - 1\<rparr> else h) in
        if hc_refs h = 0 \<and> hc_open h then h\<lparr>hc_open := False\<rparr> else h)"

definition hc_add :: "bool \<Rightarrow> string \<Rightarrow> string \<Rightarrow> httpChallengeServer \<Rightarrow> httpChallengeServer" where
  "hc_add listens path keyAuth h = openPort80 listens (h\<lparr>hc_tokens := (hc_tokens h)(path \<mapsto> keyAuth)\<rparr>)"

definition hc_remove :: "string \<Rightarrow> httpChallengeServer \<Rightarrow> httpChallengeServer" where
  "hc_remove path h = closePort80 (h\<lparr>hc_tokens := (hc_tokens h)(path := None)\<rparr>)"

definition hc_response :: "httpChallengeServer \<Rightarrow> string \<Rightarrow> string" where
  "hc_response h path = (case hc_tokens h path of None \<Rightarrow> [] | Some v \<Rightarrow> v)"

lemma hc_tokens_port [simp]:
  "hc_tokens (openPort80 l h) = hc_tokens h" "hc_tokens (closePort80 h) = hc_tokens h"
  "hc_servePort80 (openPort80 l h) = hc_servePort80 h" "hc_servePort80 (closePort80 h) = hc_servePort80 h"
  by (simp_all add: openPort80_def closePort80_def Let_def)

interpretation hcs: challenge_store "hc_add l" hc_remove hc_tokens id
  by unfold_locales (simp_all add: hc_add_def hc_remove_def)

text \<open>The handler: the key authorization, or 404.\<close>

definition hc_Handler :: "httpChallengeServer \<Rightarrow> request \<Rightarrow> string option" where
  "hc_Handler h r =
     (let resp = hc_response h (url_Path (rq_URL r)) in if resp \<noteq> [] then Some resp else None)"

section \<open>Challenge windows\<close>

text \<open>An issuer opens a window with \<open>hc_add\<close> and closes it with \<open>hc_remove\<close>; windows of several
  vhosts overlap. The second component of a state is the multiset of the paths of open windows; the
  flag says whether listening on port 80 can fail.\<close>

inductive window_step ::
  "bool \<Rightarrow> (httpChallengeServer \<times> string multiset) \<Rightarrow> (httpChallengeServer \<times> string multiset) \<Rightarrow> bool"
  for may_fail where
  window_begin: "listens \<or> may_fail \<Longrightarrow> window_step may_fail (h, ws) (hc_add listens path keyAuth h, add_mset path ws)"
| window_end: "path \<in># ws \<Longrightarrow> window_step may_fail (h, ws) (hc_remove path h, ws - {#path#})"

inductive windows :: "bool \<Rightarrow> bool \<Rightarrow> (httpChallengeServer \<times> string multiset) \<Rightarrow> bool"
  for may_fail serve where
  windows_init: "windows may_fail serve (newHTTPChallengeServer serve, {#})"
| windows_step: "windows may_fail serve s \<Longrightarrow> window_step may_fail s s' \<Longrightarrow> windows may_fail serve s'"

definition port_inv :: "bool \<Rightarrow> bool \<Rightarrow> (httpChallengeServer \<times> string multiset) \<Rightarrow> bool" where
  "port_inv may_fail serve s \<longleftrightarrow>
     (case s of (h, ws) \<Rightarrow>
        0 \<le> hc_refs h \<and> hc_refs h \<le> int (size ws) \<and> (hc_open h \<longleftrightarrow> 0 < hc_refs h) \<and>
        hc_servePort80 h = serve \<and> (\<not> serve \<longrightarrow> hc_refs h = 0) \<and>
        (serve \<and> \<not> may_fail \<longrightarrow> hc_refs h = int (size ws)))"

lemma port_inv_step:
  assumes "window_step may_fail s s'" and "port_inv may_fail serve s"
  shows "port_inv may_fail serve s'"
  using assms
proof cases
  case (window_begin listens h ws path keyAuth)
  with assms(2) show ?thesis
    by (auto simp: port_inv_def hc_add_def openPort80_def Let_def)
next
  case (window_end path ws h)
  then have n: "int (size (ws - {#path#})) = int (size ws) - 1"
    using size_Suc_Diff1[of path ws] by linarith
  from assms(2) window_end(1,3) show ?thesis
    unfolding window_end(2) port_inv_def prod.case n
    by (auto simp: hc_remove_def closePort80_def Let_def)
qed

lemma windows_inv: "windows may_fail serve s \<Longrightarrow> port_inv may_fail serve s"
proof (induction rule: windows.induct)
  case windows_init
  then show ?case by (simp add: port_inv_def newHTTPChallengeServer_def)
next
  case (windows_step s s')
  from windows_step(2,3) show ?case by (rule port_inv_step)
qed


definition demo_windows :: "httpChallengeServer list" where
  "demo_windows =
     (let h0 = newHTTPChallengeServer True;
          h1 = hc_add False ''/a'' ''ka'' h0;
          h2 = hc_add True ''/b'' ''kb'' h1
      in [h1, h2, hc_remove ''/a'' h2])"

lemma demo_windows_steps:
  "windows True True (demo_windows ! 1, {#''/a'', ''/b''#})" "windows True True (demo_windows ! 2, {#''/b''#})"
proof -
  have "windows True True (newHTTPChallengeServer True, {#})" by (rule windows_init)
  then have "windows True True (demo_windows ! 0, {#''/a''#})"
    by (rule windows_step) (simp add: demo_windows_def Let_def window_begin)
  then have "windows True True (demo_windows ! 1, add_mset ''/b'' {#''/a''#})"
    by (rule windows_step) (simp add: demo_windows_def Let_def window_begin)
  then show 1: "windows True True (demo_windows ! 1, {#''/a'', ''/b''#})" by (simp add: add_mset_commute)
  have "window_step True (demo_windows ! 1, {#''/a'', ''/b''#}) (hc_remove ''/a'' (demo_windows ! 1), {#''/a'', ''/b''#} - {#''/a''#})"
    by (rule window_end) simp
  then have "window_step True (demo_windows ! 1, {#''/a'', ''/b''#}) (demo_windows ! 2, {#''/b''#})"
    by (simp add: demo_windows_def Let_def)
  with 1 show "windows True True (demo_windows ! 2, {#''/b''#})" by (rule windows_step)
qed


text \<open>When the first attempt to listen failed and a later one succeeded, the end of the first window
  takes the listener away from the second one: its token stands, its port is closed.\<close>

theorem port80_lost:
  "\<exists>h h'. windows True True (h, {#''/a'', ''/b''#}) \<and> hc_open h \<and>
     window_step True (h, {#''/a'', ''/b''#}) (h', {#''/b''#}) \<and> \<not> hc_open h' \<and> hc_tokens h' ''/b'' = Some ''kb''"
proof (intro exI conjI)
  show "windows True True (demo_windows ! 1, {#''/a'', ''/b''#})" by (rule demo_windows_steps)
  show "hc_open (demo_windows ! 1)" by code_simp
  have "window_step True (demo_windows ! 1, {#''/a'', ''/b''#}) (hc_remove ''/a'' (demo_windows ! 1), {#''/a'', ''/b''#} - {#''/a''#})"
    by (rule window_end) simp
  then show "window_step True (demo_windows ! 1, {#''/a'', ''/b''#}) (demo_windows ! 2, {#''/b''#})"
    by (simp add: demo_windows_def Let_def)
  show "\<not> hc_open (demo_windows ! 2)" by code_simp
  show "hc_tokens (demo_windows ! 2) ''/b'' = Some ''kb''" by code_simp
qed

end
