(* ===== verification/Acme_Config.thy ===== *)
theory Acme_Config
  imports Go_Strings Go_Time
begin

text \<open>
  Settings of the ACME client (\<^verbatim>\<open>src/acme/config.go\<close>, the checks of \<^verbatim>\<open>src/acme/preflight.go\<close>): the
  directory of the authority, the paths of certificates, the challenge mode, the names that a
  certificate can be asked for. The user id and the home directory of the process are parameters.
\<close>

section \<open>Paths\<close>

text \<open>\<^verbatim>\<open>filepath.Clean\<close> and \<^verbatim>\<open>filepath.Join\<close> on Unix. The accumulator holds the segments so far, the
  last one first.\<close>

fun cleanWalk :: "bool \<Rightarrow> string list \<Rightarrow> string list \<Rightarrow> string list" where
  "cleanWalk rooted acc [] = rev acc"
| "cleanWalk rooted acc (s # ss) =
     (if s = [] \<or> s = ''.'' then cleanWalk rooted acc ss
      else if s = ''..'' then
        (case acc of
           [] \<Rightarrow> cleanWalk rooted (if rooted then [] else [s]) ss
         | t # ts \<Rightarrow> if t = ''..'' then cleanWalk rooted (s # acc) ss else cleanWalk rooted ts ss)
      else cleanWalk rooted (s # acc) ss)"

definition filepath_Clean :: "string \<Rightarrow> string" where
  "filepath_Clean p =
     (let rooted = HasPrefix p ''/'';
          out = (if rooted then ''/'' else []) @ Join (cleanWalk rooted [] (Split p CHR ''/'')) ''/''
      in if out = [] then ''.'' else out)"

definition filepath_Join :: "string list \<Rightarrow> string" where
  "filepath_Join elems =
     (let es = dropWhile (\<lambda>e. e = []) elems
      in if es = [] then [] else filepath_Clean (Join es ''/''))"

lemma filepath_samples:
  "filepath_Join [''/var/lib/'', ''a.crt''] = ''/var/lib/a.crt''"
  "filepath_Join [''/home/u'', ''/x/../y''] = ''/home/u/y''"
  "filepath_Join ['''', ''a''] = ''a''"
  "filepath_Clean ''../../a//b/.'' = ''../../a/b''"
  "filepath_Clean '''' = ''.''"
  by code_simp+

section \<open>Settings\<close>

datatype ChallengeMode = ChallengeHTTP01 | ChallengeTLSALPN01

record GlobalConfig =
  gc_Email :: string
  gc_CacheDir :: string
  gc_ChallengeMode :: ChallengeMode
  gc_ServePort80 :: bool
  gc_DirectoryURL :: string
  gc_CARootFile :: string
  gc_InsecureSkipVerify :: bool

record VHostConfig =
  vc_Domains :: "string list"
  vc_CertPath :: string
  vc_KeyPath :: string
  vc_AcmeSource :: string
  vc_RenewBefore :: duration

definition UsesACME :: "VHostConfig \<Rightarrow> bool" where
  "UsesACME v \<longleftrightarrow> vc_AcmeSource v \<noteq> []"

definition letsEncryptProd :: string where
  "letsEncryptProd = ''https://acme-v02.api.letsencrypt.org/directory''"

definition letsEncryptStaging :: string where
  "letsEncryptStaging = ''https://acme-staging-v02.api.letsencrypt.org/directory''"

definition zeroSSLDirectory :: string where
  "zeroSSLDirectory = ''https://acme.zerossl.com/v2/DV90''"

text \<open>\<^const>\<open>None\<close> is the error of an unknown source.\<close>

definition directoryURL :: "GlobalConfig \<Rightarrow> VHostConfig \<Rightarrow> string option" where
  "directoryURL g v =
     (let s = ToLower (vc_AcmeSource v) in
      if gc_DirectoryURL g \<noteq> [] then Some (gc_DirectoryURL g)
      else if s = ''letsencrypt'' \<or> s = ''le'' then Some letsEncryptProd
      else if s = ''letsencrypt-staging'' \<or> s = ''le-staging'' \<or> s = ''staging'' then Some letsEncryptStaging
      else if s = ''zerossl'' then Some zeroSSLDirectory
      else None)"

fun shorter :: "string \<Rightarrow> string list \<Rightarrow> string" where
  "shorter best [] = best"
| "shorter best (d # ds) = shorter (if length d < length best then d else best) ds"

definition shortestDomain :: "string list \<Rightarrow> string" where
  "shortestDomain domains = (case domains of [] \<Rightarrow> [] | d # ds \<Rightarrow> shorter d ds)"

definition resolveCertPaths :: "string \<Rightarrow> VHostConfig \<Rightarrow> string \<times> string" where
  "resolveCertPaths cacheDir v =
     (let base = shortestDomain (vc_Domains v) in
      (if vc_CertPath v = [] then filepath_Join [cacheDir, base @ ''.crt''] else vc_CertPath v,
       if vc_KeyPath v = [] then filepath_Join [cacheDir, base @ ''.key''] else vc_KeyPath v))"

text \<open>\<open>home\<close> is what \<^verbatim>\<open>os.UserHomeDir\<close> returns, \<open>root\<close> says that the effective user id is 0.\<close>

definition expandHome :: "string option \<Rightarrow> string \<Rightarrow> string" where
  "expandHome home p =
     (case home of
        None \<Rightarrow> p
      | Some h \<Rightarrow>
          if HasPrefix p ''~/'' \<or> p = ''~'' then filepath_Join [h, TrimPrefix p ''~'']
          else if HasPrefix p ''$HOME'' then h @ TrimPrefix p ''$HOME''
          else p)"

definition defaultCacheDirRoot :: string where
  "defaultCacheDirRoot = ''/var/lib/routemux/acme''"

definition ResolveCacheDir :: "bool \<Rightarrow> string option \<Rightarrow> string \<Rightarrow> string" where
  "ResolveCacheDir root home configured =
     (if configured \<noteq> [] then expandHome home configured
      else if root then defaultCacheDirRoot
      else (case home of
              None \<Rightarrow> defaultCacheDirRoot
            | Some h \<Rightarrow> if h = [] then defaultCacheDirRoot
                        else filepath_Join [h, ''.local'', ''share'', ''routemux'']))"

definition ParseChallengeMode :: "string \<Rightarrow> ChallengeMode option" where
  "ParseChallengeMode s =
     (let t = ToLower s in
      if t = [] \<or> t = ''http'' then Some ChallengeHTTP01
      else if t = ''https'' then Some ChallengeTLSALPN01
      else None)"

text \<open>Go's division of durations truncates.\<close>

definition quot :: "int \<Rightarrow> int \<Rightarrow> int" where
  "quot a b = (if 0 \<le> a then a div b else - ((- a) div b))"

definition defaultRenewBefore :: "instant \<Rightarrow> instant \<Rightarrow> duration" where
  "defaultRenewBefore notBefore notAfter = quot (t_sub notAfter notBefore) 3"

section \<open>Names that can be certified\<close>

definition labelChar :: "char \<Rightarrow> bool" where
  "labelChar c \<longleftrightarrow> is_alpha c \<or> is_digit c \<or> c = CHR ''-''"

definition validLabel :: "string \<Rightarrow> bool" where
  "validLabel l \<longleftrightarrow>
     l \<noteq> [] \<and> length l \<le> 63 \<and> hd l \<noteq> CHR ''-'' \<and> last l \<noteq> CHR ''-'' \<and> list_all labelChar l"

definition isValidDomainName :: "string \<Rightarrow> bool" where
  "isValidDomainName d \<longleftrightarrow>
     d \<noteq> [] \<and> length d \<le> 253 \<and>
     (let labels = Split (if HasSuffix d ''.'' then butlast d else d) CHR ''.''
      in 2 \<le> length labels \<and> list_all validLabel labels)"

datatype domainError = NoDomainsListed | CatchAllDomain string | WildcardDomain string | InvalidDomain string

definition domainProblem :: "string \<Rightarrow> domainError option" where
  "domainProblem d =
     (if d = [] \<or> d = ''*'' then Some (CatchAllDomain d)
      else if HasPrefix d ''*.'' then Some (WildcardDomain d)
      else if \<not> isValidDomainName d then Some (InvalidDomain d)
      else None)"

fun firstProblem :: "string list \<Rightarrow> domainError option" where
  "firstProblem [] = None"
| "firstProblem (d # ds) = (case domainProblem d of Some e \<Rightarrow> Some e | None \<Rightarrow> firstProblem ds)"

definition ValidateDomainsForACME :: "string list \<Rightarrow> domainError option" where
  "ValidateDomainsForACME domains = (if domains = [] then Some NoDomainsListed else firstProblem domains)"

text \<open>\<open>resolves\<close> is the DNS lookup.\<close>

definition preflightDomains :: "(string \<Rightarrow> bool) \<Rightarrow> string list \<Rightarrow> string list" where
  "preflightDomains resolves domains = filter (\<lambda>d. \<not> resolves d) domains"

lemma domain_samples:
  "isValidDomainName ''example.com.''"
  "\<not> isValidDomainName ''localhost''"
  "\<not> isValidDomainName ''a..b''"
  "\<not> isValidDomainName ''-a.com''"
  "shortestDomain [''www.example.com'', ''example.com'', ''example.org''] = ''example.com''"
  by code_simp+

end
