(* ===== verification/Acme_Cert.thy ===== *)
theory Acme_Cert
  imports Acme_Challenge Acme_Config
begin

text \<open>
  The certificates of the TLS listener (\<^verbatim>\<open>src/acme/certstore.go\<close>), indexed by the name that the
  client asks for, with challenge certificates and a fallback. A certificate is a value of an
  arbitrary type.
\<close>

record 'c certStore =
  byDomain :: "string \<Rightarrow> 'c option"
  cs_challenge :: "string \<Rightarrow> 'c option"
  cs_fallback :: "'c option"

definition newCertStore :: "'c certStore" where
  "newCertStore = \<lparr>byDomain = (\<lambda>_. None), cs_challenge = (\<lambda>_. None), cs_fallback = None\<rparr>"

definition setCert :: "string list \<Rightarrow> 'c \<Rightarrow> 'c certStore \<Rightarrow> 'c certStore" where
  "setCert domains cert s =
     s\<lparr>byDomain := fold (\<lambda>d m. m(ToLower d \<mapsto> cert)) domains (byDomain s)\<rparr>"

definition setFallback :: "'c option \<Rightarrow> 'c certStore \<Rightarrow> 'c certStore" where
  "setFallback cert s = s\<lparr>cs_fallback := cert\<rparr>"

definition hasFallback :: "'c certStore \<Rightarrow> bool" where
  "hasFallback s \<longleftrightarrow> cs_fallback s \<noteq> None"

definition setChallengeCert :: "string \<Rightarrow> 'c \<Rightarrow> 'c certStore \<Rightarrow> 'c certStore" where
  "setChallengeCert domain cert s = s\<lparr>cs_challenge := (cs_challenge s)(ToLower domain \<mapsto> cert)\<rparr>"

definition removeChallengeCert :: "string \<Rightarrow> 'c certStore \<Rightarrow> 'c certStore" where
  "removeChallengeCert domain s = s\<lparr>cs_challenge := (cs_challenge s)(ToLower domain := None)\<rparr>"

definition hasCert :: "string \<Rightarrow> 'c certStore \<Rightarrow> bool" where
  "hasCert domain s \<longleftrightarrow> byDomain s (ToLower domain) \<noteq> None"

text \<open>The fields of \<^verbatim>\<open>tls.ClientHelloInfo\<close> that count, and the protocol of a challenge handshake.\<close>

record clientHello =
  ch_ServerName :: string
  ch_SupportedProtos :: "string list"

definition acmeALPNProto :: string where
  "acmeALPNProto = ''acme-tls/1''"

definition sniName :: "clientHello \<Rightarrow> string" where
  "sniName hello = ToLower (TrimSuffix (ch_ServerName hello) ''.'')"

definition wildcardName :: "string \<Rightarrow> string option" where
  "wildcardName name =
     (case IndexByte name CHR ''.'' of
        None \<Rightarrow> None
      | Some i \<Rightarrow> if 0 < i then Some (CHR ''*'' # drop i name) else None)"

definition GetCertificate :: "'c certStore \<Rightarrow> clientHello \<Rightarrow> 'c option" where
  "GetCertificate s hello =
     (let name = sniName hello in
      if list_ex (\<lambda>p. p = acmeALPNProto) (ch_SupportedProtos hello) then cs_challenge s name
      else (case byDomain s name of
              Some cert \<Rightarrow> Some cert
            | None \<Rightarrow>
                (case Option.bind (wildcardName name) (byDomain s) of
                   Some cert \<Rightarrow> Some cert
                 | None \<Rightarrow> cs_fallback s)))"

text \<open>The challenge certificates are a store of challenge responses, by lower-case name.\<close>

definition challengeOf :: "'c certStore \<Rightarrow> string \<Rightarrow> 'c option" where
  "challengeOf s domain = cs_challenge s (ToLower domain)"

interpretation ccs: challenge_store setChallengeCert removeChallengeCert challengeOf ToLower
  by unfold_locales (simp_all add: setChallengeCert_def removeChallengeCert_def challengeOf_def)

section \<open>Which certificate is served\<close>

lemma byDomain_fold:
  "fold (\<lambda>d m. m(ToLower d \<mapsto> cert)) ds m n = (if n \<in> ToLower ` set ds then Some cert else m n)"
  by (induction ds arbitrary: m) auto

lemma byDomain_setCert:
  "byDomain (setCert ds cert s) n = (if n \<in> ToLower ` set ds then Some cert else byDomain s n)"
  by (simp add: setCert_def byDomain_fold)

lemma setCert_rest [simp]:
  "cs_challenge (setCert ds cert s) = cs_challenge s" "cs_fallback (setCert ds cert s) = cs_fallback s"
  by (simp_all add: setCert_def)

text \<open>An installed certificate is served for each of its names, in any letter case and with or
  without the final dot; every other name is answered as before, unless one of the new names is
  its wildcard.\<close>

theorem installed_certificate:
  assumes "acmeALPNProto \<notin> set (ch_SupportedProtos hello)"
  shows "(sniName hello \<in> ToLower ` set ds \<longrightarrow> GetCertificate (setCert ds cert s) hello = Some cert) \<and>
         (sniName hello \<notin> ToLower ` set ds \<and> wildcardName (sniName hello) \<notin> (Some \<circ> ToLower) ` set ds \<longrightarrow>
            GetCertificate (setCert ds cert s) hello = GetCertificate s hello)"
proof -
  have n: "\<not> list_ex (\<lambda>p. p = acmeALPNProto) (ch_SupportedProtos hello)"
    using assms by (auto simp: list_ex_iff)
  have "Option.bind (wildcardName (sniName hello)) (byDomain (setCert ds cert s)) =
        Option.bind (wildcardName (sniName hello)) (byDomain s)"
    if "wildcardName (sniName hello) \<notin> (Some \<circ> ToLower) ` set ds"
    using that by (cases "wildcardName (sniName hello)") (auto simp: byDomain_setCert)
  with n show ?thesis by (auto simp: GetCertificate_def Let_def byDomain_setCert split: option.split)
qed

definition demo_hello :: clientHello where
  "demo_hello = \<lparr>ch_ServerName = ''WWW.Example.com.'', ch_SupportedProtos = [''h2'']\<rparr>"

lemma installed_certificate_witness:
  "GetCertificate (setCert [''example.com'', ''www.Example.com''] (7 :: nat) newCertStore) demo_hello = Some 7"
proof -
  have p: "acmeALPNProto \<notin> set (ch_SupportedProtos demo_hello)" by code_simp
  have "sniName demo_hello = ToLower ''www.Example.com''" by code_simp
  then have "sniName demo_hello \<in> ToLower ` set [''example.com'', ''www.Example.com'']" by simp
  with installed_certificate[OF p, of "[''example.com'', ''www.Example.com'']" 7 newCertStore] show ?thesis by blast
qed

text \<open>A challenge certificate shows in challenge handshakes only, and there only for its name.\<close>

theorem challenge_certificate_isolated:
  "GetCertificate (setChallengeCert domain cert s) hello =
     (if acmeALPNProto \<in> set (ch_SupportedProtos hello) \<and> sniName hello = ToLower domain then Some cert
      else GetCertificate s hello)"
  by (auto simp: GetCertificate_def setChallengeCert_def Let_def list_ex_iff split: option.split)

end
