(* ===== verification/Acme_Retry.thy ===== *)
theory Acme_Retry
  imports Go_Strings Go_Time
begin

text \<open>
  Backoff of failed certificate requests (\<^verbatim>\<open>src/acme/retry.go\<close>) and the renewal window
  (\<^verbatim>\<open>src/acme/renew.go\<close>). The clock is an argument of each operation. The file that keeps the
  state across restarts is a component of the state; writing it may fail.
\<close>

definition minIssueBackoff :: duration where
  "minIssueBackoff = 5 * minute"

definition maxIssueBackoff :: duration where
  "maxIssueBackoff = 24 * hour"

record issueEntry =
  ie_Failures :: int
  ie_NextEligible :: instant

text \<open>\<open>ie_lastAttempt\<close> of the code is never read and not persisted; it is left out.\<close>

record issueState =
  is_entries :: "string \<Rightarrow> issueEntry option"
  is_path :: string
  is_file :: "(string \<Rightarrow> issueEntry option) option"

definition newEntry :: issueEntry where
  "newEntry = \<lparr>ie_Failures = 0, ie_NextEligible = zeroTime\<rparr>"

text \<open>\<open>load\<close> keeps what is still within its window.\<close>

definition loadEntries ::
  "instant \<Rightarrow> (string \<Rightarrow> issueEntry option) \<Rightarrow> (string \<Rightarrow> issueEntry option) \<Rightarrow> string \<Rightarrow> issueEntry option" where
  "loadEntries now stored old k =
     (case stored k of
        Some e \<Rightarrow> if now < ie_NextEligible e then Some e else old k
      | None \<Rightarrow> old k)"

definition is_load :: "instant \<Rightarrow> issueState \<Rightarrow> issueState" where
  "is_load now s =
     (if is_path s = [] then s
      else (case is_file s of
              None \<Rightarrow> s
            | Some stored \<Rightarrow> s\<lparr>is_entries := loadEntries now stored (is_entries s)\<rparr>))"

definition withPersistence ::
  "instant \<Rightarrow> (string \<Rightarrow> issueEntry option) option \<Rightarrow> string \<Rightarrow> issueState" where
  "withPersistence now file path =
     is_load now \<lparr>is_entries = (\<lambda>_. None), is_path = path, is_file = file\<rparr>"

definition saveLocked :: "bool \<Rightarrow> issueState \<Rightarrow> issueState" where
  "saveLocked writes s =
     (if is_path s = [] \<or> \<not> writes then s else s\<lparr>is_file := Some (is_entries s)\<rparr>)"

definition issueKey :: "string list \<Rightarrow> string" where
  "issueKey domains = Join domains '',''"

text \<open>\<^const>\<open>None\<close>: go ahead; otherwise the remaining wait.\<close>

definition shouldAttempt :: "instant \<Rightarrow> string list \<Rightarrow> issueState \<Rightarrow> duration option" where
  "shouldAttempt now domains s =
     (case is_entries s (issueKey domains) of
        None \<Rightarrow> None
      | Some e \<Rightarrow> if now < ie_NextEligible e then Some (t_sub (ie_NextEligible e) now) else None)"

definition entryOf :: "string list \<Rightarrow> issueState \<Rightarrow> issueEntry" where
  "entryOf domains s = (case is_entries s (issueKey domains) of None \<Rightarrow> newEntry | Some e \<Rightarrow> e)"

definition recordAttempt :: "string list \<Rightarrow> issueState \<Rightarrow> issueState" where
  "recordAttempt domains s = s\<lparr>is_entries := (is_entries s)(issueKey domains \<mapsto> entryOf domains s)\<rparr>"

definition recordSuccess :: "bool \<Rightarrow> string list \<Rightarrow> issueState \<Rightarrow> issueState" where
  "recordSuccess writes domains s =
     saveLocked writes (s\<lparr>is_entries := (is_entries s)(issueKey domains := None)\<rparr>)"

text \<open>An error: its text, its Retry-After when it is a rate limit of the authority, and its problem
  type when it wraps an error of the protocol.\<close>

record issueError =
  er_msg :: string
  er_rateLimit :: "duration option"
  er_problem :: "string option"

function backoffLoop :: "int \<Rightarrow> int \<Rightarrow> duration \<Rightarrow> duration" where
  "backoffLoop i failures backoff =
     (if i < failures \<and> backoff < maxIssueBackoff then backoffLoop (i + 1) failures (backoff * 2) else backoff)"
  by pat_completeness auto
termination
  by (relation "measure (\<lambda>(i, failures, backoff). nat (failures - i))") auto

declare backoffLoop.simps [simp del]

definition backoffFor :: "int \<Rightarrow> duration" where
  "backoffFor failures =
     (let backoff = backoffLoop 1 failures minIssueBackoff
      in if maxIssueBackoff < backoff then maxIssueBackoff else backoff)"

definition failureWait :: "int \<Rightarrow> issueError \<Rightarrow> duration" where
  "failureWait failures err =
     (case er_rateLimit err of
        Some d \<Rightarrow> if 0 < d then d else backoffFor failures
      | None \<Rightarrow> backoffFor failures)"

definition recordFailure ::
  "bool \<Rightarrow> instant \<Rightarrow> string list \<Rightarrow> issueError \<Rightarrow> issueState \<Rightarrow> duration \<times> issueState" where
  "recordFailure writes now domains err s =
     (let failures = ie_Failures (entryOf domains s) + 1;
          wait = failureWait failures err;
          e = \<lparr>ie_Failures = failures, ie_NextEligible = t_add now wait\<rparr>
      in (wait, saveLocked writes (s\<lparr>is_entries := (is_entries s)(issueKey domains \<mapsto> e)\<rparr>)))"

definition isPermanentError :: "issueError \<Rightarrow> bool" where
  "isPermanentError err \<longleftrightarrow>
     list_ex (\<lambda>frag. Contains (ToLower (er_msg err)) frag)
       [''rejectedidentifier'', ''unsupportedidentifier'', ''policy'', ''malformed'']"

section \<open>The length of the backoff\<close>

lemma backoffLoop_closed:
  "0 < b \<Longrightarrow> b \<le> maxIssueBackoff \<Longrightarrow> i \<le> failures \<Longrightarrow>
   min (backoffLoop i failures b) maxIssueBackoff = min (b * 2 ^ nat (failures - i)) maxIssueBackoff"
proof (induction i failures b rule: backoffLoop.induct)
  case (1 i failures b)
  show ?case
  proof (cases "i < failures \<and> b < maxIssueBackoff")
    case True
    then have n: "nat (failures - i) = Suc (nat (failures - (i + 1)))" by linarith
    show ?thesis
    proof (cases "b * 2 \<le> maxIssueBackoff")
      case le: True
      with 1 True n show ?thesis by (subst backoffLoop.simps) (simp add: mult.assoc)
    next
      case False
      then have "backoffLoop (i + 1) failures (b * 2) = b * 2" by (subst backoffLoop.simps) simp
      moreover have "maxIssueBackoff \<le> b * 2 ^ nat (failures - i)"
      proof -
        have "b * 2 \<le> b * 2 * 2 ^ nat (failures - (i + 1))" using 1(2) by simp
        with False n show ?thesis by (simp add: mult.assoc)
      qed
      ultimately show ?thesis using True False by (subst backoffLoop.simps) simp
    qed
  next
    case False
    then show ?thesis
    proof (cases "i < failures")
      case True
      with False 1(3) have "b = maxIssueBackoff" by simp
      moreover have "b \<le> b * 2 ^ nat (failures - i)" using 1(2) by simp
      ultimately show ?thesis using True by (subst backoffLoop.simps) simp
    next
      case ge: False
      with 1(4) have "failures = i" by simp
      then show ?thesis by (subst backoffLoop.simps) simp
    qed
  qed
qed

text \<open>The wait doubles with every failure in a row, from five minutes up to a day.\<close>

lemma backoffFor_closed: "1 \<le> n \<Longrightarrow> backoffFor n = min (minIssueBackoff * 2 ^ nat (n - 1)) maxIssueBackoff"
proof -
  assume "1 \<le> n"
  have "backoffFor n = min (backoffLoop 1 n minIssueBackoff) maxIssueBackoff"
    by (simp add: backoffFor_def Let_def min_def)
  also have "\<dots> = min (minIssueBackoff * 2 ^ nat (n - 1)) maxIssueBackoff"
    using \<open>1 \<le> n\<close> by (intro backoffLoop_closed)
      (simp_all add: minIssueBackoff_def maxIssueBackoff_def minute_def hour_def second_def)
  finally show ?thesis .
qed


section \<open>What a failure does to later attempts\<close>

lemma saveLocked_entries [simp]: "is_entries (saveLocked w s) = is_entries s" "is_path (saveLocked w s) = is_path s"
  by (simp_all add: saveLocked_def)

lemma recordFailure_entry:
  assumes "recordFailure writes now domains err s = (wait, s')"
  shows "is_entries s' = (is_entries s)(issueKey domains \<mapsto>
           \<lparr>ie_Failures = ie_Failures (entryOf domains s) + 1, ie_NextEligible = t_add now wait\<rparr>)"
    and "wait = failureWait (ie_Failures (entryOf domains s) + 1) err"
    and "writes \<Longrightarrow> is_path s \<noteq> [] \<Longrightarrow> is_file s' = Some (is_entries s')"
  using assms by (auto simp: recordFailure_def Let_def saveLocked_def)

lemma recordFailure_blocks:
  assumes "recordFailure writes now domains err s = (wait, s')"
  shows "shouldAttempt t domains s' = (if t < t_add now wait then Some (t_sub (t_add now wait) t) else None)"
    and "issueKey other \<noteq> issueKey domains \<Longrightarrow> shouldAttempt t other s' = shouldAttempt t other s"
  using recordFailure_entry(1)[OF assms] by (simp_all add: shouldAttempt_def)

lemma load_keeps:
  "is_path s \<noteq> [] \<Longrightarrow> is_file s = Some stored \<Longrightarrow> stored k = Some e \<Longrightarrow> now < ie_NextEligible e \<Longrightarrow>
   is_entries (is_load now s) k = Some e"
  by (simp add: is_load_def loadEntries_def)

text \<open>The backoff survives a restart: a process that starts before the wait is over and reads the
  file of the last failure does not ask the authority again before the wait is over either, for
  these domains; other domains are not held back by the failure.\<close>

theorem backoff_survives_restart:
  assumes "recordFailure True now domains err s = (wait, s')" and "is_path s \<noteq> []"
    and "start \<le> t" and "t < t_add now wait" and "issueKey other \<noteq> issueKey domains"
  shows "shouldAttempt t domains s' \<noteq> None \<and>
         shouldAttempt t domains (withPersistence start (is_file s') (is_path s)) \<noteq> None \<and>
         shouldAttempt t other s' = shouldAttempt t other s"
proof (intro conjI)
  note e = recordFailure_entry[OF assms(1)]
  from recordFailure_blocks[OF assms(1)] assms(4,5)
  show "shouldAttempt t domains s' \<noteq> None" "shouldAttempt t other s' = shouldAttempt t other s" by auto
  let ?r = "\<lparr>is_entries = (\<lambda>_. None), is_path = is_path s, is_file = is_file s'\<rparr>"
  have "start < t_add now wait" using assms(3,4) by (rule le_less_trans)
  with e(1) e(3)[OF TrueI assms(2)] assms(2) have "is_entries (is_load start ?r) (issueKey domains) =
      Some \<lparr>ie_Failures = ie_Failures (entryOf domains s) + 1, ie_NextEligible = t_add now wait\<rparr>"
    by (intro load_keeps[of _ "is_entries s'"]) auto
  with assms(4) show "shouldAttempt t domains (withPersistence start (is_file s') (is_path s)) \<noteq> None"
    by (simp add: shouldAttempt_def withPersistence_def)
qed

text \<open>Failures in a row, each at its instant and with its error.\<close>

definition failRun :: "bool \<Rightarrow> string list \<Rightarrow> (instant \<times> issueError) list \<Rightarrow> issueState \<Rightarrow> issueState" where
  "failRun writes domains fails s =
     fold (\<lambda>(now, err) s. snd (recordFailure writes now domains err (recordAttempt domains s))) fails s"

lemma entryOf_recordAttempt [simp]: "entryOf domains (recordAttempt domains s) = entryOf domains s"
  by (simp add: entryOf_def recordAttempt_def)

lemma entryOf_recordFailure:
  "ie_Failures (entryOf domains (snd (recordFailure writes now domains err s))) = ie_Failures (entryOf domains s) + 1"
proof -
  obtain wait s' where r: "recordFailure writes now domains err s = (wait, s')"
    by (cases "recordFailure writes now domains err s")
  with recordFailure_entry(1)[OF r] show ?thesis by (simp add: entryOf_def)
qed

lemma failRun_count:
  "ie_Failures (entryOf domains (failRun writes domains fails s)) = ie_Failures (entryOf domains s) + int (length fails)"
  unfolding failRun_def
proof (induction fails arbitrary: s)
  case (Cons f fails)
  then show ?case by (cases f) (simp add: entryOf_recordFailure)
qed simp

text \<open>C32. After \<open>n\<close> failures in a row the next one waits five minutes times two to the \<open>n\<close>, at most a
  day, unless the authority named its own wait; a success starts the count anew.\<close>

theorem backoff_doubles:
  assumes "is_entries s (issueKey domains) = None" and "er_rateLimit err = None"
  shows "fst (recordFailure writes now domains err (failRun writes domains fails s)) =
           min (5 * minute * 2 ^ length fails) (24 * hour)"
proof -
  have "ie_Failures (entryOf domains (failRun writes domains fails s)) = int (length fails)"
    using assms(1) unfolding failRun_count by (simp add: entryOf_def newEntry_def)
  then show ?thesis
    using assms(2) backoffFor_closed[of "int (length fails) + 1"]
    by (simp add: recordFailure_def Let_def failureWait_def minIssueBackoff_def maxIssueBackoff_def)
qed

definition demo_error :: issueError where
  "demo_error = \<lparr>er_msg = ''timeout'', er_rateLimit = None, er_problem = None\<rparr>"

definition demo_issue :: issueState where
  "demo_issue = \<lparr>is_entries = (\<lambda>_. None), is_path = ''/c/issue-state.json'', is_file = None\<rparr>"

lemma backoff_doubles_witness:
  "fst (recordFailure True (Instant 0) [''a.org''] demo_error
      (failRun True [''a.org''] [(Instant 0, demo_error), (Instant 1, demo_error)] demo_issue)) = 20 * minute"
  using backoff_doubles[of demo_issue "[''a.org'']" demo_error True "Instant 0" "[(Instant 0, demo_error), (Instant 1, demo_error)]"]
  by (simp add: demo_issue_def demo_error_def minute_def hour_def second_def)

lemma backoff_survives_restart_witness:
  "shouldAttempt (Instant (4 * minute)) [''a.org'']
     (withPersistence (Instant minute)
        (is_file (snd (recordFailure True (Instant 0) [''a.org''] demo_error demo_issue))) ''/c/issue-state.json'') \<noteq> None"
proof -
  obtain wait s' where r: "recordFailure True (Instant 0) [''a.org''] demo_error demo_issue = (wait, s')"
    by (cases "recordFailure True (Instant 0) [''a.org''] demo_error demo_issue")
  have "fst (recordFailure True (Instant 0) [''a.org''] demo_error demo_issue) = 5 * minute" by code_simp
  with r have w: "wait = 5 * minute" by simp
  have "issueKey [''b.org''] \<noteq> issueKey [''a.org'']" by code_simp
  with backoff_survives_restart[OF r, of "Instant minute" "Instant (4 * minute)" "[''b.org'']"] w r show ?thesis
    by (simp add: demo_issue_def less_instant_def less_eq_instant_def t_add_def minute_def second_def)
qed

lemma Contains_left: "Contains s sub \<Longrightarrow> Contains (s @ t) sub"
  by (auto simp: Contains_iff sublist_append)

text \<open>The classification reads the text of the error, which names the domain: every error of a
  domain whose name has the word \<open>policy\<close> in it counts as permanent.\<close>

theorem permanent_by_domain_name:
  "isPermanentError \<lparr>er_msg = ''accepting challenge for policy.example.com: '' @ detail, er_rateLimit = r, er_problem = p\<rparr>"
proof -
  have "Contains (ToLower ''accepting challenge for policy.example.com: '') ''policy''" by code_simp
  then have "Contains (ToLower ''accepting challenge for policy.example.com: '' @ ToLower detail) ''policy''"
    by (rule Contains_left)
  then have "Contains (ToLower (''accepting challenge for policy.example.com: '' @ detail)) ''policy''"
    by (simp only: ToLower_def map_append)
  then show ?thesis by (simp add: isPermanentError_def del: append_Cons)
qed

end
