(* ===== verification/Acme_Issue.thy ===== *)
theory Acme_Issue
  imports Acme_Cert Acme_Retry
begin

text \<open>
  The dialogue with a certificate authority (\<^verbatim>\<open>src/acme/issue.go\<close>): solving authorizations with a
  challenge window around each, then fetching the certificate. The client library is a parameter:
  its calls are functions of what the code passes to them, and those that make the authority look
  at this server also get the stores of challenge responses as they are at that moment.
\<close>

section \<open>The client\<close>

record order =
  od_URI :: string
  od_FinalizeURL :: string
  od_AuthzURLs :: "string list"
  od_Status :: string
  od_CertURL :: string

record challenge =
  cg_Type :: string
  cg_Token :: string

record authorization =
  az_Status :: string
  az_Domain :: string
  az_Challenges :: "challenge list"

text \<open>The two stores of responses that an issuer writes: tokens and challenge certificates.\<close>

record 'c stores =
  st_http :: httpChallengeServer
  st_certs :: "'c certStore"

record ('c, 'k) acmeClient =
  cl_AuthorizeOrder :: "string list \<Rightarrow> issueError + order"
  cl_GetAuthorization :: "string \<Rightarrow> issueError + authorization"
  cl_HTTP01Response :: "string \<Rightarrow> issueError + string"
  cl_HTTP01Path :: "string \<Rightarrow> string"
  cl_ALPNCert :: "string \<Rightarrow> string \<Rightarrow> issueError + 'c"
  cl_Accept :: "'c stores \<Rightarrow> challenge \<Rightarrow> issueError option"
  cl_WaitAuthorization :: "'c stores \<Rightarrow> string \<Rightarrow> issueError option"
  cl_WaitOrder :: "string \<Rightarrow> issueError + order"
  cl_GenerateKey :: "issueError + 'k"
  cl_CreateCSR :: "string list \<Rightarrow> 'k \<Rightarrow> issueError + string"
  cl_CreateOrderCert :: "string \<Rightarrow> string \<Rightarrow> string \<times> (issueError + string list)"
  cl_GetOrder :: "nat \<Rightarrow> string \<Rightarrow> issueError + order"
  cl_FetchCert :: "string \<Rightarrow> issueError + string list"
  cl_cancelled :: "nat \<Rightarrow> bool"

definition errText :: "string \<Rightarrow> issueError" where
  "errText msg = \<lparr>er_msg = msg, er_rateLimit = None, er_problem = None\<rparr>"

text \<open>\<^verbatim>\<open>fmt.Errorf("...: %w", err)\<close>.\<close>

definition wrapErr :: "string \<Rightarrow> issueError \<Rightarrow> issueError" where
  "wrapErr prefx e = e\<lparr>er_msg := prefx @ '': '' @ er_msg e\<rparr>"

section \<open>One authorization\<close>

definition findChallenge :: "challenge list \<Rightarrow> string \<Rightarrow> challenge option" where
  "findChallenge cs typ = find (\<lambda>c. cg_Type c = typ) cs"

definition challengeType :: "ChallengeMode \<Rightarrow> string" where
  "challengeType mode = (case mode of ChallengeTLSALPN01 \<Rightarrow> ''tls-alpn-01'' | ChallengeHTTP01 \<Rightarrow> ''http-01'')"

text \<open>\<open>listens\<close> is what listening on port 80 gives. The result is the state with the response in
  place, and the clean-up that takes it away.\<close>

definition prepareChallenge ::
  "('c, 'k) acmeClient \<Rightarrow> ChallengeMode \<Rightarrow> bool \<Rightarrow> string \<Rightarrow> challenge \<Rightarrow> 'c stores \<Rightarrow>
   issueError + 'c stores" where
  "prepareChallenge cl mode listens domain chal st =
     (case mode of
        ChallengeTLSALPN01 \<Rightarrow>
          (case cl_ALPNCert cl (cg_Token chal) domain of
             Inl e \<Rightarrow> Inl (wrapErr ''building TLS-ALPN-01 cert'' e)
           | Inr cert \<Rightarrow> Inr (st\<lparr>st_certs := setChallengeCert domain cert (st_certs st)\<rparr>))
      | ChallengeHTTP01 \<Rightarrow>
          (case cl_HTTP01Response cl (cg_Token chal) of
             Inl e \<Rightarrow> Inl (wrapErr ''building HTTP-01 response'' e)
           | Inr resp \<Rightarrow> Inr (st\<lparr>st_http := hc_add listens (cl_HTTP01Path cl (cg_Token chal)) resp (st_http st)\<rparr>)))"

definition cleanupChallenge ::
  "('c, 'k) acmeClient \<Rightarrow> ChallengeMode \<Rightarrow> string \<Rightarrow> challenge \<Rightarrow> 'c stores \<Rightarrow> 'c stores" where
  "cleanupChallenge cl mode domain chal st =
     (case mode of
        ChallengeTLSALPN01 \<Rightarrow> st\<lparr>st_certs := removeChallengeCert domain (st_certs st)\<rparr>
      | ChallengeHTTP01 \<Rightarrow> st\<lparr>st_http := hc_remove (cl_HTTP01Path cl (cg_Token chal)) (st_http st)\<rparr>)"

definition acceptAndWait ::
  "('c, 'k) acmeClient \<Rightarrow> string \<Rightarrow> string \<Rightarrow> challenge \<Rightarrow> 'c stores \<Rightarrow> issueError option" where
  "acceptAndWait cl authzURL domain chal st =
     (case cl_Accept cl st chal of
        Some e \<Rightarrow> Some (wrapErr (''accepting challenge for '' @ domain) e)
      | None \<Rightarrow>
          (case cl_WaitAuthorization cl st authzURL of
             Some e \<Rightarrow> Some (wrapErr (''challenge validation for '' @ domain) e)
           | None \<Rightarrow> None))"

definition solveAuthorization ::
  "('c, 'k) acmeClient \<Rightarrow> ChallengeMode \<Rightarrow> bool \<Rightarrow> string \<Rightarrow> 'c stores \<Rightarrow> issueError option \<times> 'c stores" where
  "solveAuthorization cl mode listens authzURL st =
     (case cl_GetAuthorization cl authzURL of
        Inl e \<Rightarrow> (Some (wrapErr ''getting authorization'' e), st)
      | Inr authz \<Rightarrow>
          if az_Status authz = ''valid'' then (None, st)
          else (case findChallenge (az_Challenges authz) (challengeType mode) of
                  None \<Rightarrow> (Some (errText (''no supported challenge for '' @ az_Domain authz)), st)
                | Some chal \<Rightarrow>
                    (case prepareChallenge cl mode listens (az_Domain authz) chal st of
                       Inl e \<Rightarrow> (Some e, st)
                     | Inr st' \<Rightarrow>
                         (acceptAndWait cl authzURL (az_Domain authz) chal st',
                          cleanupChallenge cl mode (az_Domain authz) chal st'))))"

fun solveAll ::
  "('c, 'k) acmeClient \<Rightarrow> ChallengeMode \<Rightarrow> bool \<Rightarrow> string list \<Rightarrow> 'c stores \<Rightarrow> issueError option \<times> 'c stores" where
  "solveAll cl mode listens [] st = (None, st)"
| "solveAll cl mode listens (u # us) st =
     (case solveAuthorization cl mode listens u st of
        (Some e, st') \<Rightarrow> (Some e, st')
      | (None, st') \<Rightarrow> solveAll cl mode listens us st')"

section \<open>The certificate\<close>

text \<open>The poll loop: at most fifteen looks at the order; \<open>n\<close> is what is left of them.\<close>

fun pollOrder :: "('c, 'k) acmeClient \<Rightarrow> string \<Rightarrow> nat \<Rightarrow> string \<Rightarrow> issueError + string" where
  "pollOrder cl uri 0 certURL = Inr certURL"
| "pollOrder cl uri (Suc n) certURL =
     (case cl_GetOrder cl (14 - n) uri of
        Inl e \<Rightarrow> Inl (wrapErr ''polling order'' e)
      | Inr o' \<Rightarrow>
          if od_Status o' = ''invalid'' then Inl (errText ''order became invalid during finalization'')
          else if od_Status o' = ''valid'' \<and> od_CertURL o' \<noteq> [] then Inr (od_CertURL o')
          else if cl_cancelled cl (14 - n) then Inl (errText ''context canceled'')
          else pollOrder cl uri n certURL)"

definition fetchCert :: "('c, 'k) acmeClient \<Rightarrow> string \<Rightarrow> 'k \<Rightarrow> issueError + string list \<times> 'k" where
  "fetchCert cl url key =
     (case cl_FetchCert cl url of
        Inl e \<Rightarrow> Inl (wrapErr ''fetching certificate'' e)
      | Inr der \<Rightarrow> Inr (der, key))"

definition finalize ::
  "('c, 'k) acmeClient \<Rightarrow> string \<Rightarrow> order \<Rightarrow> string \<Rightarrow> string \<Rightarrow> 'k \<Rightarrow> issueError + string list \<times> 'k" where
  "finalize cl orderURI od finalizeURL csr key =
     (if od_Status od = ''valid'' \<and> od_CertURL od \<noteq> [] then fetchCert cl (od_CertURL od) key
      else if finalizeURL = [] then Inl (errText ''finalizing order: no finalize URL available'')
      else (case cl_CreateOrderCert cl finalizeURL csr of
              (certURL, Inr der) \<Rightarrow> Inr (der, key)
            | (certURL, Inl _) \<Rightarrow>
                if orderURI = [] then Inl (errText ''finalizing order: order URI unavailable for polling'')
                else (case pollOrder cl orderURI 15 certURL of
                        Inl e \<Rightarrow> Inl e
                      | Inr url \<Rightarrow>
                          if url = [] then Inl (errText ''finalizing order: certificate URL never became available'')
                          else fetchCert cl url key)))"

definition afterSolved ::
  "('c, 'k) acmeClient \<Rightarrow> string list \<Rightarrow> order \<Rightarrow> issueError + string list \<times> 'k" where
  "afterSolved cl domains od0 =
     (case cl_WaitOrder cl (od_URI od0) of
        Inl e \<Rightarrow> Inl (wrapErr ''waiting for order'' e)
      | Inr od \<Rightarrow>
          let finalizeURL = (if od_FinalizeURL od \<noteq> [] then od_FinalizeURL od else od_FinalizeURL od0) in
          (case cl_GenerateKey cl of
             Inl e \<Rightarrow> Inl e
           | Inr key \<Rightarrow>
               (case cl_CreateCSR cl domains key of
                  Inl e \<Rightarrow> Inl (wrapErr ''creating CSR'' e)
                | Inr csr \<Rightarrow> finalize cl (od_URI od0) od finalizeURL csr key)))"

definition obtainCertificate ::
  "('c, 'k) acmeClient \<Rightarrow> ChallengeMode \<Rightarrow> bool \<Rightarrow> string list \<Rightarrow> 'c stores \<Rightarrow>
   (issueError + string list \<times> 'k) \<times> 'c stores" where
  "obtainCertificate cl mode listens domains st =
     (case cl_AuthorizeOrder cl domains of
        Inl e \<Rightarrow> (Inl (wrapErr ''creating order'' e), st)
      | Inr od \<Rightarrow>
          (case solveAll cl mode listens (od_AuthzURLs od) st of
             (Some e, st') \<Rightarrow> (Inl e, st')
           | (None, st') \<Rightarrow> (afterSolved cl domains od, st')))"

section \<open>Windows\<close>

text \<open>While the authority is asked to validate, the response stands; afterwards it is gone, on
  every path.\<close>

lemma prepared_response:
  assumes "prepareChallenge cl mode listens domain chal st = Inr st'"
  shows "case mode of
           ChallengeTLSALPN01 \<Rightarrow>
             \<exists>cert. cl_ALPNCert cl (cg_Token chal) domain = Inr cert \<and> challengeOf (st_certs st') domain = Some cert
         | ChallengeHTTP01 \<Rightarrow>
             \<exists>resp. cl_HTTP01Response cl (cg_Token chal) = Inr resp \<and>
                    hc_tokens (st_http st') (cl_HTTP01Path cl (cg_Token chal)) = Some resp"
  using assms
  by (auto simp: prepareChallenge_def ccs.get_put hcs.get_put split: ChallengeMode.splits sum.splits)

lemma cleaned_up:
  assumes "prepareChallenge cl mode listens domain chal st = Inr st'"
  shows "byDomain (st_certs (cleanupChallenge cl mode domain chal st')) = byDomain (st_certs st)"
    and "challengeOf (st_certs (cleanupChallenge cl mode domain chal st')) k =
           (if mode = ChallengeTLSALPN01 \<and> ToLower k = ToLower domain then None else challengeOf (st_certs st) k)"
    and "hc_tokens (st_http (cleanupChallenge cl mode domain chal st')) p =
           (if mode = ChallengeHTTP01 \<and> p = cl_HTTP01Path cl (cg_Token chal) then None
            else hc_tokens (st_http st) p)"
  using assms
  by (auto simp: prepareChallenge_def cleanupChallenge_def ccs.get_put ccs.get_del hcs.get_put hcs.get_del
        setChallengeCert_def removeChallengeCert_def challengeOf_def split: ChallengeMode.splits sum.splits)

definition no_responses :: "'c stores \<Rightarrow> bool" where
  "no_responses st \<longleftrightarrow> (\<forall>p. hc_tokens (st_http st) p = None) \<and> (\<forall>k. challengeOf (st_certs st) k = None)"

lemma solve_leaves_nothing:
  "no_responses st \<Longrightarrow> no_responses (snd (solveAuthorization cl mode listens u st)) \<and>
   byDomain (st_certs (snd (solveAuthorization cl mode listens u st))) = byDomain (st_certs st)"
  by (auto simp: solveAuthorization_def no_responses_def cleaned_up split: sum.split option.split)

lemma solveAll_leaves_nothing:
  "no_responses st \<Longrightarrow> no_responses (snd (solveAll cl mode listens us st)) \<and>
   byDomain (st_certs (snd (solveAll cl mode listens us st))) = byDomain (st_certs st)"
proof (induction us arbitrary: st)
  case (Cons u us)
  obtain e st' where s: "solveAuthorization cl mode listens u st = (e, st')"
    by (cases "solveAuthorization cl mode listens u st")
  with solve_leaves_nothing[OF Cons.prems, of cl mode listens u]
  have "no_responses st'" "byDomain (st_certs st') = byDomain (st_certs st)" by simp_all
  with s Cons.IH[of st'] show ?case by (cases e) simp_all
qed simp

text \<open>C13. Asking for a certificate leaves no challenge response behind and touches no installed
  certificate, whether it succeeds or fails.\<close>

theorem obtain_leaves_nothing:
  assumes "no_responses st"
  shows "no_responses (snd (obtainCertificate cl mode listens domains st)) \<and>
         byDomain (st_certs (snd (obtainCertificate cl mode listens domains st))) = byDomain (st_certs st)"
proof (cases "cl_AuthorizeOrder cl domains")
  case (Inl e)
  with assms show ?thesis by (simp add: obtainCertificate_def)
next
  case (Inr od)
  obtain e st' where s: "solveAll cl mode listens (od_AuthzURLs od) st = (e, st')"
    by (cases "solveAll cl mode listens (od_AuthzURLs od) st")
  with Inr have "snd (obtainCertificate cl mode listens domains st) = st'"
    by (cases e) (simp_all add: obtainCertificate_def)
  with s solveAll_leaves_nothing[OF assms, of cl mode listens "od_AuthzURLs od"] show ?thesis by simp
qed

section \<open>A concrete authority\<close>

text \<open>An authority that validates exactly when it finds the response it asked for.\<close>

definition demo_client :: "(nat, nat) acmeClient" where
  "demo_client =
     \<lparr>cl_AuthorizeOrder = (\<lambda>ds. Inr \<lparr>od_URI = ''o'', od_FinalizeURL = ''f'', od_AuthzURLs = [''az''], od_Status = ''pending'', od_CertURL = []\<rparr>),
      cl_GetAuthorization = (\<lambda>u. Inr \<lparr>az_Status = ''pending'', az_Domain = ''a.org'', az_Challenges = [\<lparr>cg_Type = ''http-01'', cg_Token = ''t''\<rparr>]\<rparr>),
      cl_HTTP01Response = (\<lambda>t. Inr (t @ ''.key'')), cl_HTTP01Path = (\<lambda>t. challengePrefix @ t),
      cl_ALPNCert = (\<lambda>t d. Inr 1),
      cl_Accept = (\<lambda>st c. None),
      cl_WaitAuthorization = (\<lambda>st u. if hc_tokens (st_http st) (challengePrefix @ ''t'') = Some ''t.key'' then None else Some (errText ''invalid'')),
      cl_WaitOrder = (\<lambda>u. Inr \<lparr>od_URI = [], od_FinalizeURL = [], od_AuthzURLs = [], od_Status = ''ready'', od_CertURL = []\<rparr>),
      cl_GenerateKey = Inr 5, cl_CreateCSR = (\<lambda>ds k. Inr ''csr''),
      cl_CreateOrderCert = (\<lambda>u c. (''c'', Inr [''leaf''])),
      cl_GetOrder = (\<lambda>n u. Inl (errText ''x'')), cl_FetchCert = (\<lambda>u. Inl (errText ''x'')), cl_cancelled = (\<lambda>n. False)\<rparr>"

definition demo_stores :: "nat stores" where
  "demo_stores = \<lparr>st_http = newHTTPChallengeServer True, st_certs = newCertStore\<rparr>"

lemma demo_obtain:
  "fst (obtainCertificate demo_client ChallengeHTTP01 True [''a.org''] demo_stores) = Inr ([''leaf''], 5)"
  by code_simp

lemma obtain_leaves_nothing_witness:
  "no_responses (snd (obtainCertificate demo_client ChallengeHTTP01 True [''a.org''] demo_stores))"
proof -
  have "no_responses demo_stores"
    by (simp add: no_responses_def demo_stores_def newHTTPChallengeServer_def newCertStore_def challengeOf_def)
  from obtain_leaves_nothing[OF this] show ?thesis by blast
qed

end
