(* ===== verification/Acme_Account.thy ===== *)
theory Acme_Account
  imports Acme_Issue
begin

text \<open>
  What the ACME client keeps on disk and how (\<^verbatim>\<open>src/acme/fileutil.go\<close>, \<^verbatim>\<open>src/acme/account.go\<close>, and
  \<open>discardAccount\<close> of \<^verbatim>\<open>src/acme/manager.go\<close>): files written by way of a temporary file, the key and the
  metadata of an account with an authority. An operation on the disk yields every disk it goes
  through, as another process may read and the machine may stop between two system calls; the last one is
  what it leaves behind.
\<close>

type_synonym disk = "string \<Rightarrow> string option"

section \<open>Writing a file\<close>

text \<open>What the system calls of one write return: \<open>fw_temp\<close> is the name of the new temporary file,
  \<open>fw_write\<close> the number of bytes written before an error.\<close>

record fsWorld =
  fw_mkdir :: bool
  fw_temp :: "string option"
  fw_write :: "nat option"
  fw_chmod :: bool
  fw_close :: bool
  fw_rename :: bool

definition writeFileAtomic :: "fsWorld \<Rightarrow> string \<Rightarrow> string \<Rightarrow> disk \<Rightarrow> issueError option \<times> disk list" where
  "writeFileAtomic w path data d =
     (if \<not> fw_mkdir w then (Some (errText ''mkdir''), [d])
      else (case fw_temp w of
              None \<Rightarrow> (Some (errText ''create''), [d])
            | Some tmp \<Rightarrow>
                let d1 = d(tmp \<mapsto> []) in
                (case fw_write w of
                   Some n \<Rightarrow>
                     let d2 = d1(tmp \<mapsto> take n data) in (Some (errText ''write''), [d, d1, d2, d2(tmp := None)])
                 | None \<Rightarrow>
                     let d2 = d1(tmp \<mapsto> data) in
                     if \<not> fw_chmod w \<or> \<not> fw_close w \<or> \<not> fw_rename w
                     then (Some (errText ''chmod, close or rename''), [d, d1, d2, d2(tmp := None)])
                     else (None, [d, d1, d2, d2(tmp := None, path \<mapsto> data)]))))"

text \<open>\<^verbatim>\<open>os.CreateTemp\<close> takes a name that is not in use, and none of the names in \<open>ps\<close>.\<close>

definition freshTemp :: "fsWorld \<Rightarrow> string set \<Rightarrow> disk \<Rightarrow> bool" where
  "freshTemp w ps d \<longleftrightarrow> (case fw_temp w of None \<Rightarrow> True | Some t \<Rightarrow> d t = None \<and> t \<notin> ps)"

text \<open>Two files one after the other, with any way to write one.\<close>

definition writeTwo ::
  "('w \<Rightarrow> string \<Rightarrow> string \<Rightarrow> disk \<Rightarrow> 'e option \<times> disk list) \<Rightarrow> 'w \<Rightarrow> 'w \<Rightarrow>
   string \<Rightarrow> string \<Rightarrow> string \<Rightarrow> string \<Rightarrow> disk \<Rightarrow> 'e option \<times> disk list" where
  "writeTwo wr w1 w2 p s q t d =
     (case wr w1 p s d of
        (Some e, ds) \<Rightarrow> (Some e, ds)
      | (None, ds) \<Rightarrow> (case wr w2 q t (last ds) of (r, ds') \<Rightarrow> (r, ds @ ds')))"

text \<open>What a client of such a write relies on: readers see a file as it was or with its whole new
  contents, an error leaves the disk as it was, success leaves the new file and nothing else.\<close>

locale whole_writes =
  fixes wr :: "'w \<Rightarrow> string \<Rightarrow> string \<Rightarrow> disk \<Rightarrow> 'e option \<times> disk list"
    and fresh :: "'w \<Rightarrow> string set \<Rightarrow> disk \<Rightarrow> bool"
  assumes seen: "fresh w ps d \<Longrightarrow> p \<in> ps \<Longrightarrow> q \<in> ps \<Longrightarrow> d' \<in> set (snd (wr w p s d)) \<Longrightarrow>
      d' q = d q \<or> (q = p \<and> d' q = Some s \<and> fst (wr w p s d) = None)"
    and left: "fresh w ps d \<Longrightarrow> p \<in> ps \<Longrightarrow>
      snd (wr w p s d) \<noteq> [] \<and> last (snd (wr w p s d)) = (if fst (wr w p s d) = None then d(p \<mapsto> s) else d)"

context whole_writes
begin

text \<open>Of two files the second is new only where the first one is.\<close>

lemma two_seen:
  assumes "fresh w1 {p, q} d" and "fresh w2 {p, q} (d(p \<mapsto> s))" and "p \<noteq> q"
    and "d' \<in> set (snd (writeTwo wr w1 w2 p s q t d))"
  shows "(d' p, d' q) \<in> {(d p, d q), (Some s, d q)} \<or>
    (d' p, d' q) = (Some s, Some t) \<and> fst (writeTwo wr w1 w2 p s q t d) = None"
proof -
  obtain r ds where w: "wr w1 p s d = (r, ds)" by fastforce
  have one: "(d'' p, d'' q) \<in> {(d p, d q), (Some s, d q)}" if "d'' \<in> set ds" for d''
    using seen[OF assms(1), of p p d'' s] seen[OF assms(1), of p q d'' s] that w assms(3) by auto
  show ?thesis
  proof (cases r)
    case (Some e)
    with assms(4) w one show ?thesis by (auto simp: writeTwo_def)
  next
    case None
    then have l: "last ds = d(p \<mapsto> s)" using left[OF assms(1), of p s] w by simp
    obtain r2 ds2 where w2: "wr w2 q t (d(p \<mapsto> s)) = (r2, ds2)" by fastforce
    from assms(4) have "d' \<in> set ds \<or> d' \<in> set ds2" by (auto simp: writeTwo_def w None l w2)
    then show ?thesis
    proof
      assume "d' \<in> set ds2"
      then show ?thesis
        using seen[OF assms(2), of q p d' t] seen[OF assms(2), of q q d' t] w w2 None l assms(3) by (auto simp: writeTwo_def)
    qed (use one in blast)
  qed
qed

lemma two_left:
  assumes "fresh w1 {p, q} d" and "fresh w2 {p, q} (d(p \<mapsto> s))" and "fst (writeTwo wr w1 w2 p s q t d) = None"
  shows "last (snd (writeTwo wr w1 w2 p s q t d)) = d(p \<mapsto> s, q \<mapsto> t)"
proof -
  obtain r ds where w: "wr w1 p s d = (r, ds)" by fastforce
  with assms(3) have n: "r = None" by (cases r) (auto simp: writeTwo_def)
  then have l: "last ds = d(p \<mapsto> s)" using left[OF assms(1), of p s] w by simp
  obtain r2 ds2 where w2: "wr w2 q t (d(p \<mapsto> s)) = (r2, ds2)" by fastforce
  with assms(3) n l w have "r2 = None" by (simp add: writeTwo_def)
  then show ?thesis
    using left[OF assms(2), of q t] w2 n l w by (simp add: writeTwo_def)
qed

end

lemma writeFileAtomic_seen:
  assumes "freshTemp w ps d" and "p \<in> ps" and "q \<in> ps" and "d' \<in> set (snd (writeFileAtomic w p s d))"
  shows "d' q = d q \<or> (q = p \<and> d' q = Some s \<and> fst (writeFileAtomic w p s d) = None)"
  using assms by (auto simp: writeFileAtomic_def freshTemp_def Let_def split: option.splits if_splits)

lemma writeFileAtomic_left:
  assumes "freshTemp w ps d" and "p \<in> ps"
  shows "snd (writeFileAtomic w p s d) \<noteq> [] \<and>
    last (snd (writeFileAtomic w p s d)) = (if fst (writeFileAtomic w p s d) = None then d(p \<mapsto> s) else d)"
  using assms by (auto simp: writeFileAtomic_def freshTemp_def Let_def fun_eq_iff split: option.splits)

interpretation wfa: whole_writes writeFileAtomic freshTemp
  by unfold_locales (rule writeFileAtomic_seen writeFileAtomic_left; assumption)+

section \<open>The store of an account\<close>

record account =
  acc_Email :: string
  acc_URI :: string
  acc_DirectoryURL :: string

text \<open>\<open>'e\<close> are credentials that bind the account to one elsewhere.\<close>

record 'e registration =
  rg_Contact :: "string list"
  rg_EAB :: "'e option"

text \<open>The encodings of the standard library, the authority, and the outcome of the system calls.\<close>

record ('k, 'e) accountWorld =
  aa_reads :: "string \<Rightarrow> bool"
  aa_pemBlock :: "string \<Rightarrow> string option"
  aa_parseKey :: "string \<Rightarrow> issueError + 'k"
  aa_unmarshal :: "string \<Rightarrow> issueError + account"
  aa_encodeKey :: "'k \<Rightarrow> issueError + string"
  aa_marshal :: "account \<Rightarrow> issueError + string"
  aa_generateKey :: "issueError + 'k"
  aa_register :: "'k \<Rightarrow> string \<Rightarrow> 'e registration \<Rightarrow> issueError + string"
  aa_mkdir :: bool
  aa_keyFile :: fsWorld
  aa_metaFile :: fsWorld

definition accountKeyPath :: "string \<Rightarrow> string" where
  "accountKeyPath dir = filepath_Join [dir, ''account.key'']"

definition accountMetaPath :: "string \<Rightarrow> string" where
  "accountMetaPath dir = filepath_Join [dir, ''account.json'']"

text \<open>\<^const>\<open>None\<close>: there is no account yet.\<close>

definition loadAccount :: "('k, 'e) accountWorld \<Rightarrow> string \<Rightarrow> disk \<Rightarrow> issueError + ('k \<times> account) option" where
  "loadAccount w dir d =
     (if \<not> aa_reads w (accountKeyPath dir) then Inl (errText ''reading'')
      else (case d (accountKeyPath dir) of
              None \<Rightarrow> Inr None
            | Some keyPEM \<Rightarrow>
                (case aa_pemBlock w keyPEM of
                   None \<Rightarrow> Inl (errText ''account key: invalid PEM'')
                 | Some block \<Rightarrow>
                     (case aa_parseKey w block of
                        Inl e \<Rightarrow> Inl (wrapErr ''account key'' e)
                      | Inr key \<Rightarrow>
                          (case (if aa_reads w (accountMetaPath dir) then d (accountMetaPath dir) else None) of
                             None \<Rightarrow> Inr None
                           | Some metaJSON \<Rightarrow>
                               (case aa_unmarshal w metaJSON of
                                  Inl e \<Rightarrow> Inl (wrapErr ''account meta'' e)
                                | Inr acct \<Rightarrow> Inr (Some (key, acct))))))))"

definition saveAccount ::
  "('k, 'e) accountWorld \<Rightarrow> string \<Rightarrow> 'k \<Rightarrow> account \<Rightarrow> disk \<Rightarrow> issueError option \<times> disk list" where
  "saveAccount w dir key acct d =
     (if \<not> aa_mkdir w then (Some (errText ''mkdir''), [d])
      else (case aa_encodeKey w key of
              Inl e \<Rightarrow> (Some e, [d])
            | Inr keyPEM \<Rightarrow>
                (case writeFileAtomic (aa_keyFile w) (accountKeyPath dir) keyPEM d of
                   (Some e, ds) \<Rightarrow> (Some e, ds)
                 | (None, ds) \<Rightarrow>
                     (case aa_marshal w acct of
                        Inl e \<Rightarrow> (Some e, ds)
                      | Inr metaJSON \<Rightarrow>
                          (case writeFileAtomic (aa_metaFile w) (accountMetaPath dir) metaJSON (last ds) of
                             (r, ds') \<Rightarrow> (r, ds @ ds'))))))"

text \<open>A client of the authority: its key, the directory and the account's URI.\<close>

record 'k accountClient =
  kc_Key :: 'k
  kc_DirectoryURL :: string
  kc_KID :: string

definition ensureAccount ::
  "('k, 'e) accountWorld \<Rightarrow> string \<Rightarrow> string \<Rightarrow> string \<Rightarrow> 'e option \<Rightarrow> disk \<Rightarrow>
   (issueError + 'k accountClient) \<times> disk list" where
  "ensureAccount w dir url email eab d =
     (case loadAccount w dir d of
        Inl e \<Rightarrow> (Inl (wrapErr ''loading account'' e), [d])
      | Inr (Some (key, acct)) \<Rightarrow> (Inr \<lparr>kc_Key = key, kc_DirectoryURL = url, kc_KID = acc_URI acct\<rparr>, [d])
      | Inr None \<Rightarrow>
          (case aa_generateKey w of
             Inl e \<Rightarrow> (Inl e, [d])
           | Inr newKey \<Rightarrow>
               (case aa_register w newKey url
                       \<lparr>rg_Contact = (if email = [] then [] else [''mailto:'' @ email]), rg_EAB = eab\<rparr> of
                  Inl e \<Rightarrow> (Inl (wrapErr ''registering account'' e), [d])
                | Inr uri \<Rightarrow>
                    (case saveAccount w dir newKey \<lparr>acc_Email = email, acc_URI = uri, acc_DirectoryURL = url\<rparr> d of
                       (Some e, ds) \<Rightarrow> (Inl (wrapErr ''persisting account'' e), ds)
                     | (None, ds) \<Rightarrow> (Inr \<lparr>kc_Key = newKey, kc_DirectoryURL = url, kc_KID = uri\<rparr>, ds)))))"

text \<open>\<open>removes\<close>: whether a file can be removed; one that does not exist is no error.\<close>

definition discardAccount :: "(string \<Rightarrow> bool) \<Rightarrow> string \<Rightarrow> disk \<Rightarrow> issueError option \<times> disk list" where
  "discardAccount removes dir d =
     (let gone = (\<lambda>p d. d p = None \<or> removes p); d1 = d(accountKeyPath dir := None) in
      if \<not> gone (accountKeyPath dir) d then (Some (errText ''remove''), [d])
      else if \<not> gone (accountMetaPath dir) d1 then (Some (errText ''remove''), [d, d1])
      else (None, [d, d1, d1(accountMetaPath dir := None)]))"

section \<open>Paths\<close>

text \<open>A plain name stays the last segment of a joined path.\<close>

definition plainName :: "string \<Rightarrow> bool" where
  "plainName n \<longleftrightarrow> n \<noteq> [] \<and> n \<noteq> ''.'' \<and> n \<noteq> ''..'' \<and> CHR ''/'' \<notin> set n"

lemma cleanWalk_plain: "plainName n \<Longrightarrow> cleanWalk rooted acc (xs @ [n]) = cleanWalk rooted acc xs @ [n]"
  by (induction rooted acc xs rule: cleanWalk.induct) (auto simp: plainName_def split: list.split)

lemma filepath_Join_plain: "\<exists>pre. \<forall>n. plainName n \<longrightarrow> filepath_Join [dir, n] = pre @ n"
proof (cases dir)
  case Nil
  have "filepath_Join [dir, n] = [] @ n" if "plainName n" for n
    using that Nil cleanWalk_plain[OF that, of _ "[]" "[]"] Split_single[of "CHR ''/''" n]
    by (auto simp: filepath_Join_def filepath_Clean_def plainName_def HasPrefix_def Let_def neq_Nil_conv)
  then show ?thesis by blast
next
  case (Cons c cs)
  define ws where "ws = cleanWalk (HasPrefix dir ''/'') [] (Split dir CHR ''/'')"
  define pre where "pre = (if HasPrefix dir ''/'' then ''/'' else []) @ (if ws = [] then [] else Join ws ''/'' @ ''/'')"
  have "filepath_Join [dir, n] = pre @ n" if "plainName n" for n
  proof -
    have j: "filepath_Join [dir, n] = filepath_Clean (dir @ CHR ''/'' # n)"
      using Cons by (simp add: filepath_Join_def)
    have sp: "Split (dir @ CHR ''/'' # n) CHR ''/'' = Split dir CHR ''/'' @ [n]"
      using that by (simp add: Split_append_sep Split_single plainName_def)
    have rooted: "HasPrefix (dir @ CHR ''/'' # n) ''/'' = HasPrefix dir ''/''"
      using Cons by (simp add: HasPrefix_def)
    have "Join (ws @ [n]) ''/'' = (if ws = [] then [] else Join ws ''/'' @ ''/'') @ n"
      by (simp add: Join_snoc)
    with that show ?thesis
      unfolding j filepath_Clean_def Let_def sp rooted cleanWalk_plain[OF that] ws_def[symmetric] pre_def
      by (auto simp: plainName_def)
  qed
  then show ?thesis by blast
qed

lemma paths_differ: "accountKeyPath dir \<noteq> accountMetaPath dir"
proof -
  obtain pre where "\<forall>n. plainName n \<longrightarrow> filepath_Join [dir, n] = pre @ n" using filepath_Join_plain by blast
  then have "accountKeyPath dir = pre @ ''account.key''" "accountMetaPath dir = pre @ ''account.json''"
    by (simp_all add: accountKeyPath_def accountMetaPath_def plainName_def)
  then show ?thesis by simp
qed

section \<open>Whole files\<close>


definition demo_fs :: fsWorld where
  "demo_fs = \<lparr>fw_mkdir = True, fw_temp = Some ''/c/.tmp-1'', fw_write = Some 2, fw_chmod = True, fw_close = True, fw_rename = True\<rparr>"


section \<open>Accounts\<close>

text \<open>What is encoded in one world can be read back in the other.\<close>

definition codec :: "('k, 'e) accountWorld \<Rightarrow> ('k, 'e) accountWorld \<Rightarrow> bool" where
  "codec w w' \<longleftrightarrow>
     (\<forall>k pem. aa_encodeKey w k = Inr pem \<longrightarrow> Option.bind (aa_pemBlock w' pem) (\<lambda>b. Some (aa_parseKey w' b)) = Some (Inr k)) \<and>
     (\<forall>a js. aa_marshal w a = Inr js \<longrightarrow> aa_unmarshal w' js = Inr a)"

text \<open>Decoding does not change between two attempts, and the files of the account can be read.\<close>

definition sameDecoding :: "string \<Rightarrow> ('k, 'e) accountWorld \<Rightarrow> ('k, 'e) accountWorld \<Rightarrow> bool" where
  "sameDecoding dir w w' \<longleftrightarrow>
     aa_pemBlock w' = aa_pemBlock w \<and> aa_parseKey w' = aa_parseKey w \<and> aa_unmarshal w' = aa_unmarshal w \<and>
     list_all (\<lambda>v. aa_reads v (accountKeyPath dir) \<and> aa_reads v (accountMetaPath dir)) [w, w']"

definition freshTemps :: "('k, 'e) accountWorld \<Rightarrow> string \<Rightarrow> disk \<Rightarrow> bool" where
  "freshTemps w dir d \<longleftrightarrow>
     freshTemp (aa_keyFile w) {accountKeyPath dir, accountMetaPath dir} d \<and> freshTemp (aa_metaFile w) {accountKeyPath dir, accountMetaPath dir} d"

lemma freshTemp_upd: "freshTemp w ps d \<Longrightarrow> p \<in> ps \<Longrightarrow> freshTemp w ps (d(p \<mapsto> s))"
  by (auto simp: freshTemp_def split: option.splits)

lemma loadAccount_same: "sameDecoding dir w w' \<Longrightarrow> loadAccount w' dir d = loadAccount w dir d"
  by (auto simp: sameDecoding_def loadAccount_def split: option.split sum.split)

lemma loadAccount_frame:
  assumes "d' (accountKeyPath dir) = d (accountKeyPath dir)" and "d' (accountMetaPath dir) = d (accountMetaPath dir)"
  shows "loadAccount w dir d' = loadAccount w dir d"
  unfolding loadAccount_def assms ..

lemma loadAccount_saved:
  assumes "codec w w'" and "aa_encodeKey w key = Inr pem" and "aa_reads w' (accountKeyPath dir)" and "aa_reads w' (accountMetaPath dir)"
    and "d (accountKeyPath dir) = Some pem"
  shows "loadAccount w' dir d =
     (case d (accountMetaPath dir) of
        None \<Rightarrow> Inr None
      | Some js \<Rightarrow> (case aa_unmarshal w' js of Inl e \<Rightarrow> Inl (wrapErr ''account meta'' e) | Inr a \<Rightarrow> Inr (Some (key, a))))"
proof -
  obtain b where "aa_pemBlock w' pem = Some b" "aa_parseKey w' b = Inr key"
    using assms(1,2) unfolding codec_def by (cases "aa_pemBlock w' pem") force+
  with assms(3-5) show ?thesis by (simp add: loadAccount_def)
qed

text \<open>A save is two writes, the key before the metadata, or less.\<close>

lemma saveAccount_cases:
  obtains (nothing) e where "saveAccount w dir key acct d = (Some e, [d])"
  | (keyOnly) pem r ds where "aa_encodeKey w key = Inr pem"
      "writeFileAtomic (aa_keyFile w) (accountKeyPath dir) pem d = (r, ds)" "snd (saveAccount w dir key acct d) = ds"
      "fst (saveAccount w dir key acct d) \<noteq> None"
  | (both) pem js where "aa_encodeKey w key = Inr pem" "aa_marshal w acct = Inr js"
      "saveAccount w dir key acct d =
         writeTwo writeFileAtomic (aa_keyFile w) (aa_metaFile w) (accountKeyPath dir) pem (accountMetaPath dir) js d"
proof (cases "aa_mkdir w")
  case True
  show ?thesis
  proof (cases "aa_encodeKey w key")
    case (Inl e)
    show ?thesis
      by (rule nothing[of e]) (simp add: saveAccount_def True Inl)
  next
    case (Inr pem)
    obtain r ds where k: "writeFileAtomic (aa_keyFile w) (accountKeyPath dir) pem d = (r, ds)" by fastforce
    show ?thesis
    proof (cases "aa_marshal w acct")
      case (Inl e)
      show ?thesis
        by (rule keyOnly[OF Inr k]) (use True Inr k Inl in \<open>auto simp: saveAccount_def split: option.split\<close>)
    next
      case m: (Inr js)
      show ?thesis
        by (rule both[OF Inr m]) (use True Inr k m in \<open>simp add: saveAccount_def writeTwo_def split: option.split\<close>)
    qed
  qed
qed (use nothing in \<open>simp add: saveAccount_def\<close>)

lemma saveAccount_saved:
  assumes "freshTemps w dir d" and "saveAccount w dir key acct d = (None, ds)"
  obtains pem js where "aa_encodeKey w key = Inr pem" "aa_marshal w acct = Inr js"
    "last ds = d(accountKeyPath dir \<mapsto> pem, accountMetaPath dir \<mapsto> js)" "d(accountKeyPath dir \<mapsto> pem) \<in> set ds"
proof (cases rule: saveAccount_cases[of w dir key acct d])
  case (both pem js)
  let ?two = "writeTwo writeFileAtomic (aa_keyFile w) (aa_metaFile w) (accountKeyPath dir) pem (accountMetaPath dir) js d"
  have f: "freshTemp (aa_keyFile w) {accountKeyPath dir, accountMetaPath dir} d"
      "freshTemp (aa_metaFile w) {accountKeyPath dir, accountMetaPath dir} (d(accountKeyPath dir \<mapsto> pem))"
    using assms(1) by (simp_all add: freshTemps_def freshTemp_upd)
  have t: "?two = (None, ds)" using both(3) assms(2) by simp
  then have l: "last ds = d(accountKeyPath dir \<mapsto> pem, accountMetaPath dir \<mapsto> js)"
    using wfa.two_left[OF f, of js] by simp
  obtain r ds1 where w1: "writeFileAtomic (aa_keyFile w) (accountKeyPath dir) pem d = (r, ds1)" by fastforce
  with t have "r = None" "set ds1 \<subseteq> set ds" by (auto simp: writeTwo_def split: option.splits prod.splits)
  with w1 wfa.left[OF f(1), of "accountKeyPath dir" pem] have "d(accountKeyPath dir \<mapsto> pem) \<in> set ds"
    using last_in_set[of ds1] by auto
  with both l that show ?thesis by blast
qed (use assms in auto)

lemma saveAccount_seen:
  assumes "freshTemps w dir d" and "d (accountMetaPath dir) = None" and "d' \<in> set (snd (saveAccount w dir key acct d))"
  shows "(d' (accountKeyPath dir) = d (accountKeyPath dir) \<or> aa_encodeKey w key = Inr (the (d' (accountKeyPath dir))) \<and> d' (accountKeyPath dir) \<noteq> None) \<and>
    (d' (accountMetaPath dir) = None \<or>
      fst (saveAccount w dir key acct d) = None \<and>
      d' (accountKeyPath dir) = last (snd (saveAccount w dir key acct d)) (accountKeyPath dir) \<and>
      d' (accountMetaPath dir) = last (snd (saveAccount w dir key acct d)) (accountMetaPath dir))"
proof (cases rule: saveAccount_cases[of w dir key acct d])
  case (nothing e)
  with assms show ?thesis by simp
next
  case (keyOnly pem r ds)
  have f: "freshTemp (aa_keyFile w) {accountKeyPath dir, accountMetaPath dir} d" using assms(1) by (simp add: freshTemps_def)
  have d': "d' \<in> set (snd (writeFileAtomic (aa_keyFile w) (accountKeyPath dir) pem d))" using keyOnly(2,3) assms(3) by simp
  show ?thesis
    using wfa.seen[OF f _ _ d', of "accountKeyPath dir"] wfa.seen[OF f _ _ d', of "accountMetaPath dir"] keyOnly(1) assms(2) paths_differ[of dir]
    by auto
next
  case (both pem js)
  let ?two = "writeTwo writeFileAtomic (aa_keyFile w) (aa_metaFile w) (accountKeyPath dir) pem (accountMetaPath dir) js d"
  have f: "freshTemp (aa_keyFile w) {accountKeyPath dir, accountMetaPath dir} d"
      "freshTemp (aa_metaFile w) {accountKeyPath dir, accountMetaPath dir} (d(accountKeyPath dir \<mapsto> pem))"
    using assms(1) by (simp_all add: freshTemps_def freshTemp_upd)
  have d': "d' \<in> set (snd ?two)" using both(3) assms(3) by simp
  note seen = wfa.two_seen[OF f paths_differ d']
  show ?thesis
  proof (cases "fst ?two")
    case None
    show ?thesis
      using seen wfa.two_left[OF f None] both assms(2) paths_differ[of dir] by (auto simp: None)
  next
    case (Some e)
    then show ?thesis using seen both assms(2) by auto
  qed
qed

lemma ensureAccount_cases:
  obtains (kept) r where "ensureAccount w dir url email eab d = (r, [d])" "\<And>cl. r = Inr cl \<Longrightarrow>
      \<exists>a. loadAccount w dir d = Inr (Some (kc_Key cl, a)) \<and> acc_URI a = kc_KID cl \<and> kc_DirectoryURL cl = url"
  | (saved) key uri where "loadAccount w dir d = Inr None"
      "snd (ensureAccount w dir url email eab d) =
         snd (saveAccount w dir key \<lparr>acc_Email = email, acc_URI = uri, acc_DirectoryURL = url\<rparr> d)"
      "\<And>cl. fst (ensureAccount w dir url email eab d) = Inr cl \<Longrightarrow>
         fst (saveAccount w dir key \<lparr>acc_Email = email, acc_URI = uri, acc_DirectoryURL = url\<rparr> d) = None \<and>
         cl = \<lparr>kc_Key = key, kc_DirectoryURL = url, kc_KID = uri\<rparr>"
proof (cases "loadAccount w dir d")
  case (Inl e)
  show ?thesis by (rule kept[of "Inl (wrapErr ''loading account'' e)"]) (simp_all add: ensureAccount_def Inl)
next
  case (Inr a)
  let ?reg = "\<lparr>rg_Contact = (if email = [] then [] else [''mailto:'' @ email]), rg_EAB = eab\<rparr>"
  show ?thesis
  proof (cases a)
    case (Some ka)
    obtain key acct where ka: "ka = (key, acct)" by fastforce
    show ?thesis
      by (rule kept[of "Inr \<lparr>kc_Key = key, kc_DirectoryURL = url, kc_KID = acc_URI acct\<rparr>"])
         (auto simp: ensureAccount_def Inr Some ka)
  next
    case None
    note load = Inr[unfolded None]
    show ?thesis
    proof (cases "aa_generateKey w")
      case (Inl e)
      show ?thesis by (rule kept[of "Inl e"]) (simp_all add: ensureAccount_def load Inl)
    next
      case k: (Inr key)
      show ?thesis
      proof (cases "aa_register w key url ?reg")
        case (Inl e)
        show ?thesis
          by (rule kept[of "Inl (wrapErr ''registering account'' e)"]) (simp_all add: ensureAccount_def load k Inl)
      next
        case (Inr uri)
        show ?thesis
          by (rule saved[of key uri]) (auto simp: ensureAccount_def load k Inr split: option.splits prod.splits)
      qed
    qed
  qed
qed

text \<open>C27. Once an account is there it is used again: after a call that succeeded the next one, for
  whatever address and credentials and however the authority and the key generator would answer,
  returns the same key and URI, registers nothing and writes nothing.\<close>

theorem account_reused:
  assumes "codec w w'" and "sameDecoding dir w w'" and "freshTemps w dir d"
    and "ensureAccount w dir url email eab d = (Inr cl, ds)"
  shows "ensureAccount w' dir url email' eab' (last ds) = (Inr cl, [last ds])"
proof -
  have "\<exists>a. loadAccount w' dir (last ds) = Inr (Some (kc_Key cl, a)) \<and> acc_URI a = kc_KID cl \<and> kc_DirectoryURL cl = url"
  proof (cases rule: ensureAccount_cases[of w dir url email eab d])
    case (kept r)
    with assms(4) show ?thesis by (auto simp: loadAccount_same[OF assms(2)])
  next
    case (saved key uri)
    let ?a = "\<lparr>acc_Email = email, acc_URI = uri, acc_DirectoryURL = url\<rparr>"
    have cl: "cl = \<lparr>kc_Key = key, kc_DirectoryURL = url, kc_KID = uri\<rparr>" and "saveAccount w dir key ?a d = (None, ds)"
      using saved(2) saved(3)[of cl] assms(4) by (simp_all add: prod_eq_iff)
    then obtain pem js where "aa_encodeKey w key = Inr pem" "aa_marshal w ?a = Inr js"
        "last ds = d(accountKeyPath dir \<mapsto> pem, accountMetaPath dir \<mapsto> js)"
      using saveAccount_saved[OF assms(3)] by metis
    then show ?thesis
      using loadAccount_saved[OF assms(1), of key pem dir "last ds"] assms(1,2) paths_differ[of dir] cl
      by (simp add: codec_def sameDecoding_def)
  qed
  then show ?thesis by (cases cl) (auto simp: ensureAccount_def)
qed

text \<open>An account is stored whole: when there was no metadata before, every disk that the machine can
  be stopped at shows the account that was there before or the one that is there in the end.\<close>

theorem account_stored_whole:
  assumes "codec w w'" and "sameDecoding dir w w'" and "freshTemps w dir d" and "d (accountMetaPath dir) = None"
    and "d' \<in> set (snd (ensureAccount w dir url email eab d))"
  shows "loadAccount w' dir d' \<in>
    {loadAccount w' dir d, loadAccount w' dir (last (snd (ensureAccount w dir url email eab d)))}"
proof (cases rule: ensureAccount_cases[of w dir url email eab d])
  case (kept r)
  with assms(5) show ?thesis by simp
next
  case (saved key uri)
  let ?a = "\<lparr>acc_Email = email, acc_URI = uri, acc_DirectoryURL = url\<rparr>"
  have reads: "aa_reads w' (accountKeyPath dir)" "aa_reads w' (accountMetaPath dir)" using assms(2) by (simp_all add: sameDecoding_def)
  have none: "loadAccount w' dir d = Inr None" using saved(1) by (simp add: loadAccount_same[OF assms(2)])
  have d': "d' \<in> set (snd (saveAccount w dir key ?a d))" using saved(2) assms(5) by simp
  note seen = saveAccount_seen[OF assms(3,4) d']
  show ?thesis
  proof (cases "d' (accountMetaPath dir)")
    case None
    have "loadAccount w' dir d' = Inr None"
    proof (cases "d' (accountKeyPath dir) = d (accountKeyPath dir)")
      case True
      then have "loadAccount w' dir d' = loadAccount w' dir d" by (rule loadAccount_frame) (simp add: None assms(4))
      with none show ?thesis by simp
    next
      case False
      then have "aa_encodeKey w key = Inr (the (d' (accountKeyPath dir)))" "d' (accountKeyPath dir) = Some (the (d' (accountKeyPath dir)))"
        using seen by auto
      then show ?thesis using loadAccount_saved[OF assms(1) _ reads] None by force
    qed
    with none show ?thesis by simp
  next
    case (Some js)
    with seen saved(2) have "loadAccount w' dir d' = loadAccount w' dir (last (snd (ensureAccount w dir url email eab d)))"
      by (intro loadAccount_frame) auto
    then show ?thesis by simp
  qed
qed

section \<open>A concrete disk\<close>

definition demo_account :: account where
  "demo_account = \<lparr>acc_Email = ''a@b.org'', acc_URI = ''/acct/1'', acc_DirectoryURL = ''https://ca''\<rparr>"

definition demo_authority :: "(string, string) accountWorld" where
  "demo_authority =
     \<lparr>aa_reads = (\<lambda>_. True), aa_pemBlock = Some, aa_parseKey = Inr,
      aa_unmarshal = (\<lambda>js. if js = ''{}'' then Inr demo_account else Inl (errText ''json'')),
      aa_encodeKey = Inr, aa_marshal = (\<lambda>a. if a = demo_account then Inr ''{}'' else Inl (errText ''json'')),
      aa_generateKey = Inr ''key'', aa_register = (\<lambda>_ _ _. Inr ''/acct/1''), aa_mkdir = True,
      aa_keyFile = demo_fs\<lparr>fw_write := None\<rparr>, aa_metaFile = demo_fs\<lparr>fw_write := None, fw_temp := Some ''/c/.tmp-2''\<rparr>\<rparr>"

text \<open>A world in which everything goes well, for one key of any type.\<close>

definition demo_write :: "string \<Rightarrow> fsWorld" where
  "demo_write tmp = \<lparr>fw_mkdir = True, fw_temp = Some tmp, fw_write = None, fw_chmod = True, fw_close = True, fw_rename = True\<rparr>"

definition demo_keys :: "'k \<Rightarrow> ('k, 'e) accountWorld" where
  "demo_keys k =
     \<lparr>aa_reads = (\<lambda>_. True), aa_pemBlock = Some, aa_parseKey = (\<lambda>_. Inr k),
      aa_unmarshal = (\<lambda>_. Inr demo_account), aa_encodeKey = (\<lambda>_. Inr ''k''), aa_marshal = (\<lambda>_. Inr ''{}''),
      aa_generateKey = Inr k, aa_register = (\<lambda>_ _ _. Inr ''/acct/1''), aa_mkdir = True,
      aa_keyFile = demo_write ''/c/.tmp-1'', aa_metaFile = demo_write ''/c/.tmp-2''\<rparr>"

lemma demo_paths: "accountKeyPath ''/c'' = ''/c/account.key''" "accountMetaPath ''/c'' = ''/c/account.json''"
  by code_simp+

lemma demo_authority_facts:
  "codec demo_authority demo_authority" "sameDecoding dir demo_authority demo_authority" "freshTemps demo_authority ''/c'' (\<lambda>_. None)"
  by (simp_all add: codec_def sameDecoding_def freshTemps_def freshTemp_def demo_paths demo_authority_def demo_fs_def)

lemma demo_ensure:
  "ensureAccount demo_authority ''/c'' ''https://ca'' ''a@b.org'' None (\<lambda>_. None) =
     (Inr \<lparr>kc_Key = ''key'', kc_DirectoryURL = ''https://ca'', kc_KID = ''/acct/1''\<rparr>,
      snd (ensureAccount demo_authority ''/c'' ''https://ca'' ''a@b.org'' None (\<lambda>_. None)))"
  by (simp add: ensureAccount_def loadAccount_def saveAccount_def writeFileAtomic_def demo_paths demo_authority_def
      demo_account_def demo_fs_def Let_def)

lemma account_reused_witness:
  "\<exists>cl d. ensureAccount demo_authority ''/c'' ''https://ca'' ''x@y.org'' (Some ''eab'') d = (Inr cl, [d])"
  using account_reused[OF demo_authority_facts demo_ensure, of "''x@y.org''" "Some ''eab''"] by blast

lemma account_stored_whole_witness:
  "loadAccount demo_authority ''/c'' (\<lambda>_. None) \<in>
     {loadAccount demo_authority ''/c'' (\<lambda>_. None),
      loadAccount demo_authority ''/c'' (last (snd (ensureAccount demo_authority ''/c'' ''https://ca'' ''a@b.org'' None (\<lambda>_. None))))}"
proof (rule account_stored_whole[OF demo_authority_facts refl])
  show "(\<lambda>_. None) \<in> set (snd (ensureAccount demo_authority ''/c'' ''https://ca'' ''a@b.org'' None (\<lambda>_. None)))"
    by (simp add: ensureAccount_def loadAccount_def saveAccount_def writeFileAtomic_def demo_paths demo_authority_def
        demo_account_def demo_fs_def Let_def)
qed

section \<open>Old metadata\<close>

text \<open>Key and metadata are two files, and they are not replaced together: when \<open>discardAccount\<close> is stopped
  after the key, and the next \<open>ensureAccount\<close> after its key, the disk pairs the new key with the URI of the
  discarded account.\<close>

theorem mixed_account:
  assumes "codec w w'" and "sameDecoding dir w w'" and "freshTemps w dir (d(accountKeyPath dir := None))"
    and "d (accountKeyPath dir) = Some pem" and "d (accountMetaPath dir) = Some js" and "aa_unmarshal w' js = Inr old"
    and "removes (accountKeyPath dir)"
    and "ensureAccount w dir url email eab (d(accountKeyPath dir := None)) = (Inr cl, ds)"
  shows "d(accountKeyPath dir := None) \<in> set (snd (discardAccount removes dir d)) \<and>
    (\<exists>d' \<in> set ds. loadAccount w' dir d' = Inr (Some (kc_Key cl, old)))"
proof
  let ?d = "d(accountKeyPath dir := None)"
  show "?d \<in> set (snd (discardAccount removes dir d))"
    using assms(7) by (simp add: discardAccount_def Let_def)
  show "\<exists>d' \<in> set ds. loadAccount w' dir d' = Inr (Some (kc_Key cl, old))"
  proof (cases rule: ensureAccount_cases[of w dir url email eab ?d])
    case (kept r)
    with assms(8) show ?thesis by (auto simp: loadAccount_def split: if_splits)
  next
    case (saved key uri)
    let ?a = "\<lparr>acc_Email = email, acc_URI = uri, acc_DirectoryURL = url\<rparr>"
    have cl: "kc_Key cl = key" and "saveAccount w dir key ?a ?d = (None, ds)"
      using saved(2) saved(3)[of cl] assms(8) by (simp_all add: prod_eq_iff)
    then obtain pem' js' where "aa_encodeKey w key = Inr pem'" "?d(accountKeyPath dir \<mapsto> pem') \<in> set ds"
      using saveAccount_saved[OF assms(3)] by metis
    then show ?thesis
      using loadAccount_saved[OF assms(1), of key pem' dir "?d(accountKeyPath dir \<mapsto> pem')"] assms(2,5,6) cl paths_differ[of dir]
      by (intro bexI[of _ "?d(accountKeyPath dir \<mapsto> pem')"]) (simp_all add: sameDecoding_def)
  qed
qed

lemma discarded_gone:
  assumes "discardAccount removes dir d = (None, ds)" and "aa_reads w (accountKeyPath dir)"
  shows "loadAccount w dir (last ds) = Inr None"
  using assms by (auto simp: discardAccount_def loadAccount_def Let_def split: if_splits)

end
