(* ===== verification/Acme_EAB.thy ===== *)
theory Acme_EAB
  imports Acme_Account Go_Base64
begin

text \<open>
  How the ACME client talks to an authority (\<^verbatim>\<open>src/acme/zerossl.go\<close>, \<^verbatim>\<open>src/acme/httpclient.go\<close>): the
  credentials that bind an account to one at ZeroSSL, and the HTTP client. Sending a request and
  decoding JSON are parameters. The key of the credentials comes in one of two base64 alphabets;
  the encodings are written out here as the reference.
\<close>

section \<open>Credentials\<close>

record eabResponse =
  zr_Success :: bool
  zr_KID :: string
  zr_HMACKey :: string

record eab =
  eab_KID :: string
  eab_Key :: string

text \<open>The URL alphabet first, then the standard one.\<close>

definition eabKey :: "string \<Rightarrow> string option" where
  "eabKey s = (case RawURLEncoding_Decode s of Some k \<Rightarrow> Some k | None \<Rightarrow> StdEncoding_Decode s)"

text \<open>\<open>post\<close> is the answer of the endpoint to the address: its status and its body as JSON.\<close>

definition generateZeroSSLEAB ::
  "(string \<Rightarrow> issueError + nat \<times> (issueError + eabResponse)) \<Rightarrow> string \<Rightarrow> issueError + eab" where
  "generateZeroSSLEAB post email =
     (if email = [] then Inl (errText ''zerossl requires an email address to generate EAB credentials'')
      else (case post email of
              Inl e \<Rightarrow> Inl (wrapErr ''requesting ZeroSSL EAB'' e)
            | Inr (status, body) \<Rightarrow>
                if status \<noteq> 200 then Inl (errText ''ZeroSSL EAB endpoint returned status'')
                else (case body of
                        Inl e \<Rightarrow> Inl (wrapErr ''decoding ZeroSSL EAB response'' e)
                      | Inr out \<Rightarrow>
                          if \<not> zr_Success out \<or> zr_KID out = [] \<or> zr_HMACKey out = []
                          then Inl (errText ''ZeroSSL did not return EAB credentials'')
                          else (case eabKey (zr_HMACKey out) of
                                  None \<Rightarrow> Inl (errText ''decoding EAB HMAC key'')
                                | Some k \<Rightarrow> Inr \<lparr>eab_KID = zr_KID out, eab_Key = k\<rparr>))))"

section \<open>The HTTP client\<close>

record httpClient =
  ht_Timeout :: duration
  ht_SkipVerify :: bool
  ht_RootCAs :: "string option"
  ht_MinTLS12 :: bool

text \<open>\<open>reads\<close> is the content of a file, \<open>certs\<close> whether it holds a certificate.\<close>

definition acmeHTTPClient :: "(string \<Rightarrow> string option) \<Rightarrow> (string \<Rightarrow> bool) \<Rightarrow> string \<Rightarrow> bool \<Rightarrow> issueError + httpClient" where
  "acmeHTTPClient reads certs caRootFile insecure =
     (let client = \<lparr>ht_Timeout = 60 * second, ht_SkipVerify = insecure, ht_RootCAs = None, ht_MinTLS12 = True\<rparr> in
      if caRootFile = [] \<and> \<not> insecure then Inr (client\<lparr>ht_MinTLS12 := False\<rparr>)
      else if caRootFile = [] then Inr client
      else (case reads caRootFile of
              None \<Rightarrow> Inl (errText ''reading ACME CA root file'')
            | Some pemData \<Rightarrow>
                if \<not> certs pemData then Inl (errText ''no certificates found in ACME CA root file'')
                else Inr (client\<lparr>ht_RootCAs := Some pemData\<rparr>)))"

section \<open>Encoding\<close>

text \<open>The sextets of a sequence of bytes, and the character for each.\<close>

fun groups :: "int list \<Rightarrow> int list" where
  "groups [] = []"
| "groups [a] = [a div 4, a mod 4 * 16]"
| "groups [a, b] = [a div 4, a mod 4 * 16 + b div 16, b mod 16 * 4]"
| "groups (a # b # c # r) =
     a div 4 # (a mod 4 * 16 + b div 16) # (b mod 16 * 4 + c div 64) # c mod 64 # groups r"

definition letter :: "char \<Rightarrow> char \<Rightarrow> int \<Rightarrow> char" where
  "letter c62 c63 n =
     (if n < 26 then char_of (n + 65) else if n < 52 then char_of (n + 71) else if n < 62 then char_of (n - 4)
      else if n = 62 then c62 else c63)"

definition letters :: "char \<Rightarrow> char \<Rightarrow> string \<Rightarrow> string" where
  "letters c62 c63 bytes = map (letter c62 c63) (groups (map of_char bytes))"

definition RawURLEncoding_Encode :: "string \<Rightarrow> string" where
  "RawURLEncoding_Encode bytes = letters CHR ''-'' CHR ''_'' bytes"

definition padding :: "string \<Rightarrow> string" where
  "padding s = (case length s mod 3 of 0 \<Rightarrow> [] | Suc 0 \<Rightarrow> ''=='' | _ \<Rightarrow> ''='')"

definition StdEncoding_Encode :: "string \<Rightarrow> string" where
  "StdEncoding_Encode bytes =
     letters CHR ''+'' CHR ''/'' bytes @ padding bytes"

lemma byte_parts:
  fixes b :: int
  assumes "0 \<le> b" "b < 256"
  shows "0 \<le> b div 4" "b div 4 < 64" "0 \<le> b div 16" "b div 16 < 16" "0 \<le> b div 64" "b div 64 < 4"
  using assms by (simp_all add: div_less_iff_less_mult pos_imp_zdiv_nonneg_iff)

lemma mult_add_div: "0 \<le> y \<Longrightarrow> y < m \<Longrightarrow> (x * m + y) div m = (x :: int)"
  and mult_add_mod: "0 \<le> y \<Longrightarrow> y < m \<Longrightarrow> (x * m + y) mod m = (y :: int)"
  by simp_all

lemma quantum_split:
  fixes a b c :: int
  assumes "0 \<le> a" "0 \<le> b" "b < 256" "0 \<le> c" "c < 256"
  shows "a div 4 * 4 + (a mod 4 * 16 + b div 16) div 16 = a"
    and "(a mod 4 * 16 + b div 16) mod 16 * 16 + (b mod 16 * 4 + c div 64) div 4 = b"
    and "(b mod 16 * 4 + c div 64) mod 4 * 64 + c mod 64 = c"
  using byte_parts[OF assms(2,3)] byte_parts[OF assms(4,5)] by (simp_all only: mult_add_div mult_add_mod div_mult_mod_eq)

lemma quanta_groups: "list_all (\<lambda>b. 0 \<le> b \<and> b < 256) bs \<Longrightarrow> quanta (groups bs) = Some bs"
proof (induction bs rule: groups.induct)
  case (2 a)
  then show ?case using quantum_split(1)[of a 0 0] by simp
next
  case (3 a b)
  then show ?case using quantum_split(1,2)[of a b 0] by simp
next
  case (4 a b c r)
  then show ?case using quantum_split[of a b c] by simp
qed simp

lemma sextet_range:
  fixes a b c :: int
  assumes "0 \<le> a" "a < 256" "0 \<le> b" "b < 256" "0 \<le> c" "c < 256"
  shows "a div 4 \<in> {0..<64}" "a mod 4 * 16 + b div 16 \<in> {0..<64}" "b mod 16 * 4 + c div 64 \<in> {0..<64}" "c mod 64 \<in> {0..<64}"
proof -
  have "0 \<le> a mod 4" "a mod 4 < 4" "0 \<le> b mod 16" "b mod 16 < 16" "0 \<le> c mod 64" "c mod 64 < 64" by simp_all
  moreover have "x * 16 + y \<in> {0..<64}" if "0 \<le> x" "x < 4" "0 \<le> y" "y < 16" for x y :: int using that by simp
  moreover have "x * 4 + y \<in> {0..<64}" if "0 \<le> x" "x < 16" "0 \<le> y" "y < 4" for x y :: int using that by simp
  ultimately show "a div 4 \<in> {0..<64}" "a mod 4 * 16 + b div 16 \<in> {0..<64}" "b mod 16 * 4 + c div 64 \<in> {0..<64}"
      "c mod 64 \<in> {0..<64}"
    using byte_parts[OF assms(1,2)] byte_parts[OF assms(3,4)] byte_parts[OF assms(5,6)] by (simp_all only: atLeastLessThan_iff simp_thms)
qed

lemma groups_range: "list_all (\<lambda>b. 0 \<le> b \<and> b < 256) bs \<Longrightarrow> set (groups bs) \<subseteq> {0..<64}"
proof (induction bs rule: groups.induct)
  case (2 a)
  then show ?case using sextet_range[of a 0 0] by simp
next
  case (3 a b)
  then show ?case using sextet_range[of a b 0] by simp
next
  case (4 a b c r)
  then show ?case using sextet_range[of a b c] by simp
qed simp

section \<open>Both alphabets\<close>

lemma below64: "list_all P [0..63] \<Longrightarrow> 0 \<le> n \<Longrightarrow> n < 64 \<Longrightarrow> P (n :: int)"
  by (simp add: list_all_iff)

lemma letter_url:
  assumes "0 \<le> n" and "n < 64"
  shows "sextet CHR ''-'' CHR ''_'' (letter CHR ''-'' CHR ''_'' n) = Some n \<and>
    letter CHR ''-'' CHR ''_'' n \<notin> {CHR 0x0D, CHR 0x0A}"
  by (rule below64[OF _ assms]) code_simp

lemma letter_std:
  assumes "0 \<le> n" and "n < 64"
  shows "sextet CHR ''+'' CHR ''/'' (letter CHR ''+'' CHR ''/'' n) = Some n \<and>
    sextet CHR ''-'' CHR ''_'' (letter CHR ''+'' CHR ''/'' n) = (if n < 62 then Some n else None) \<and>
    letter CHR ''+'' CHR ''/'' n \<notin> {CHR 0x0D, CHR 0x0A, CHR ''=''}"
  by (rule below64[OF _ assms]) code_simp

definition bytes_of :: "string \<Rightarrow> int list" where
  "bytes_of s = map of_char s"

lemma of_char_nonneg_less: "0 \<le> (of_char c :: int) \<and> (of_char c :: int) < 256"
  by (cases c) (simp add: of_char_def horner_sum_bit_eq_take_bit)

lemma bytes_of_range: "list_all (\<lambda>b. 0 \<le> b \<and> b < 256) (bytes_of s)"
  unfolding bytes_of_def list_all_iff using of_char_nonneg_less by auto

lemma bytes_of_char [simp]: "map char_of (bytes_of s) = s"
  by (simp add: bytes_of_def o_def)

lemma letters_bytes: "letters c62 c63 s = map (letter c62 c63) (groups (bytes_of s))"
  by (simp add: letters_def bytes_of_def)

lemma sextets_map:
  "list_all (\<lambda>n. sextet c62 c63 (f n) = Some n) ns \<Longrightarrow> sextets c62 c63 (map f ns) = Some ns"
  by (induction ns) auto

lemma groups_bytes: "n \<in> set (groups (bytes_of s)) \<Longrightarrow> 0 \<le> n \<and> n < 64"
  using groups_range[OF bytes_of_range[of s]] by auto

lemma no_crlf_id: "list_all (\<lambda>c. c \<notin> {CHR 0x0D, CHR 0x0A}) s \<Longrightarrow> no_crlf s = s"
  by (auto simp: no_crlf_def list_all_iff intro: filter_True)

lemma decode64_bytes:
  "sextets c62 c63 t = Some (groups (bytes_of s)) \<Longrightarrow> decode64 c62 c63 t = Some s"
  by (simp add: decode64_def quanta_groups[OF bytes_of_range])

lemma RawURLEncoding_roundtrip: "RawURLEncoding_Decode (RawURLEncoding_Encode s) = Some s"
proof -
  have "no_crlf (letters CHR ''-'' CHR ''_'' s) = letters CHR ''-'' CHR ''_'' s"
    by (rule no_crlf_id) (use letter_url groups_bytes in \<open>auto simp: letters_bytes list_all_iff\<close>)
  moreover have "sextets CHR ''-'' CHR ''_'' (letters CHR ''-'' CHR ''_'' s) = Some (groups (bytes_of s))"
    unfolding letters_bytes by (rule sextets_map) (auto simp: list_all_iff letter_url groups_bytes)
  ultimately show ?thesis
    by (simp add: RawURLEncoding_Decode_def RawURLEncoding_Encode_def decode64_bytes)
qed

lemma groups_length: "(length (groups bs) + length (case length bs mod 3 of 0 \<Rightarrow> [] | Suc 0 \<Rightarrow> ''=='' | _ \<Rightarrow> ''='')) mod 4 = 0"
proof (induction bs rule: groups.induct)
  case (4 a b c r)
  have m: "length (a # b # c # r) mod 3 = length r mod 3" by simp
  have l: "length (groups (a # b # c # r)) = length (groups r) + 4" by simp
  have "(x + y) mod 4 = 0 \<Longrightarrow> (x + 4 + y) mod 4 = 0" for x y :: nat by presburger
  from this[OF 4] show ?case unfolding m l .
qed (simp_all add: mod_Suc)

lemma padding_cases: "padding s \<in> {[], ''='', ''==''}"
  by (auto simp: padding_def split: nat.split)

lemma trim_padding:
  assumes "CHR ''='' \<notin> set t" and "p \<in> {[], ''='', ''==''}"
  shows "(if HasSuffix (t @ p) ''=='' then TrimSuffix (t @ p) ''=='' else TrimSuffix (t @ p) ''='') = t"
  using assms(2)
proof (elim insertE emptyE)
  assume "p = []"
  with assms(1) show ?thesis by (auto simp: HasSuffix_def TrimSuffix_def suffix_def)
next
  assume "p = ''=''"
  moreover have "\<not> suffix ''=='' (t @ ''='')"
    using assms(1) by (auto simp: suffix_def append_eq_append_conv2 Cons_eq_append_conv append_eq_Cons_conv)
  ultimately show ?thesis by (simp add: HasSuffix_def TrimSuffix_def)
qed (simp add: HasSuffix_def TrimSuffix_def suffixI)

lemma letters_length: "length (letters c62 c63 s @ padding s) mod 4 = 0"
  using groups_length[of "bytes_of s"] by (simp add: letters_bytes padding_def) (simp add: bytes_of_def)

lemma std_letters: "c \<in> set (letters CHR ''+'' CHR ''/'' s) \<Longrightarrow> c \<notin> {CHR 0x0D, CHR 0x0A, CHR ''=''}"
  using letter_std groups_bytes by (auto simp: letters_bytes)

lemma std_no_crlf: "no_crlf (StdEncoding_Encode s) = StdEncoding_Encode s"
  unfolding StdEncoding_Encode_def using padding_cases[of s]
  by (intro no_crlf_id) (auto simp: list_all_iff dest: std_letters)

lemma StdEncoding_roundtrip: "StdEncoding_Decode (StdEncoding_Encode s) = Some s"
proof -
  let ?t = "letters CHR ''+'' CHR ''/'' s"
  have "CHR ''='' \<notin> set ?t" using std_letters by auto
  note trim = trim_padding[OF this padding_cases[of s]]
  have "sextets CHR ''+'' CHR ''/'' ?t = Some (groups (bytes_of s))"
    unfolding letters_bytes by (rule sextets_map) (auto simp: list_all_iff letter_std groups_bytes)
  with std_no_crlf[of s] show ?thesis
    by (simp only: StdEncoding_Decode_def Let_def StdEncoding_Encode_def letters_length trim decode64_bytes) simp
qed

text \<open>A text of the standard alphabet means the same where the URL alphabet accepts it at all.\<close>

lemma sextets_other:
  "sextets CHR ''-'' CHR ''_'' (letters CHR ''+'' CHR ''/'' s @ padding s) \<in> {None, Some (groups (bytes_of s))}"
proof -
  have eq: "sextet CHR ''-'' CHR ''_'' CHR ''='' = None" by code_simp
  have "set ns \<subseteq> {0..<64} \<Longrightarrow>
      sextets CHR ''-'' CHR ''_'' (map (letter CHR ''+'' CHR ''/'') ns @ p) \<in>
        {None, (case sextets CHR ''-'' CHR ''_'' p of None \<Rightarrow> None | Some q \<Rightarrow> Some (ns @ q))}" for ns p
  proof (induction ns)
    case Nil
    then show ?case by (simp split: option.split)
  next
    case (Cons n ns)
    then show ?case using letter_std[of n] by (auto split: option.splits)
  qed
  from this[of "groups (bytes_of s)" "padding s"] padding_cases[of s] show ?thesis
    using groups_range[OF bytes_of_range[of s]] by (auto simp: letters_bytes eq)
qed

lemma RawURLEncoding_other: "RawURLEncoding_Decode (StdEncoding_Encode s) \<in> {None, Some s}"
  using sextets_other[of s] quanta_groups[OF bytes_of_range[of s]]
  by (auto simp: RawURLEncoding_Decode_def std_no_crlf, auto simp: StdEncoding_Encode_def decode64_def)

text \<open>The key of the credentials is the one the authority has encoded, whichever of the two
  alphabets it uses: no standard encoding is misread because it is tried as a URL encoding first.\<close>

theorem eab_key_exact: "eabKey (RawURLEncoding_Encode key) = Some key \<and> eabKey (StdEncoding_Encode key) = Some key"
  using RawURLEncoding_roundtrip[of key] StdEncoding_roundtrip[of key] RawURLEncoding_other[of key]
  by (auto simp: eabKey_def split: option.split)

end
