(* ===== verification/Acme_Manager.thy ===== *)
theory Acme_Manager
  imports Acme_EAB
begin

text \<open>
  The manager of certificates (\<^verbatim>\<open>src/acme/manager.go\<close>, \<^verbatim>\<open>src/acme/renew.go\<close>): loading certificates
  at start, asking for missing ones with backoff, renewing and reloading. The disk is a component
  of the state, a map from paths to contents, on which certificates and accounts are stored; the
  network, the authority and the cryptographic encodings are parameters.
\<close>

section \<open>State and world\<close>

record 'c manager =
  mg_global :: GlobalConfig
  mg_vhosts :: "VHostConfig list"
  mg_stores :: "'c stores"
  mg_issue :: issueState
  mg_disk :: "string \<Rightarrow> string option"
  mg_stopped :: bool

text \<open>\<open>aw_writes\<close> is whether the state file can be written, \<open>aw_account\<close> the world of the first and the second
  look for an account, \<open>aw_client\<close> the client library for an HTTP client and an account.\<close>

record ('c, 'k) acmeWorld =
  aw_now :: instant
  aw_listens :: bool
  aw_writes :: "string \<Rightarrow> bool"
  aw_resolves :: "string \<Rightarrow> bool"
  aw_zeroSSL :: "string \<Rightarrow> issueError + nat \<times> (issueError + eabResponse)"
  aw_hasCerts :: "string \<Rightarrow> bool"
  aw_account :: "nat \<Rightarrow> ('k, eab) accountWorld"
  aw_removes :: "string \<Rightarrow> bool"
  aw_client :: "httpClient \<Rightarrow> 'k accountClient \<Rightarrow> ('c, 'k) acmeClient"
  aw_certFile :: fsWorld
  aw_certKeyFile :: fsWorld
  aw_encodeKey :: "'k \<Rightarrow> issueError + string"
  aw_encodeCert :: "string list \<Rightarrow> string"
  aw_X509KeyPair :: "string \<Rightarrow> string \<Rightarrow> 'c option"
  aw_period :: "string \<Rightarrow> (instant \<times> instant) option"
  aw_bootstrap :: "'c option"

datatype managerError = NoEmail "string list" | UnknownSource "string list"

definition newManagerError :: "GlobalConfig \<Rightarrow> VHostConfig \<Rightarrow> managerError option" where
  "newManagerError g v =
     (if \<not> UsesACME v then None
      else if gc_Email g = [] then Some (NoEmail (vc_Domains v))
      else if directoryURL g v = None then Some (UnknownSource (vc_Domains v))
      else None)"

fun firstManagerError :: "GlobalConfig \<Rightarrow> VHostConfig list \<Rightarrow> managerError option" where
  "firstManagerError g [] = None"
| "firstManagerError g (v # vs) =
     (case newManagerError g v of Some e \<Rightarrow> Some e | None \<Rightarrow> firstManagerError g vs)"

text \<open>\<open>stateFile\<close> is what the state file of an earlier process holds.\<close>

definition NewManager ::
  "bool \<Rightarrow> string option \<Rightarrow> instant \<Rightarrow> (string \<Rightarrow> issueEntry option) option \<Rightarrow> (string \<Rightarrow> string option) \<Rightarrow>
   GlobalConfig \<Rightarrow> VHostConfig list \<Rightarrow> managerError + 'c manager" where
  "NewManager root home now stateFile disk g vhosts =
     (let g = g\<lparr>gc_CacheDir := ResolveCacheDir root home (gc_CacheDir g)\<rparr> in
      case firstManagerError g vhosts of
        Some e \<Rightarrow> Inl e
      | None \<Rightarrow>
          Inr \<lparr>mg_global = g, mg_vhosts = vhosts,
               mg_stores = \<lparr>st_http = newHTTPChallengeServer (gc_ServePort80 g), st_certs = newCertStore\<rparr>,
               mg_issue = withPersistence now stateFile (filepath_Join [gc_CacheDir g, ''issue-state.json'']),
               mg_disk = disk, mg_stopped = False\<rparr>)"

definition setCertM :: "string list \<Rightarrow> 'c \<Rightarrow> 'c manager \<Rightarrow> 'c manager" where
  "setCertM domains cert m =
     m\<lparr>mg_stores := (mg_stores m)\<lparr>st_certs := setCert domains cert (st_certs (mg_stores m))\<rparr>\<rparr>"

definition setFallbackM :: "'c option \<Rightarrow> 'c manager \<Rightarrow> 'c manager" where
  "setFallbackM cert m =
     m\<lparr>mg_stores := (mg_stores m)\<lparr>st_certs := setFallback cert (st_certs (mg_stores m))\<rparr>\<rparr>"

definition managedCertificate :: "'c manager \<Rightarrow> clientHello \<Rightarrow> 'c option" where
  "managedCertificate m hello = GetCertificate (st_certs (mg_stores m)) hello"

definition HTTPChallengeHandler :: "'c manager \<Rightarrow> httpChallengeServer option" where
  "HTTPChallengeHandler m =
     (if gc_ChallengeMode (mg_global m) \<noteq> ChallengeHTTP01 then None else Some (st_http (mg_stores m)))"

definition ManagedDomains :: "'c manager \<Rightarrow> string list" where
  "ManagedDomains m = concat (map (\<lambda>v. map ToLower (vc_Domains v)) (mg_vhosts m))"

definition managerUsesACME :: "'c manager \<Rightarrow> bool" where
  "managerUsesACME m \<longleftrightarrow> list_ex UsesACME (mg_vhosts m)"

definition TLSNextProtos :: "'c manager \<Rightarrow> string list" where
  "TLSNextProtos m =
     (if gc_ChallengeMode (mg_global m) = ChallengeTLSALPN01 then [acmeALPNProto] else [])"

section \<open>Loading\<close>

definition loadCertPair ::
  "('c, 'k) acmeWorld \<Rightarrow> (string \<Rightarrow> string option) \<Rightarrow> string \<times> string \<Rightarrow> 'c option" where
  "loadCertPair w disk paths =
     (case paths of (certPath, keyPath) \<Rightarrow>
        if certPath = [] \<or> keyPath = [] then None
        else (case disk certPath of
                None \<Rightarrow> None
              | Some c \<Rightarrow> (case disk keyPath of None \<Rightarrow> None | Some k \<Rightarrow> aw_X509KeyPair w c k)))"

definition certPaths :: "'c manager \<Rightarrow> VHostConfig \<Rightarrow> string \<times> string" where
  "certPaths m v = resolveCertPaths (gc_CacheDir (mg_global m)) v"

text \<open>One vhost at start: load its certificate or note that one has to be issued.\<close>

definition startVHost ::
  "('c, 'k) acmeWorld \<Rightarrow> VHostConfig \<Rightarrow> 'c manager \<times> VHostConfig list \<Rightarrow> 'c manager \<times> VHostConfig list" where
  "startVHost w v mn =
     (case mn of (m, needIssue) \<Rightarrow>
        (case loadCertPair w (mg_disk m) (certPaths m v) of
           Some cert \<Rightarrow> (setCertM (vc_Domains v) cert m, needIssue)
         | None \<Rightarrow> if UsesACME v then (m, needIssue @ [v]) else (m, needIssue)))"

text \<open>\<open>Start\<close> up to its goroutines: the manager, the vhosts to issue for in the background, and
  whether the renewal loop runs. \<open>mkdir\<close> is whether the cache directory could be made.\<close>

definition managerStart ::
  "('c, 'k) acmeWorld \<Rightarrow> bool \<Rightarrow> 'c manager \<Rightarrow> ('c manager \<times> VHostConfig list \<times> bool) option" where
  "managerStart w mkdir m =
     (if \<not> mkdir then None
      else
        let m1 = (if \<not> hasFallback (st_certs (mg_stores m)) \<and> aw_bootstrap w \<noteq> None
                  then setFallbackM (aw_bootstrap w) m else m);
            (m2, needIssue) = fold (startVHost w) (mg_vhosts m1) (m1, [])
        in Some (m2, needIssue, managerUsesACME m2))"

definition managerStop :: "'c manager \<Rightarrow> 'c manager" where
  "managerStop m = m\<lparr>mg_stopped := True\<rparr>"

definition reloadVHost ::
  "('c, 'k) acmeWorld \<Rightarrow> VHostConfig \<Rightarrow> 'c manager \<times> string list \<Rightarrow> 'c manager \<times> string list" where
  "reloadVHost w v mr =
     (case mr of (m, refreshed) \<Rightarrow>
        (case loadCertPair w (mg_disk m) (certPaths m v) of
           None \<Rightarrow> (m, refreshed)
         | Some cert \<Rightarrow> (setCertM (vc_Domains v) cert m, refreshed @ vc_Domains v)))"

definition ReloadCerts :: "('c, 'k) acmeWorld \<Rightarrow> 'c manager \<Rightarrow> 'c manager \<times> string list" where
  "ReloadCerts w m = fold (reloadVHost w) (mg_vhosts m) (m, [])"

section \<open>Issuing\<close>

definition isZeroSSL :: "string \<Rightarrow> bool" where
  "isZeroSSL source \<longleftrightarrow> source = ''zerossl''"

definition isAccountNotExist :: "issueError \<Rightarrow> bool" where
  "isAccountNotExist e =
     Contains (ToLower (case er_problem e of Some p \<Rightarrow> p | None \<Rightarrow> er_msg e)) ''accountdoesnotexist''"

definition sanitizeForPath :: "string \<Rightarrow> string" where
  "sanitizeForPath s =
     map (\<lambda>c. if c \<in> set ''/:?&='' \<or> c = CHR 0x5C then CHR ''_'' else c) s"

definition accountDir :: "'c manager \<Rightarrow> string \<Rightarrow> string" where
  "accountDir m url = filepath_Join [gc_CacheDir (mg_global m), ''accounts'', sanitizeForPath url]"

definition eabFor :: "('c, 'k) acmeWorld \<Rightarrow> 'c manager \<Rightarrow> VHostConfig \<Rightarrow> issueError + eab option" where
  "eabFor w m v =
     (if isZeroSSL (vc_AcmeSource v)
      then (case generateZeroSSLEAB (aw_zeroSSL w) (gc_Email (mg_global m)) of
              Inl e \<Rightarrow> Inl (wrapErr ''zerossl EAB'' e) | Inr eab \<Rightarrow> Inr (Some eab))
      else Inr None)"

text \<open>What the two looks for an account have in common.\<close>

record access =
  ax_http :: httpClient
  ax_dir :: string
  ax_url :: string
  ax_eab :: "eab option"

definition ensureClient ::
  "('c, 'k) acmeWorld \<Rightarrow> nat \<Rightarrow> access \<Rightarrow> 'c manager \<Rightarrow> (issueError + ('c, 'k) acmeClient) \<times> 'c manager" where
  "ensureClient w i ax m =
     (case ensureAccount (aw_account w i) (ax_dir ax) (ax_url ax) (gc_Email (mg_global m)) (ax_eab ax) (mg_disk m) of
        (Inl e, ds) \<Rightarrow> (Inl e, m\<lparr>mg_disk := last ds\<rparr>)
      | (Inr kc, ds) \<Rightarrow> (Inr (aw_client w (ax_http ax) kc), m\<lparr>mg_disk := last ds\<rparr>))"

text \<open>The checks before the account: names, directory, credentials, HTTP client.\<close>

definition issueAccess :: "('c, 'k) acmeWorld \<Rightarrow> 'c manager \<Rightarrow> VHostConfig \<Rightarrow> issueError + access" where
  "issueAccess w m v =
     (if preflightDomains (aw_resolves w) (vc_Domains v) \<noteq> [] then Inl (errText ''skipping issuance'')
      else (case directoryURL (mg_global m) v of
              None \<Rightarrow> Inl (errText ''unknown acme-source'')
            | Some url \<Rightarrow>
                (case eabFor w m v of
                   Inl e \<Rightarrow> Inl e
                 | Inr eab \<Rightarrow>
                     (case acmeHTTPClient (mg_disk m) (aw_hasCerts w) (gc_CARootFile (mg_global m))
                             (gc_InsecureSkipVerify (mg_global m)) of
                        Inl e \<Rightarrow> Inl e
                      | Inr http \<Rightarrow>
                          Inr \<lparr>ax_http = http, ax_dir = accountDir m url, ax_url = url, ax_eab = eab\<rparr>))))"

definition obtainFor ::
  "('c, 'k) acmeWorld \<Rightarrow> VHostConfig \<Rightarrow> ('c, 'k) acmeClient \<Rightarrow> 'c manager \<Rightarrow>
   (issueError + string list \<times> 'k) \<times> 'c manager" where
  "obtainFor w v cl m =
     (case obtainCertificate cl (gc_ChallengeMode (mg_global m)) (aw_listens w) (vc_Domains v) (mg_stores m) of
        (r, st) \<Rightarrow> (r, m\<lparr>mg_stores := st\<rparr>))"

text \<open>One order, and a second one with a new account when the authority forgot the old one.\<close>

definition obtainWithAccount ::
  "('c, 'k) acmeWorld \<Rightarrow> access \<Rightarrow> VHostConfig \<Rightarrow> 'c manager \<Rightarrow>
   (issueError + string list \<times> 'k) \<times> 'c manager" where
  "obtainWithAccount w ax v m =
     (case ensureClient w 0 ax m of
        (Inl e, m1) \<Rightarrow> (Inl e, m1)
      | (Inr cl, m1) \<Rightarrow>
          (case obtainFor w v cl m1 of
             (Inr r, m2) \<Rightarrow> (Inr r, m2)
           | (Inl e, m2) \<Rightarrow>
               if \<not> isAccountNotExist e then (Inl e, m2)
               else (case discardAccount (aw_removes w) (ax_dir ax) (mg_disk m2) of
                       (Some e', ds) \<Rightarrow> (Inl (wrapErr ''discarding stale account'' e'), m2\<lparr>mg_disk := last ds\<rparr>)
                     | (None, ds) \<Rightarrow>
                         (case ensureClient w 1 ax (m2\<lparr>mg_disk := last ds\<rparr>) of
                            (Inl e', m3) \<Rightarrow> (Inl e', m3)
                          | (Inr cl', m3) \<Rightarrow> obtainFor w v cl' m3))))"

text \<open>Storing: both files, then the certificate read back and installed.\<close>

definition storeIssued ::
  "('c, 'k) acmeWorld \<Rightarrow> VHostConfig \<Rightarrow> string list \<times> 'k \<Rightarrow> 'c manager \<Rightarrow> issueError option \<times> 'c manager" where
  "storeIssued w v dk m =
     (case dk of (der, key) \<Rightarrow>
        (case certPaths m v of (certPath, keyPath) \<Rightarrow>
           (case aw_encodeKey w key of
              Inl e \<Rightarrow> (Some e, m)
            | Inr keyPEM \<Rightarrow>
                (case writeFileAtomic (aw_certFile w) certPath (aw_encodeCert w der) (mg_disk m) of
                   (Some e, ds) \<Rightarrow> (Some (wrapErr ''writing cert'' e), m\<lparr>mg_disk := last ds\<rparr>)
                 | (None, ds) \<Rightarrow>
                     (case writeFileAtomic (aw_certKeyFile w) keyPath keyPEM (last ds) of
                        (Some e, ds') \<Rightarrow> (Some (wrapErr ''writing key'' e), m\<lparr>mg_disk := last ds'\<rparr>)
                      | (None, ds') \<Rightarrow>
                          (case loadCertPair w (last ds') (certPath, keyPath) of
                             None \<Rightarrow> (Some (errText ''loading''), m\<lparr>mg_disk := last ds'\<rparr>)
                           | Some cert \<Rightarrow> (None, setCertM (vc_Domains v) cert (m\<lparr>mg_disk := last ds'\<rparr>))))))))"

definition doIssue ::
  "('c, 'k) acmeWorld \<Rightarrow> VHostConfig \<Rightarrow> 'c manager \<Rightarrow> issueError option \<times> 'c manager" where
  "doIssue w v m =
     (case issueAccess w m v of
        Inl e \<Rightarrow> (Some e, m)
      | Inr ax \<Rightarrow>
          (case obtainWithAccount w ax v m of
             (Inl e, m1) \<Rightarrow> (Some e, m1)
           | (Inr dk, m1) \<Rightarrow> storeIssued w v dk m1))"

text \<open>The first try and the second one see their own worlds; \<open>cancelled\<close> is whether the manager
  is stopped during the pause between them.\<close>

datatype issueResult = Issued | BackingOff duration | Cancelled | IssueFailed issueError duration

definition issueAndStore ::
  "(nat \<Rightarrow> ('c, 'k) acmeWorld) \<Rightarrow> bool \<Rightarrow> VHostConfig \<Rightarrow> 'c manager \<Rightarrow> issueResult \<times> 'c manager" where
  "issueAndStore w cancelled v m =
     (let ds = vc_Domains v;
          saves = aw_writes (w 0) (is_path (mg_issue m));
          ok = (\<lambda>m. (Issued, m\<lparr>mg_issue := recordSuccess saves ds (mg_issue m)\<rparr>));
          failed = (\<lambda>t e m. case recordFailure saves t ds e (mg_issue m) of
                      (wait, is') \<Rightarrow> (IssueFailed e wait, m\<lparr>mg_issue := is'\<rparr>))
      in case shouldAttempt (aw_now (w 0)) ds (mg_issue m) of
           Some wait \<Rightarrow> (BackingOff wait, m)
         | None \<Rightarrow>
             (case doIssue (w 0) v (m\<lparr>mg_issue := recordAttempt ds (mg_issue m)\<rparr>) of
                (None, m1) \<Rightarrow> ok m1
              | (Some e, m1) \<Rightarrow>
                  if isPermanentError e then failed (aw_now (w 1)) e m1
                  else if cancelled then (Cancelled, m1)
                  else (case doIssue (w 1) v m1 of
                          (None, m2) \<Rightarrow> ok m2
                        | (Some e2, m2) \<Rightarrow> failed (aw_now (w 1)) e2 m2)))"

section \<open>Renewing\<close>

definition renewalDue ::
  "('c, 'k) acmeWorld \<Rightarrow> (string \<Rightarrow> string option) \<Rightarrow> string \<Rightarrow> duration \<Rightarrow> bool option" where
  "renewalDue w disk certPath renewBefore =
     (case Option.bind (disk certPath) (aw_period w) of
        None \<Rightarrow> None
      | Some (notBefore, notAfter) \<Rightarrow>
          let lead = (if renewBefore \<le> 0 then defaultRenewBefore notBefore notAfter else renewBefore)
          in Some (t_add notAfter (- lead) < aw_now w))"

text \<open>One vhost of a check: left alone, or issued anew.\<close>

definition renewVHost ::
  "(nat \<Rightarrow> ('c, 'k) acmeWorld) \<Rightarrow> bool \<Rightarrow> VHostConfig \<Rightarrow> 'c manager \<Rightarrow> 'c manager" where
  "renewVHost w cancelled v m =
     (if \<not> UsesACME v \<or> mg_stopped m then m
      else (case renewalDue (w 0) (mg_disk m) (fst (certPaths m v)) (vc_RenewBefore v) of
              Some False \<Rightarrow> m
            | _ \<Rightarrow> snd (issueAndStore w cancelled v m)))"

definition checkRenewals ::
  "(nat \<Rightarrow> nat \<Rightarrow> ('c, 'k) acmeWorld) \<Rightarrow> bool \<Rightarrow> 'c manager \<Rightarrow> 'c manager" where
  "checkRenewals w cancelled m =
     fold (\<lambda>(i, v). renewVHost (w i) cancelled v) (enumerate 0 (mg_vhosts m)) m"

end
