(* ===== verification/Acme_Props.thy ===== *)
theory Acme_Props
  imports Acme_Manager
begin

text \<open>
  What the manager of certificates promises: nothing it does takes a served certificate away, a
  request during the backoff does not reach the authority, a successful one is served, and a
  failed one is followed by the backoff.
\<close>

section \<open>Installed certificates\<close>

abbreviation installed :: "'c manager \<Rightarrow> string \<Rightarrow> 'c option" where
  "installed m \<equiv> byDomain (st_certs (mg_stores m))"

lemma solve_byDomain:
  "byDomain (st_certs (snd (solveAuthorization cl mode listens u st))) = byDomain (st_certs st)"
  by (auto simp: solveAuthorization_def cleaned_up split: sum.split option.split)

lemma solveAll_byDomain:
  "byDomain (st_certs (snd (solveAll cl mode listens us st))) = byDomain (st_certs st)"
proof (induction us arbitrary: st)
  case (Cons u us)
  obtain e st' where s: "solveAuthorization cl mode listens u st = (e, st')"
    by (cases "solveAuthorization cl mode listens u st")
  with solve_byDomain[of cl mode listens u st] Cons.IH[of st'] show ?case by (cases e) simp_all
qed simp

lemma obtain_byDomain:
  "byDomain (st_certs (snd (obtainCertificate cl mode listens ds st))) = byDomain (st_certs st)"
proof (cases "cl_AuthorizeOrder cl ds")
  case (Inr od)
  obtain e st' where s: "solveAll cl mode listens (od_AuthzURLs od) st = (e, st')"
    by (cases "solveAll cl mode listens (od_AuthzURLs od) st")
  with Inr solveAll_byDomain[of cl mode listens "od_AuthzURLs od" st] show ?thesis
    by (cases e) (simp_all add: obtainCertificate_def)
qed (simp add: obtainCertificate_def)

text \<open>An attempt changes the disk and the stores of responses only, until it has a certificate.\<close>

abbreviation served :: "'c manager \<Rightarrow> (string \<Rightarrow> 'c option) \<times> issueState" where
  "served m \<equiv> (installed m, mg_issue m)"

lemma ensureClient_served: "ensureClient w i ax m = (r, m') \<Longrightarrow> served m' = served m"
  by (auto simp: ensureClient_def split: prod.splits sum.splits)

lemma obtainFor_served: "obtainFor w v cl m = (r, m') \<Longrightarrow> served m' = served m"
  using obtain_byDomain[of cl "gc_ChallengeMode (mg_global m)" "aw_listens w" "vc_Domains v" "mg_stores m"]
  by (auto simp: obtainFor_def split: prod.splits)

lemma obtainWithAccount_served: "obtainWithAccount w ax v m = (r, m') \<Longrightarrow> served m' = served m"
  by (auto simp: obtainWithAccount_def split: prod.splits sum.splits if_splits option.splits
      dest!: ensureClient_served obtainFor_served)

lemma storeIssued_installed:
  "storeIssued w v dk m = (r, m') \<Longrightarrow>
   (r = None \<longrightarrow> (\<exists>cert. installed m' = installed (setCertM (vc_Domains v) cert m))) \<and>
   (r \<noteq> None \<longrightarrow> installed m' = installed m) \<and> mg_issue m' = mg_issue m"
  by (auto simp: storeIssued_def setCertM_def setCert_def split: prod.splits sum.splits option.splits)

lemma doIssue_installed:
  assumes "doIssue w v m = (r, m')"
  shows "(r = None \<longrightarrow> (\<exists>cert. installed m' = installed (setCertM (vc_Domains v) cert m))) \<and>
         (r \<noteq> None \<longrightarrow> installed m' = installed m) \<and> mg_issue m' = mg_issue m"
proof (cases "issueAccess w m v")
  case (Inl e)
  with assms show ?thesis by (auto simp: doIssue_def)
next
  case (Inr ax)
  obtain o' m1 where o: "obtainWithAccount w ax v m = (o', m1)" by (cases "obtainWithAccount w ax v m")
  note s = obtainWithAccount_served[OF o]
  show ?thesis
  proof (cases o')
    case (Inl e)
    with assms Inr o s show ?thesis by (auto simp: doIssue_def)
  next
    case dk: (Inr dk)
    with assms Inr o have "storeIssued w v dk m1 = (r, m')" by (simp add: doIssue_def)
    from storeIssued_installed[OF this] s show ?thesis by (auto simp: setCertM_def setCert_def)
  qed
qed

lemma setCertM_installed:
  "installed (setCertM ds cert m) n = (if n \<in> ToLower ` set ds then Some cert else installed m n)"
  by (simp add: setCertM_def byDomain_setCert)

text \<open>What a call of \<open>issueAndStore\<close> may do, by its result.\<close>

definition issue_spec :: "VHostConfig \<Rightarrow> instant \<Rightarrow> 'c manager \<Rightarrow> issueResult \<Rightarrow> 'c manager \<Rightarrow> bool" where
  "issue_spec v failedAt m res m' \<longleftrightarrow>
     (case res of
        Issued \<Rightarrow>
          (\<exists>cert. \<forall>n. installed m' n = (if n \<in> ToLower ` set (vc_Domains v) then Some cert else installed m n)) \<and>
          (\<forall>t. shouldAttempt t (vc_Domains v) (mg_issue m') = None)
      | BackingOff wait \<Rightarrow> m' = m
      | Cancelled \<Rightarrow> installed m' = installed m
      | IssueFailed e wait \<Rightarrow>
          installed m' = installed m \<and>
          (\<forall>t. shouldAttempt t (vc_Domains v) (mg_issue m') \<noteq> None \<longleftrightarrow> t < t_add failedAt wait))"

lemma issue_failed:
  assumes "recordFailure saves t ds e (mg_issue m1) = (wait, is')" and "installed m1 = installed m"
    and "ds = vc_Domains v"
  shows "issue_spec v t m (IssueFailed e wait) (m1\<lparr>mg_issue := is'\<rparr>)"
  using assms recordFailure_blocks(1)[OF assms(1)] by (simp add: issue_spec_def)

lemma issue_ok:
  assumes "installed m1 = installed (setCertM (vc_Domains v) cert m)"
  shows "issue_spec v t m Issued (m1\<lparr>mg_issue := recordSuccess saves (vc_Domains v) (mg_issue m1)\<rparr>)"
  using assms setCertM_installed[of "vc_Domains v" cert m]
  by (auto simp: issue_spec_def shouldAttempt_def recordSuccess_def)

text \<open>Asking for a certificate: during the backoff nothing happens at all; a success installs one
  certificate for exactly the names of the vhost and clears the backoff; a failure leaves every
  installed certificate in place and holds the next request back for the wait it reports.\<close>

lemma second_try_spec:
  assumes "installed m1 = installed m"
    and "(case doIssue (w 1) v m1 of
            (None, m2) \<Rightarrow> (Issued, m2\<lparr>mg_issue := recordSuccess saves (vc_Domains v) (mg_issue m2)\<rparr>)
          | (Some e2, m2) \<Rightarrow>
              (case recordFailure saves t (vc_Domains v) e2 (mg_issue m2) of
                 (wait, is') \<Rightarrow> (IssueFailed e2 wait, m2\<lparr>mg_issue := is'\<rparr>))) = (res, m')"
  shows "issue_spec v t m res m'"
proof -
  obtain r2 m2 where 2: "doIssue (w 1) v m1 = (r2, m2)" by (cases "doIssue (w 1) v m1")
  note d2 = doIssue_installed[OF 2]
  show ?thesis
  proof (cases r2)
    case None
    with d2 obtain cert where "installed m2 = installed (setCertM (vc_Domains v) cert m1)" by blast
    with assms(1) have c: "installed m2 = installed (setCertM (vc_Domains v) cert m)"
      by (simp add: setCertM_installed fun_eq_iff)
    from assms(2) 2 None
    have "res = Issued" "m' = m2\<lparr>mg_issue := recordSuccess saves (vc_Domains v) (mg_issue m2)\<rparr>" by simp_all
    with issue_ok[OF c] show ?thesis by simp
  next
    case (Some e2)
    obtain wait is' where f: "recordFailure saves t (vc_Domains v) e2 (mg_issue m2) = (wait, is')"
      by (cases "recordFailure saves t (vc_Domains v) e2 (mg_issue m2)")
    from d2 Some assms(1) have "installed m2 = installed m" by simp
    from issue_failed[OF f this refl] f assms(2) 2 Some show ?thesis by auto
  qed
qed

lemma issueAndStore_spec:
  assumes "issueAndStore w cancelled v m = (res, m')"
  shows "issue_spec v (aw_now (w 1)) m res m'"
proof (cases "shouldAttempt (aw_now (w 0)) (vc_Domains v) (mg_issue m)")
  case (Some wait)
  with assms show ?thesis by (auto simp: issueAndStore_def Let_def issue_spec_def)
next
  case None
  let ?m0 = "m\<lparr>mg_issue := recordAttempt (vc_Domains v) (mg_issue m)\<rparr>"
  let ?saves = "aw_writes (w 0) (is_path (mg_issue m))"
  obtain r1 m1 where 1: "doIssue (w 0) v ?m0 = (r1, m1)" by (cases "doIssue (w 0) v ?m0")
  note d1 = doIssue_installed[OF 1]
  show ?thesis
  proof (cases r1)
    case r1: None
    with d1 obtain cert where "installed m1 = installed (setCertM (vc_Domains v) cert ?m0)" by blast
    then have c: "installed m1 = installed (setCertM (vc_Domains v) cert m)"
      by (simp add: setCertM_installed fun_eq_iff)
    from assms None 1 r1
    have "res = Issued" "m' = m1\<lparr>mg_issue := recordSuccess ?saves (vc_Domains v) (mg_issue m1)\<rparr>"
      by (auto simp: issueAndStore_def Let_def)
    with issue_ok[OF c] show ?thesis by simp
  next
    case (Some e)
    with d1 have i1: "installed m1 = installed m" by simp
    consider (perm) "isPermanentError e" | (canc) "\<not> isPermanentError e" "cancelled"
      | (again) "\<not> isPermanentError e" "\<not> cancelled" by blast
    then show ?thesis
    proof cases
      case perm
      obtain wait is' where f: "recordFailure ?saves (aw_now (w 1)) (vc_Domains v) e (mg_issue m1) = (wait, is')"
        by (cases "recordFailure ?saves (aw_now (w 1)) (vc_Domains v) e (mg_issue m1)")
      from issue_failed[OF f i1 refl] f assms None 1 Some perm show ?thesis
        by (auto simp: issueAndStore_def Let_def)
    next
      case canc
      with assms None 1 Some i1 show ?thesis by (auto simp: issueAndStore_def Let_def issue_spec_def)
    next
      case again
      with assms None 1 Some show ?thesis
        by (intro second_try_spec[OF i1, where w = w and saves = ?saves]) (simp add: issueAndStore_def Let_def)
    qed
  qed
qed



section \<open>Reloading certificates\<close>

definition loads :: "('c, 'k) acmeWorld \<Rightarrow> 'c manager \<Rightarrow> VHostConfig \<Rightarrow> 'c option" where
  "loads w m v = loadCertPair w (mg_disk m) (certPaths m v)"

text \<open>The certificate that a name has after the vhosts are read in their order.\<close>

fun reloaded :: "('c, 'k) acmeWorld \<Rightarrow> 'c manager \<Rightarrow> VHostConfig list \<Rightarrow> string \<Rightarrow> 'c option \<Rightarrow> 'c option" where
  "reloaded w m [] n old = old"
| "reloaded w m (v # vs) n old =
     reloaded w m vs n
       (case loads w m v of
          Some cert \<Rightarrow> if n \<in> ToLower ` set (vc_Domains v) then Some cert else old
        | None \<Rightarrow> old)"

lemma setCertM_rest [simp]:
  "mg_disk (setCertM ds c m) = mg_disk m" "mg_global (setCertM ds c m) = mg_global m"
  "mg_vhosts (setCertM ds c m) = mg_vhosts m" "mg_issue (setCertM ds c m) = mg_issue m"
  by (simp_all add: setCertM_def)

lemma reload_fold:
  assumes "mg_disk m = mg_disk m0" and "mg_global m = mg_global m0"
  shows "installed (fst (fold (reloadVHost w) vs (m, fr))) n = reloaded w m0 vs n (installed m n) \<and>
         mg_issue (fst (fold (reloadVHost w) vs (m, fr))) = mg_issue m \<and>
         mg_disk (fst (fold (reloadVHost w) vs (m, fr))) = mg_disk m"
  using assms
proof (induction vs arbitrary: m fr)
  case (Cons v vs)
  have l: "loadCertPair w (mg_disk m) (certPaths m v) = loads w m0 v"
    using Cons.prems by (simp add: loads_def certPaths_def)
  show ?case
  proof (cases "loads w m0 v")
    case None
    with l Cons.IH[OF Cons.prems] show ?thesis by (simp add: reloadVHost_def)
  next
    case (Some cert)
    have "mg_disk (setCertM (vc_Domains v) cert m) = mg_disk m0" "mg_global (setCertM (vc_Domains v) cert m) = mg_global m0"
      using Cons.prems by simp_all
    from Cons.IH[OF this] l Some show ?thesis by (simp add: reloadVHost_def setCertM_installed)
  qed
qed simp

lemma reloaded_keeps: "old \<noteq> None \<Longrightarrow> reloaded w m vs n old \<noteq> None"
proof (induction vs arbitrary: old)
  case (Cons v vs)
  then have "(case loads w m v of Some cert \<Rightarrow> if n \<in> ToLower ` set (vc_Domains v) then Some cert else old | None \<Rightarrow> old) \<noteq> None"
    by (auto split: option.split)
  from Cons.IH[OF this] show ?case by simp
qed simp

lemma reloaded_unchanged:
  "(\<And>v. v \<in> set vs \<Longrightarrow> n \<in> ToLower ` set (vc_Domains v) \<Longrightarrow> loads w m v = None) \<Longrightarrow> reloaded w m vs n old = old"
  by (induction vs arbitrary: old) (auto split: option.split)

lemma reloaded_last:
  "loads w m v = Some cert \<Longrightarrow> n \<in> ToLower ` set (vc_Domains v) \<Longrightarrow>
   (\<And>v'. v' \<in> set vs \<Longrightarrow> n \<in> ToLower ` set (vc_Domains v') \<Longrightarrow> loads w m v' = None) \<Longrightarrow>
   reloaded w m (us @ v # vs) n old = Some cert"
  by (induction us arbitrary: old) (auto simp: reloaded_unchanged)

text \<open>A reload of the certificates takes no certificate away, keeps the one of a name whose files
  do not load, serves the one that loads last for a name, and asks no authority for anything.\<close>

theorem reload_certificates:
  "(installed m n \<noteq> None \<longrightarrow> installed (fst (ReloadCerts w m)) n \<noteq> None) \<and>
   ((\<forall>v \<in> set (mg_vhosts m). n \<in> ToLower ` set (vc_Domains v) \<longrightarrow> loads w m v = None) \<longrightarrow>
      installed (fst (ReloadCerts w m)) n = installed m n) \<and>
   (\<forall>us v vs cert. mg_vhosts m = us @ v # vs \<and> loads w m v = Some cert \<and> n \<in> ToLower ` set (vc_Domains v) \<and>
      (\<forall>v' \<in> set vs. n \<notin> ToLower ` set (vc_Domains v')) \<longrightarrow>
      installed (fst (ReloadCerts w m)) n = Some cert) \<and>
   mg_issue (fst (ReloadCerts w m)) = mg_issue m"
proof -
  have r: "installed (fst (ReloadCerts w m)) n = reloaded w m (mg_vhosts m) n (installed m n)"
    and i: "mg_issue (fst (ReloadCerts w m)) = mg_issue m"
    using reload_fold[of m m w "mg_vhosts m" "[]" n] by (simp_all add: ReloadCerts_def)
  have "reloaded w m (us @ v # vs) n (installed m n) = Some cert"
    if "loads w m v = Some cert" "n \<in> ToLower ` set (vc_Domains v)" "\<forall>v' \<in> set vs. n \<notin> ToLower ` set (vc_Domains v')"
    for us v vs cert
    using that by (intro reloaded_last) auto
  with r i reloaded_keeps[of "installed m n" w m "mg_vhosts m" n]
    reloaded_unchanged[of "mg_vhosts m" n w m "installed m n"] show ?thesis by auto
qed


section \<open>A concrete manager\<close>

definition demo_acme :: "(nat, nat) acmeWorld" where
  "demo_acme =
     \<lparr>aw_now = Instant 0, aw_listens = True, aw_writes = (\<lambda>_. True), aw_resolves = (\<lambda>_. True),
      aw_zeroSSL = (\<lambda>_. Inl (errText ''x'')), aw_hasCerts = (\<lambda>_. True),
      aw_account = (\<lambda>_. demo_keys 0), aw_removes = (\<lambda>_. True), aw_client = (\<lambda>_ _. demo_client),
      aw_certFile = demo_write ''/c/.tmp-3'', aw_certKeyFile = demo_write ''/c/.tmp-4'',
      aw_encodeKey = (\<lambda>_. Inr ''key''), aw_encodeCert = concat,
      aw_X509KeyPair = (\<lambda>c k. if c = ''leaf'' then Some 7 else None), aw_period = (\<lambda>_. None),
      aw_bootstrap = None\<rparr>"

definition demo_vhost :: VHostConfig where
  "demo_vhost = \<lparr>vc_Domains = [''a.org''], vc_CertPath = ''/c/a.crt'', vc_KeyPath = ''/c/a.key'',
     vc_AcmeSource = ''letsencrypt'', vc_RenewBefore = 0\<rparr>"

definition demo_manager :: "nat manager" where
  "demo_manager =
     \<lparr>mg_global = \<lparr>gc_Email = ''m@a.org'', gc_CacheDir = ''/c'', gc_ChallengeMode = ChallengeHTTP01,
        gc_ServePort80 = True, gc_DirectoryURL = [], gc_CARootFile = [], gc_InsecureSkipVerify = False\<rparr>,
      mg_vhosts = [demo_vhost], mg_stores = demo_stores,
      mg_issue = demo_issue, mg_disk = (\<lambda>_. None), mg_stopped = False\<rparr>"

lemma demo_issued: "fst (issueAndStore (\<lambda>_. demo_acme) False demo_vhost demo_manager) = Issued"
  by code_simp


definition demo_disk :: "nat manager" where
  "demo_disk = demo_manager\<lparr>mg_disk := [''/c/a.crt'' \<mapsto> ''leaf'', ''/c/a.key'' \<mapsto> ''key'']\<rparr>"

lemma reload_certificates_witness:
  "installed (fst (ReloadCerts demo_acme demo_disk)) ''a.org'' = Some 7"
proof -
  have "mg_vhosts demo_disk = [] @ demo_vhost # []" "loads demo_acme demo_disk demo_vhost = Some 7"
    by code_simp+
  moreover have "''a.org'' \<in> ToLower ` set (vc_Domains demo_vhost)" by code_simp
  ultimately show ?thesis using reload_certificates[of demo_disk "''a.org''" demo_acme] by fastforce
qed

end
