(* ===== verification/Serve.thy ===== *)
theory Serve
  imports Vhosts Jwt_Verify Acme_Challenge
begin

text \<open>
  What the server does with a request (\<^verbatim>\<open>src/server.go\<close>, \<^verbatim>\<open>src/Websocket.go\<close>): the top-level handler
  (challenge, IP filter, vhost, route), the two authentication wrappers of a route, and the route
  itself. The outcome is a response, a directory or an upstream to go on with, a redirect to a path
  with a query, or a closed connection. Reading a file, the JWT library and the network are parameters.
\<close>

section \<open>Credentials in a request\<close>

definition parseBasicAuth :: "string \<Rightarrow> (string \<times> string) option" where
  "parseBasicAuth auth =
     (if length auth < 6 \<or> \<not> EqualFold (take 6 auth) ''Basic '' then None
      else (case StdEncoding_Decode (drop 6 auth) of
              None \<Rightarrow> None
            | Some c \<Rightarrow> (case Cut c '':'' of (user, pass, ok) \<Rightarrow> if ok then Some (user, pass) else None)))"

definition req_BasicAuth :: "request \<Rightarrow> (string \<times> string) option" where
  "req_BasicAuth r =
     (let auth = hdr_Get (rq_Header r) ''Authorization'' in if auth = [] then None else parseBasicAuth auth)"

text \<open>The part of \<^verbatim>\<open>Request.Cookie\<close> that counts: the first valid cookie of that name.\<close>

definition trimBlank :: "string \<Rightarrow> string" where
  "trimBlank s =
     (let b = (\<lambda>c. c \<in> {CHR '' '', CHR 0x09, CHR 0x0A, CHR 0x0D})
      in rev (dropWhile b (rev (dropWhile b s))))"

definition cookieByte :: "char \<Rightarrow> bool" where
  "cookieByte c =
     (let n = (of_char c :: nat) in 32 \<le> n \<and> n < 127 \<and> c \<noteq> CHR 0x22 \<and> c \<noteq> CHR '';'' \<and> c \<noteq> CHR 0x5C)"

definition cookieValue :: "string \<Rightarrow> string option" where
  "cookieValue raw =
     (let v = (if 1 < length raw \<and> hd raw = CHR 0x22 \<and> last raw = CHR 0x22 then butlast (tl raw) else raw)
      in if list_all cookieByte v then Some v else None)"

definition cookiePart :: "string \<Rightarrow> string \<Rightarrow> string option" where
  "cookiePart name part =
     (case Cut (trimBlank part) ''='' of
        (n, v, _) \<Rightarrow> if trimBlank n = name \<and> list_all token_char name then cookieValue v else None)"

fun firstSome :: "'a option list \<Rightarrow> 'a option" where
  "firstSome [] = None"
| "firstSome (x # xs) = (case x of Some a \<Rightarrow> Some a | None \<Rightarrow> firstSome xs)"

definition req_Cookie :: "request \<Rightarrow> string \<Rightarrow> string option" where
  "req_Cookie r name =
     (if name = [] then None
      else firstSome (map (cookiePart name)
             (concat (map (\<lambda>line. Split line CHR '';'')
                (case rq_Header r ''Cookie'' of None \<Rightarrow> [] | Some lines \<Rightarrow> lines)))))"

section \<open>Responses\<close>

record response =
  rs_status :: int
  rs_header :: header
  rs_body :: string

definition noHeader :: header where
  "noHeader = (\<lambda>_. None)"

definition httpError :: "header \<Rightarrow> string \<Rightarrow> int \<Rightarrow> response" where
  "httpError h msg code =
     \<lparr>rs_status = code,
      rs_header = hdr_Set ''X-Content-Type-Options'' ''nosniff''
        (hdr_Set ''Content-Type'' ''text/plain; charset=utf-8'' (hdr_Del ''Content-Length'' h)),
      rs_body = msg @ [CHR 0x0A]\<rparr>"

record forward =
  fw_upstream :: Upstream
  fw_request :: request
  fw_header :: header
  fw_timeout :: "duration option"

record dirService =
  ds_path :: string
  ds_listing :: bool
  ds_header :: header
  ds_name :: string

datatype outcome =
    Respond response
  | Directory dirService
  | Forward forward
  | MovedPermanently string string
  | CloseConnection
  | Panic

section \<open>Authentication\<close>

definition checkBasicAuth :: "request \<Rightarrow> Auth \<Rightarrow> bool" where
  "checkBasicAuth r auth \<longleftrightarrow> req_BasicAuth r = Some (auth_User auth, auth_Password auth)"

definition basicAuthReply :: response where
  "basicAuthReply =
     httpError (hdr_Set ''WWW-Authenticate'' (''Basic realm='' @ [CHR 0x22] @ ''routemux'' @ [CHR 0x22]) noHeader)
       ''Unauthorized'' 401"

definition jwtToken :: "request \<Rightarrow> JWTAuth \<Rightarrow> string" where
  "jwtToken r j =
     (let fromHeader =
        (if HeaderKey j \<noteq> []
         then (let hv = hdr_Get (rq_Header r) (HeaderKey j)
               in TrimSpace (if HasPrefix hv ''Bearer '' then drop 7 hv else hv))
         else [])
      in if fromHeader = [] \<and> CookieKey j \<noteq> []
         then (case req_Cookie r (CookieKey j) of None \<Rightarrow> [] | Some v \<Rightarrow> v)
         else fromHeader)"

text \<open>Whether the user may use the route.\<close>

datatype authorisation = Allowed | NotInList | NoList

definition authoriseUser :: "RouteConfig \<Rightarrow> JWTAuth \<Rightarrow> string \<Rightarrow> authorisation" where
  "authoriseUser rc j username =
     (if AuthUsers rc \<noteq> []
      then (if list_ex (\<lambda>u. u = username) (AuthUsers rc) then Allowed else NotInList)
      else if \<not> DefaultAllowAll j then NoList
      else Allowed)"

definition jwtValidation ::
  "jwtLib \<Rightarrow> jwksWorld \<Rightarrow> request \<Rightarrow> RouteConfig \<Rightarrow> JWTAuth \<Rightarrow> jwtState \<Rightarrow> response option \<times> jwtState" where
  "jwtValidation lib w r rc j st =
     (let tokenStr = jwtToken r j in
      if tokenStr = [] then (Some (httpError noHeader ''Unauthorized: missing token'' 401), st)
      else (case Verify lib w tokenStr (ClaimUserKey j) (Secret j) (JWKURL j) (AudID j) st of
              (Inl e, st') \<Rightarrow> (Some (httpError noHeader ''Unauthorized'' 401), st')
            | (Inr usernameVal, st') \<Rightarrow>
                if ClaimUserKey j = [] then (None, st')
                else (case authoriseUser rc j (asString usernameVal) of
                        Allowed \<Rightarrow> (None, st')
                      | NotInList \<Rightarrow>
                          (Some (httpError noHeader ''Forbidden: user not authorised for this route'' 403), st')
                      | NoList \<Rightarrow>
                          (Some (httpError noHeader ''Forbidden: route requires explicit user access'' 403), st'))))"

section \<open>The route\<close>

definition isWebSocketUpgrade :: "request \<Rightarrow> bool" where
  "isWebSocketUpgrade r \<longleftrightarrow>
     EqualFold (hdr_Get (rq_Header r) ''Upgrade'') ''websocket'' \<and>
     Contains (ToLower (hdr_Get (rq_Header r) ''Connection'')) ''upgrade''"

text \<open>\<^verbatim>\<open>noListFS.Open\<close>: the flag of a found entry says that it is a directory.\<close>

datatype fsError = NotExist | PermissionDenied | OtherError

definition noListFS_Open ::
  "bool \<Rightarrow> (string \<Rightarrow> fsError + bool) \<Rightarrow> string \<Rightarrow> fsError + bool" where
  "noListFS_Open listing base name =
     (case base name of
        Inl e \<Rightarrow> Inl e
      | Inr isdir \<Rightarrow>
          if \<not> listing \<and> isdir \<and> isl (base (name @ ''/index.html'')) then Inl PermissionDenied
          else Inr isdir)"

text \<open>A file or status route runs no Director: no configuration, no chain.\<close>

definition localHeaders :: "header \<Rightarrow> request \<Rightarrow> RouteConfig \<Rightarrow> header" where
  "localHeaders h r rc = manipulateClientHeaders h noHeader r rc [] None"

definition serveDir :: "string \<Rightarrow> string \<Rightarrow> bool \<Rightarrow> request \<Rightarrow> RouteConfig \<Rightarrow> outcome" where
  "serveDir routePath dirPath listing r rc =
     (let h = localHeaders noHeader r rc;
          p = url_Path (rq_URL r); stripped = TrimPrefix p routePath
      in if length stripped < length p
         then Directory \<lparr>ds_path = dirPath, ds_listing = listing, ds_header = h, ds_name = stripped\<rparr>
         else Respond (httpError h ''404 page not found'' 404))"

definition serveFile ::
  "(string \<Rightarrow> fsError + string) \<Rightarrow> string \<Rightarrow> int \<Rightarrow> string \<Rightarrow> request \<Rightarrow> RouteConfig \<Rightarrow> response" where
  "serveFile readFile filePath status contentType r rc =
     (case readFile filePath of
        Inl NotExist \<Rightarrow> httpError noHeader ''Not Found'' 404
      | Inl _ \<Rightarrow> httpError noHeader ''Internal Server Error'' 500
      | Inr bytes \<Rightarrow>
          \<lparr>rs_status = status,
           rs_header = localHeaders (hdr_Set ''Content-Type'' contentType noHeader) r rc, rs_body = bytes\<rparr>)"

definition serveStatus :: "int \<Rightarrow> string \<Rightarrow> request \<Rightarrow> RouteConfig \<Rightarrow> response" where
  "serveStatus status body r rc =
     \<lparr>rs_status = status, rs_header = localHeaders noHeader r rc, rs_body = body\<rparr>"

definition serveProxy ::
  "Config \<Rightarrow> int \<Rightarrow> string \<Rightarrow> RouteConfig \<Rightarrow> proxyHandler \<Rightarrow> request \<Rightarrow> outcome \<times> proxyHandler" where
  "serveProxy cfg draw routePath rc px r =
     (case px_picker px of
        None \<Rightarrow> (Panic, px)
      | Some p \<Rightarrow>
          (case pick (LBMode rc) draw p of
             None \<Rightarrow> (Panic, px)
           | Some (u, p') \<Rightarrow>
               (Forward \<lparr>fw_upstream = u, fw_request = director routePath rc cfg u r,
                  fw_header = outgoing routePath rc cfg u r,
                  fw_timeout = (if 0 < px_clientTimeout px \<and> \<not> isWebSocketUpgrade r
                                then Some (px_clientTimeout px) else None)\<rparr>,
                px\<lparr>px_picker := Some p'\<rparr>)))"

text \<open>What does not belong to the configuration: the random draw, the files, the JWT library and
  the world it fetches keys from.\<close>

record serveEnv =
  se_draw :: int
  se_readFile :: "string \<Rightarrow> fsError + string"
  se_lib :: jwtLib
  se_world :: jwksWorld

definition serveKind :: "serveEnv \<Rightarrow> Config \<Rightarrow> routeHandler \<Rightarrow> request \<Rightarrow> outcome \<times> routeHandler" where
  "serveKind env cfg h r =
     (case rh_kind h of
        DirKind dirPath listing \<Rightarrow> (serveDir (rh_path h) dirPath listing r (rh_rc h), h)
      | FileKind filePath status contentType \<Rightarrow>
          (Respond (serveFile (se_readFile env) filePath status contentType r (rh_rc h)), h)
      | StatusKind status body \<Rightarrow> (Respond (serveStatus status body r (rh_rc h)), h)
      | ProxyKind px \<Rightarrow>
          (case serveProxy cfg (se_draw env) (rh_path h) (rh_rc h) px r of
             (res, px') \<Rightarrow> (res, h\<lparr>rh_kind := ProxyKind px'\<rparr>)))"

definition requireBasicAuth ::
  "serveEnv \<Rightarrow> Config \<Rightarrow> routeHandler \<Rightarrow> request \<Rightarrow> outcome \<times> routeHandler" where
  "requireBasicAuth env cfg h r =
     (case rh_auth h of
        None \<Rightarrow> serveKind env cfg h r
      | Some auth \<Rightarrow>
          if checkBasicAuth r auth then serveKind env cfg h r else (Respond basicAuthReply, h))"

definition serveRoute ::
  "serveEnv \<Rightarrow> Config \<Rightarrow> routeHandler \<Rightarrow> request \<Rightarrow> jwtState \<Rightarrow> outcome \<times> routeHandler \<times> jwtState" where
  "serveRoute env cfg h r st =
     (case rh_jwt h of
        None \<Rightarrow> (case requireBasicAuth env cfg h r of (res, h') \<Rightarrow> (res, h', st))
      | Some j \<Rightarrow>
          (case jwtValidation (se_lib env) (se_world env) r (rh_rc h) j st of
             (Some resp, st') \<Rightarrow> (Respond resp, h, st')
           | (None, st') \<Rightarrow> (case requireBasicAuth env cfg h r of (res, h') \<Rightarrow> (res, h', st'))))"

end
