(* ===== verification/Cli.thy ===== *)
theory Cli
  imports Config_File Acme_Config "HOL-Library.AList"
begin

text \<open>
  The command line (\<^verbatim>\<open>src/cli.go\<close>): the first pass that finds the configuration file, the loop of
  \<open>applyCLI\<close> with its current vhost and its current route, and \<open>parseAll\<close>. The cases of the loop that
  do the same for different fields are tables from the flag to what its value does. The file system,
  the environment and the YAML decoder are parameters.
\<close>

section \<open>Arguments\<close>

datatype cliError =
    NeedsValue string
  | NeedsRoute string
  | BadPort string
  | BadEntry string entryError
  | BadAuth string
  | BadHeader string
  | BadDest destError
  | TLSNeedsVHost
  | UnknownArgument string
  | ExitsWith string

definition expandArg :: "string \<Rightarrow> string list" where
  "expandArg a =
     (if HasPrefix a ''--'' \<and> Contains a ''='' then
        (case SplitN2 (drop 2 a) CHR ''='' of
           [k, v] \<Rightarrow> [''--'' @ k, v]
         | _ \<Rightarrow> [a])
      else [a])"

definition expandArgs :: "string list \<Rightarrow> string list" where
  "expandArgs args = concat (map expandArg args)"

definition parseHeaderString :: "string \<Rightarrow> (string \<times> string) option" where
  "parseHeaderString s =
     (case Index s '':'' of
        None \<Rightarrow> None
      | Some i \<Rightarrow> Some (TrimSpace (take i s), TrimSpace (drop (i + 1) s)))"

definition parseAuthString :: "string \<Rightarrow> Auth option" where
  "parseAuthString s =
     (case SplitN2 s CHR '':'' of
        [u, p] \<Rightarrow> Some \<lparr>auth_User = u, auth_Password = p\<rparr>
      | _ \<Rightarrow> None)"

section \<open>Global flags\<close>

definition zeroACME :: ACMEConfig where
  "zeroACME = \<lparr>ac_Email = [], ac_CacheDir = [], ac_ChallengeMode = [], ac_ServePort80 = False,
     ac_DirectoryURL = [], ac_CARootFile = [], ac_Insecure = False\<rparr>"

definition zeroTLS :: VHostTLS where
  "zeroTLS = \<lparr>tls_Cert = [], tls_Key = [], AcmeSource = [], RenewBefore = []\<rparr>"

definition zeroJWT :: JWTAuth where
  "zeroJWT = \<lparr>HeaderKey = [], CookieKey = [], ClaimUserKey = [], Secret = [], JWKURL = [], AudID = [],
     DefaultAllowAll = False\<rparr>"

text \<open>\<open>ensureACME\<close>, the same for the JWT block, and \<open>ensureVHostTLS\<close>, each with the write to the field.\<close>

definition onACME :: "(ACMEConfig \<Rightarrow> ACMEConfig) \<Rightarrow> Config \<Rightarrow> Config" where
  "onACME f c = c\<lparr>cfg_ACME := Some (f (case cfg_ACME c of None \<Rightarrow> zeroACME | Some a \<Rightarrow> a))\<rparr>"

definition onJWT :: "(JWTAuth \<Rightarrow> JWTAuth) \<Rightarrow> Config \<Rightarrow> Config" where
  "onJWT f c = c\<lparr>cfg_JWTAuth := Some (f (case cfg_JWTAuth c of None \<Rightarrow> zeroJWT | Some j \<Rightarrow> j))\<rparr>"

definition onTLS :: "(VHostTLS \<Rightarrow> VHostTLS) \<Rightarrow> VHostTLS option \<Rightarrow> VHostTLS option" where
  "onTLS f t = Some (f (case t of None \<Rightarrow> zeroTLS | Some t \<Rightarrow> t))"

definition setPort :: "string \<Rightarrow> Config \<Rightarrow> cliError + Config" where
  "setPort v c = (case Sscanf_d v of None \<Rightarrow> Inl (BadPort v) | Some n \<Rightarrow> Inr (c\<lparr>Port := n\<rparr>))"

definition setGlobalAuth :: "string \<Rightarrow> Config \<Rightarrow> cliError + Config" where
  "setGlobalAuth v c =
     (case parseAuthString v of None \<Rightarrow> Inl (BadAuth v) | Some a \<Rightarrow> Inr (c\<lparr>GlobalAuth := Some a\<rparr>))"

definition addTrustedProxy :: "string \<Rightarrow> Config \<Rightarrow> cliError + Config" where
  "addTrustedProxy v c =
     (case parseFilterEntry v of
        Inl e \<Rightarrow> Inl (BadEntry ''--trusted-proxy'' e)
      | Inr src \<Rightarrow>
          Inr (c\<lparr>cfg_TrustedProxies :=
             Some \<lparr>tp_list = addToCIDRList (map_option tp_list (cfg_TrustedProxies c)) src\<rparr>\<rparr>))"

definition emptyFilter :: IPFilter where
  "emptyFilter = \<lparr>f_blocked = None, f_allowed = None\<rparr>"

definition addFilterEntry :: "string \<Rightarrow> string \<Rightarrow> Config \<Rightarrow> cliError + Config" where
  "addFilterEntry arg v c =
     (case parseFilterEntry v of
        Inl e \<Rightarrow> Inl (BadEntry arg e)
      | Inr src \<Rightarrow>
          let f = (case cfg_IPFilter c of None \<Rightarrow> emptyFilter | Some f \<Rightarrow> f) in
          Inr (c\<lparr>cfg_IPFilter := Some
             (if arg = ''--ip-filter-allow'' then f\<lparr>f_allowed := Some (addToCIDRList (f_allowed f) src)\<rparr>
              else f\<lparr>f_blocked := Some (addToCIDRList (f_blocked f) src)\<rparr>)\<rparr>))"

type_synonym globalSetter = "string \<Rightarrow> Config \<Rightarrow> cliError + Config"

definition globalValueFlags :: "(string \<times> globalSetter) list" where
  "globalValueFlags =
     [(''--listen'', \<lambda>v c. Inr (c\<lparr>Listen := v\<rparr>)),
      (''--port'', setPort),
      (''--global-tls-cert'', \<lambda>v c. Inr (c\<lparr>GlobalTLSCert := v\<rparr>)),
      (''--global-tls-key'', \<lambda>v c. Inr (c\<lparr>GlobalTLSKey := v\<rparr>)),
      (''--acme-email'', \<lambda>v c. Inr (onACME (ac_Email_update (\<lambda>_. v)) c)),
      (''--acme-cache-dir'', \<lambda>v c. Inr (onACME (ac_CacheDir_update (\<lambda>_. v)) c)),
      (''--acme-challenge-mode'', \<lambda>v c. Inr (onACME (ac_ChallengeMode_update (\<lambda>_. v)) c)),
      (''--acme-directory-url'', \<lambda>v c. Inr (onACME (ac_DirectoryURL_update (\<lambda>_. v)) c)),
      (''--acme-ca-root-file'', \<lambda>v c. Inr (onACME (ac_CARootFile_update (\<lambda>_. v)) c)),
      (''--jwt-header'', \<lambda>v c. Inr (onJWT (HeaderKey_update (\<lambda>_. v)) c)),
      (''--jwt-cookie'', \<lambda>v c. Inr (onJWT (CookieKey_update (\<lambda>_. v)) c)),
      (''--jwt-claim-user'', \<lambda>v c. Inr (onJWT (ClaimUserKey_update (\<lambda>_. v)) c)),
      (''--jwt-secret'', \<lambda>v c. Inr (onJWT (Secret_update (\<lambda>_. v)) c)),
      (''--jwt-jwk-url'', \<lambda>v c. Inr (onJWT (JWKURL_update (\<lambda>_. v)) c)),
      (''--jwt-aud'', \<lambda>v c. Inr (onJWT (AudID_update (\<lambda>_. v)) c)),
      (''--trusted-proxy'', addTrustedProxy),
      (''--ip-filter-allow'', addFilterEntry ''--ip-filter-allow''),
      (''--ip-filter-block'', addFilterEntry ''--ip-filter-block''),
      (''--global-auth'', setGlobalAuth)]"

definition globalSwitches :: "(string \<times> (Config \<Rightarrow> Config)) list" where
  "globalSwitches =
     [(''--acme-serve-port80'', onACME (ac_ServePort80_update (\<lambda>_. True))),
      (''--acme-insecure-skip-verify'', onACME (ac_Insecure_update (\<lambda>_. True))),
      (''--jwt-default-allow-all'', onJWT (DefaultAllowAll_update (\<lambda>_. True))),
      (''--trust-client-headers'', TrustClientHeaders_update (\<lambda>_. True))]"

definition tlsValueFlags :: "(string \<times> (string \<Rightarrow> VHostTLS \<Rightarrow> VHostTLS)) list" where
  "tlsValueFlags =
     [(''--tls-acme-source'', \<lambda>v. AcmeSource_update (\<lambda>_. v)),
      (''--tls-cert'', \<lambda>v. tls_Cert_update (\<lambda>_. v)),
      (''--tls-key'', \<lambda>v. tls_Key_update (\<lambda>_. v)),
      (''--tls-acme-renewal'', \<lambda>v. RenewBefore_update (\<lambda>_. v))]"

section \<open>Flags of a route\<close>

type_synonym routeSetter = "string \<Rightarrow> RouteConfig \<Rightarrow> cliError + RouteConfig"

definition addAuthUsers :: routeSetter where
  "addAuthUsers v rc =
     Inr (rc\<lparr>AuthUsers := AuthUsers rc @ filter (\<lambda>u. u \<noteq> []) (map TrimSpace (Split v CHR '',''))\<rparr>)"

definition setRouteAuth :: routeSetter where
  "setRouteAuth v rc =
     (let rc = rc\<lparr>AuthExplicit := True\<rparr> in
      if v = [] then Inr (rc\<lparr>rc_Auth := None\<rparr>)
      else (case parseAuthString v of
              None \<Rightarrow> Inl (BadAuth v)
            | Some a \<Rightarrow> Inr (rc\<lparr>rc_Auth := Some a\<rparr>)))"

definition hasKind :: "segKind \<Rightarrow> parsedHeaderValue \<Rightarrow> bool" where
  "hasKind k ph \<longleftrightarrow> list_ex (\<lambda>seg. seg_kind seg = k) (segments ph)"

definition addDestHeader :: routeSetter where
  "addDestHeader v rc =
     (case parseHeaderString v of
        None \<Rightarrow> Inl (BadHeader v)
      | Some (name, val) \<Rightarrow>
          let ph = compileHeaderValue val in
          Inr (rc\<lparr>ParsedAddHeaders := AList.update name ph (ParsedAddHeaders rc),
                  AddHasVars := (AddHasVars rc \<or> \<not> isConst ph),
                  NeedsOriginal := (NeedsOriginal rc \<or> hasKind SegHeaderName ph),
                  NeedsTrustedXFF := (NeedsTrustedXFF rc \<or> hasKind SegTrustedXFF ph)\<rparr>))"

definition addClientHeader :: routeSetter where
  "addClientHeader v rc =
     (case parseHeaderString v of
        None \<Rightarrow> Inl (BadHeader v)
      | Some (name, val) \<Rightarrow>
          let ph = compileHeaderValue val in
          Inr (rc\<lparr>ParsedClientAddHeaders := AList.update name ph (ParsedClientAddHeaders rc),
                  ClientAddHasVars := (ClientAddHasVars rc \<or> \<not> isConst ph),
                  ClientNeedsRespHeaders := (ClientNeedsRespHeaders rc \<or> hasKind SegHeaderName ph),
                  NeedsTrustedXFF := (NeedsTrustedXFF rc \<or> hasKind SegTrustedXFF ph)\<rparr>))"

definition addDestDelete :: routeSetter where
  "addDestDelete v rc =
     Inr (rc\<lparr>DeleteHeaders := DeleteHeaders rc @ [v],
             DeleteHasWildcard := (DeleteHasWildcard rc \<or> Contains v ''*'')\<rparr>)"

definition addClientDelete :: routeSetter where
  "addClientDelete v rc =
     Inr (rc\<lparr>ClientDelHeaders := ClientDelHeaders rc @ [v],
             ClientDelHasWildcard := (ClientDelHasWildcard rc \<or> Contains v ''*'')\<rparr>)"

definition routeValueFlags :: "(string \<times> routeSetter) list" where
  "routeValueFlags =
     [(''--dest'', \<lambda>v rc. Inr (rc\<lparr>destEntries := destEntries rc @ [v]\<rparr>)),
      (''--auth-users'', addAuthUsers),
      (''--auth'', setRouteAuth),
      (''--dest-add-header'', addDestHeader),
      (''--dest-del-header'', addDestDelete),
      (''--client-add-header'', addClientHeader),
      (''--client-del-header'', addClientDelete),
      (''--load-balancer-mode'', \<lambda>v rc. Inr (rc\<lparr>LBMode := normalizeLBMode v\<rparr>)),
      (''--timeout'', \<lambda>v rc. Inr (rc\<lparr>Timeout := v\<rparr>)),
      (''--dial-timeout'', \<lambda>v rc. Inr (rc\<lparr>DialTimeout := v\<rparr>))]"

definition routeSwitches :: "(string \<times> (RouteConfig \<Rightarrow> RouteConfig)) list" where
  "routeSwitches =
     [(''--noTLSverify'', NoTLSVerify_update (\<lambda>_. True)),
      (''--skip-jwt-auth'', SkipJwtAuth_update (\<lambda>_. True))]"

section \<open>The loop\<close>

text \<open>The variables of \<open>applyCLI\<close>: a nil slice or map is \<^const>\<open>None\<close>.\<close>

record cliState =
  cs_cfg :: Config
  cs_domains :: "string list option"
  cs_routes :: "routes option"
  cs_tls :: "VHostTLS option"
  cs_path :: string
  cs_route :: "RouteConfig option"
  cs_validateOnly :: bool

definition currentRoutes :: "cliState \<Rightarrow> routes" where
  "currentRoutes st = (case cs_routes st of None \<Rightarrow> [] | Some rs \<Rightarrow> rs)"

definition flushRoute :: "cliState \<Rightarrow> cliError + cliState" where
  "flushRoute st =
     (case cs_route st of
        None \<Rightarrow> Inr st
      | Some rc \<Rightarrow>
          if cs_path st = [] then Inr st
          else (case applyDestEntries rc (destEntries rc) of
                  Inl e \<Rightarrow> Inl (BadDest e)
                | Inr rc' \<Rightarrow>
                    Inr (st\<lparr>cs_routes := Some (AList.update (cs_path st) rc' (currentRoutes st)),
                            cs_path := [], cs_route := None\<rparr>)))"

definition mergeRoutes :: "routes \<Rightarrow> routes \<Rightarrow> routes" where
  "mergeRoutes new old = fold (\<lambda>(k, v). AList.update k v) new old"

text \<open>The vhosts with the routes merged into the first one that has the domain \<^verbatim>\<open>*\<close>, if there is one.\<close>

fun mergeCatchAll :: "routes \<Rightarrow> VHost list \<Rightarrow> VHost list option" where
  "mergeCatchAll rs [] = None"
| "mergeCatchAll rs (vh # vhs) =
     (if list_ex (\<lambda>d. d = ''*'') (Domains vh)
      then Some (vh\<lparr>Routes := mergeRoutes rs (Routes vh)\<rparr> # vhs)
      else (case mergeCatchAll rs vhs of None \<Rightarrow> None | Some vhs' \<Rightarrow> Some (vh # vhs')))"

definition appendVHost :: "string list \<Rightarrow> routes \<Rightarrow> cliState \<Rightarrow> cliState" where
  "appendVHost ds rs st =
     st\<lparr>cs_cfg := (cs_cfg st)\<lparr>VHosts := VHosts (cs_cfg st) @
          [\<lparr>Domains = ds, Routes = rs, vh_TLS = cs_tls st\<rparr>]\<rparr>,
        cs_routes := None, cs_domains := None, cs_tls := None\<rparr>"

definition flushVHost :: "cliState \<Rightarrow> cliError + cliState" where
  "flushVHost st0 =
     (case flushRoute st0 of
        Inl e \<Rightarrow> Inl e
      | Inr st \<Rightarrow>
          if cs_tls st \<noteq> None \<and> cs_domains st = None then Inl TLSNeedsVHost
          else (case cs_routes st of
                  None \<Rightarrow> Inr st
                | Some rs \<Rightarrow>
                    (case cs_domains st of
                       Some ds \<Rightarrow> Inr (appendVHost ds rs st)
                     | None \<Rightarrow>
                         (case mergeCatchAll rs (VHosts (cs_cfg st)) of
                            Some vhs \<Rightarrow> Inr (st\<lparr>cs_cfg := (cs_cfg st)\<lparr>VHosts := vhs\<rparr>, cs_routes := None\<rparr>)
                          | None \<Rightarrow> Inr (appendVHost [''*''] rs st)))))"

definition vhostStep :: "string list \<Rightarrow> cliState \<Rightarrow> cliError + cliState \<times> string list" where
  "vhostStep rest st =
     (case flushVHost st of
        Inl e \<Rightarrow> Inl e
      | Inr st' \<Rightarrow>
          (case rest of
             [] \<Rightarrow> Inl (NeedsValue ''--vhost'')
           | v # rest' \<Rightarrow> Inr (st'\<lparr>cs_domains := Some (map TrimSpace (Split v CHR ''|''))\<rparr>, rest')))"

definition routeStep :: "string list \<Rightarrow> cliState \<Rightarrow> cliError + cliState \<times> string list" where
  "routeStep rest st =
     (case flushRoute st of
        Inl e \<Rightarrow> Inl e
      | Inr st' \<Rightarrow>
          (case rest of
             [] \<Rightarrow> Inl (NeedsValue ''--route'')
           | v # rest' \<Rightarrow>
               Inr (st'\<lparr>cs_path := v, cs_routes := Some (currentRoutes st'),
                        cs_route := Some (case map_of (currentRoutes st') v of
                                            Some rc \<Rightarrow> rc | None \<Rightarrow> zeroRoute)\<rparr>, rest')))"

definition globalStep ::
  "string \<Rightarrow> globalSetter \<Rightarrow> string list \<Rightarrow> cliState \<Rightarrow> cliError + cliState \<times> string list" where
  "globalStep arg f rest st =
     (case rest of
        [] \<Rightarrow> Inl (NeedsValue arg)
      | v # rest' \<Rightarrow>
          (case f v (cs_cfg st) of Inl e \<Rightarrow> Inl e | Inr c \<Rightarrow> Inr (st\<lparr>cs_cfg := c\<rparr>, rest')))"

definition tlsStep ::
  "string \<Rightarrow> (string \<Rightarrow> VHostTLS \<Rightarrow> VHostTLS) \<Rightarrow> string list \<Rightarrow> cliState \<Rightarrow> cliError + cliState \<times> string list" where
  "tlsStep arg f rest st =
     (case rest of
        [] \<Rightarrow> Inl (NeedsValue arg)
      | v # rest' \<Rightarrow> Inr (st\<lparr>cs_tls := onTLS (f v) (cs_tls st)\<rparr>, rest'))"

definition routeValueStep ::
  "string \<Rightarrow> routeSetter \<Rightarrow> string list \<Rightarrow> cliState \<Rightarrow> cliError + cliState \<times> string list" where
  "routeValueStep arg f rest st =
     (case cs_route st of
        None \<Rightarrow> Inl (NeedsRoute arg)
      | Some rc \<Rightarrow>
          (case rest of
             [] \<Rightarrow> Inl (NeedsValue arg)
           | v # rest' \<Rightarrow>
               (case f v rc of Inl e \<Rightarrow> Inl e | Inr rc' \<Rightarrow> Inr (st\<lparr>cs_route := Some rc'\<rparr>, rest'))))"

definition routeSwitchStep ::
  "string \<Rightarrow> (RouteConfig \<Rightarrow> RouteConfig) \<Rightarrow> string list \<Rightarrow> cliState \<Rightarrow> cliError + cliState \<times> string list" where
  "routeSwitchStep arg f rest st =
     (case cs_route st of
        None \<Rightarrow> Inl (NeedsRoute arg)
      | Some rc \<Rightarrow> Inr (st\<lparr>cs_route := Some (f rc)\<rparr>, rest))"

definition exitFlags :: "string list" where
  "exitFlags = [''--upgrade'', ''--help'', ''-h'', ''--version'']"

text \<open>One round of the loop: the new state and the arguments that are left.\<close>

definition cliStep :: "string \<Rightarrow> string list \<Rightarrow> cliState \<Rightarrow> cliError + cliState \<times> string list" where
  "cliStep arg rest st =
     (if arg = ''--config'' then Inr (st, drop 1 rest)
      else if arg = ''--vhost'' then vhostStep rest st
      else if arg = ''--route'' then routeStep rest st
      else if arg \<in> set exitFlags then Inl (ExitsWith arg)
      else if arg = ''--no-strict-yaml'' then Inr (st, rest)
      else if arg = ''--validate'' then Inr (st\<lparr>cs_validateOnly := True\<rparr>, rest)
      else (case map_of globalValueFlags arg of
              Some f \<Rightarrow> globalStep arg f rest st
            | None \<Rightarrow>
          (case map_of globalSwitches arg of
              Some f \<Rightarrow> Inr (st\<lparr>cs_cfg := f (cs_cfg st)\<rparr>, rest)
            | None \<Rightarrow>
          (case map_of tlsValueFlags arg of
              Some f \<Rightarrow> tlsStep arg f rest st
            | None \<Rightarrow>
          (case map_of routeValueFlags arg of
              Some f \<Rightarrow> routeValueStep arg f rest st
            | None \<Rightarrow>
          (case map_of routeSwitches arg of
              Some f \<Rightarrow> routeSwitchStep arg f rest st
            | None \<Rightarrow> Inl (UnknownArgument arg)))))))"

text \<open>Every round takes its arguments from the front.\<close>

lemma cliStep_rest:
  assumes "cliStep arg rest st = Inr (st', rest')"
  shows "rest' = rest \<or> rest' = drop 1 rest"
  using assms
  by (auto simp: cliStep_def vhostStep_def routeStep_def globalStep_def tlsStep_def routeValueStep_def
      routeSwitchStep_def split: if_splits option.splits list.splits sum.splits)

function cliLoop :: "string list \<Rightarrow> cliState \<Rightarrow> cliError + cliState" where
  "cliLoop [] st = Inr st"
| "cliLoop (arg # rest) st =
     (case cliStep arg rest st of
        Inl e \<Rightarrow> Inl e
      | Inr (st', rest') \<Rightarrow> cliLoop rest' st')"
  by pat_completeness auto

termination
proof (relation "measure (\<lambda>(args, st). length args)")
  fix arg rest st r st' rest'
  assume "cliStep arg rest st = Inr r" and "(st', rest') = r"
  then have "rest' = rest \<or> rest' = drop 1 rest" using cliStep_rest by blast
  then show "((rest', st'), arg # rest, st) \<in> measure (\<lambda>(args, st). length args)" by auto
qed simp

definition cliStart :: "Config \<Rightarrow> cliState" where
  "cliStart cfg = \<lparr>cs_cfg = cfg, cs_domains = None, cs_routes = None, cs_tls = None, cs_path = [],
     cs_route = None, cs_validateOnly = False\<rparr>"

text \<open>The flag of the result is the variable \<^verbatim>\<open>configValidateOnly\<close>.\<close>

definition applyCLI :: "Config \<Rightarrow> string list \<Rightarrow> cliError + Config \<times> bool" where
  "applyCLI cfg rawArgs =
     (case cliLoop (expandArgs rawArgs) (cliStart cfg) of
        Inl e \<Rightarrow> Inl e
      | Inr st \<Rightarrow>
          (case flushVHost st of
             Inl e \<Rightarrow> Inl e
           | Inr st' \<Rightarrow> Inr (cs_cfg st', cs_validateOnly st')))"

section \<open>The configuration of a run\<close>

record cliEnv =
  en_exe :: "string option"
  en_home :: "string option"
  en_exists :: "string \<Rightarrow> bool"
  en_readFile :: "string \<Rightarrow> string option"
  en_getenv :: "string \<Rightarrow> string option"
  en_decode :: "bool \<Rightarrow> string \<Rightarrow> fileConfig option"

text \<open>\<^verbatim>\<open>filepath.Dir\<close> on Unix.\<close>

definition filepath_Dir :: "string \<Rightarrow> string" where
  "filepath_Dir p = filepath_Clean (rev (dropWhile (\<lambda>c. c \<noteq> CHR ''/'') (rev p)))"

definition defaultPaths :: "cliEnv \<Rightarrow> string list" where
  "defaultPaths en =
     (case en_exe en of None \<Rightarrow> [] | Some exe \<Rightarrow> [filepath_Join [filepath_Dir exe, ''config.yml'']]) @
     [''config.yml''] @
     (case en_home en of None \<Rightarrow> [] | Some h \<Rightarrow> [filepath_Join [h, ''.config'', ''routemux'', ''config.yml'']])"

definition findDefaultConfig :: "cliEnv \<Rightarrow> string" where
  "findDefaultConfig en = (case find (en_exists en) (defaultPaths en) of None \<Rightarrow> [] | Some p \<Rightarrow> p)"

text \<open>The first pass: the path given with \<^verbatim>\<open>--config\<close>, whether the default files are left alone, and
  whether the decoding is strict.\<close>

fun scanArgs :: "string list \<Rightarrow> string option \<times> bool \<times> bool \<Rightarrow> string option \<times> bool \<times> bool" where
  "scanArgs [] acc = acc"
| "scanArgs (a # as) acc =
     (case acc of (path, skip, strict) \<Rightarrow>
        if a \<in> set exitFlags then scanArgs as (path, True, strict)
        else if a = ''--config'' then
          (case as of [] \<Rightarrow> acc | v # as' \<Rightarrow> scanArgs as' (Some v, skip, strict))
        else if a = ''--no-strict-yaml'' then scanArgs as (path, skip, False)
        else scanArgs as acc)"

datatype parseError = FileFailed string loadError | CliFailed cliError

definition configPathOf :: "cliEnv \<Rightarrow> string list \<Rightarrow> string" where
  "configPathOf en args =
     (case scanArgs args (None, False, True) of
        (Some p, skip, strict) \<Rightarrow> p
      | (None, skip, strict) \<Rightarrow> if skip then [] else findDefaultConfig en)"

definition baseConfig :: "cliEnv \<Rightarrow> string list \<Rightarrow> parseError + Config" where
  "baseConfig en args =
     (let p = configPathOf en args; strict = snd (snd (scanArgs args (None, False, True))) in
      if p = [] then Inr (zeroConfig\<lparr>Port := 8080\<rparr>)
      else (case loadConfigFile (en_readFile en) (en_getenv en) (en_decode en strict) p of
              Inl e \<Rightarrow> Inl (FileFailed p e)
            | Inr cfg \<Rightarrow> Inr cfg))"

definition parseAll :: "cliEnv \<Rightarrow> string list \<Rightarrow> parseError + Config \<times> bool" where
  "parseAll en args =
     (case baseConfig en args of
        Inl e \<Rightarrow> Inl e
      | Inr base \<Rightarrow>
          (case applyCLI (base\<lparr>ConfigPath := configPathOf en args, OriginalArgs := args\<rparr>) args of
             Inl e \<Rightarrow> Inl (CliFailed e)
           | Inr r \<Rightarrow> Inr r))"

end
