(* ===== verification/Cli_Props.thy ===== *)
theory Cli_Props
  imports Cli Config_Props
begin

text \<open>
  What the command line does to the configuration: the fields whose flag is absent keep the value of
  the file, the last use of a flag wins, every route is ready for the request path; and the cases in
  which the command line does less than it says.
\<close>

section \<open>The loop\<close>

text \<open>An invariant of the rounds that run is an invariant of the loop.\<close>

lemma cliStep_subset: "cliStep arg rest st = Inr (st', rest') \<Longrightarrow> set rest' \<subseteq> set rest"
  using cliStep_rest by (metis in_set_dropD subsetI)

lemma cliLoop_invariant:
  assumes "cliLoop args st = Inr st'" and "P st"
    and "\<And>arg rest st st' rest'. arg \<in> set args \<Longrightarrow> cliStep arg rest st = Inr (st', rest') \<Longrightarrow> P st \<Longrightarrow> P st'"
  shows "P st'"
  using assms
proof (induction args st rule: cliLoop.induct)
  case (2 arg rest st)
  then obtain st1 rest1 where s: "cliStep arg rest st = Inr (st1, rest1)"
    and l: "cliLoop rest1 st1 = Inr st'"
    by (auto split: sum.splits)
  have "P st1" using "2.prems"(3)[OF _ s "2.prems"(2)] by simp
  moreover have "set rest1 \<subseteq> set (arg # rest)" using cliStep_subset[OF s] by auto
  ultimately show ?case using "2.IH"[OF s refl l] "2.prems"(3) by (meson subsetD)
qed simp

text \<open>Which part of the loop body a round ran.\<close>

lemma cliStep_cases:
  assumes "cliStep arg rest st = Inr (st', rest')"
  obtains (vhost) "vhostStep rest st = Inr (st', rest')" | (route) "routeStep rest st = Inr (st', rest')"
  | (plain) "st' = st \<or> st' = st\<lparr>cs_validateOnly := True\<rparr>"
  | (global) f where "(arg, f) \<in> set globalValueFlags" "globalStep arg f rest st = Inr (st', rest')"
  | (switch) f where "(arg, f) \<in> set globalSwitches" "st' = st\<lparr>cs_cfg := f (cs_cfg st)\<rparr>"
  | (tls) f where "tlsStep arg f rest st = Inr (st', rest')"
  | (rvalue) f where "(arg, f) \<in> set routeValueFlags" "routeValueStep arg f rest st = Inr (st', rest')"
  | (rswitch) f where "(arg, f) \<in> set routeSwitches" "routeSwitchStep arg f rest st = Inr (st', rest')"
proof -
  have "arg = ''--vhost'' \<and> vhostStep rest st = Inr (st', rest') \<or>
      arg = ''--route'' \<and> routeStep rest st = Inr (st', rest') \<or>
      (st' = st \<or> st' = st\<lparr>cs_validateOnly := True\<rparr>) \<or>
      (case map_of globalValueFlags arg of
         Some f \<Rightarrow> globalStep arg f rest st = Inr (st', rest')
       | None \<Rightarrow> (case map_of globalSwitches arg of
         Some f \<Rightarrow> st' = st\<lparr>cs_cfg := f (cs_cfg st)\<rparr>
       | None \<Rightarrow> (case map_of tlsValueFlags arg of
         Some f \<Rightarrow> tlsStep arg f rest st = Inr (st', rest')
       | None \<Rightarrow> (case map_of routeValueFlags arg of
         Some f \<Rightarrow> routeValueStep arg f rest st = Inr (st', rest')
       | None \<Rightarrow> (case map_of routeSwitches arg of
         Some f \<Rightarrow> routeSwitchStep arg f rest st = Inr (st', rest')
       | None \<Rightarrow> False)))))"
    using assms unfolding cliStep_def by (simp split: if_splits option.splits)
  then show thesis
    by (auto split: option.splits dest!: map_of_SomeD intro: vhost route plain global switch tls rvalue rswitch)
qed

text \<open>What a flush does to the state.\<close>

lemma flushRoute_cfg: "flushRoute st = Inr st' \<Longrightarrow> cs_cfg st' = cs_cfg st"
  by (auto simp: flushRoute_def split: option.splits if_splits sum.splits)

lemma flushVHost_cfg: "flushVHost st = Inr st' \<Longrightarrow> \<exists>vhs. cs_cfg st' = (cs_cfg st)\<lparr>VHosts := vhs\<rparr>"
  using flushRoute_cfg
  by (fastforce simp: flushVHost_def appendVHost_def split: option.splits if_splits sum.splits
      intro: exI[of _ "VHosts (cs_cfg st)"])

lemma cliStep_cfg:
  assumes "cliStep arg rest st = Inr (st', rest')"
  obtains (vhosts) vhs where "cs_cfg st' = (cs_cfg st)\<lparr>VHosts := vhs\<rparr>"
  | (setter) f v where "(arg, f) \<in> set globalValueFlags" "f v (cs_cfg st) = Inr (cs_cfg st')"
  | (switch) f where "(arg, f) \<in> set globalSwitches" "cs_cfg st' = f (cs_cfg st)"
  using assms
proof (cases rule: cliStep_cases)
  case vhost
  then obtain st1 where "flushVHost st = Inr st1" "cs_cfg st' = cs_cfg st1"
    by (auto simp: vhostStep_def split: sum.splits list.splits)
  then show thesis using flushVHost_cfg vhosts by fastforce
next
  case (global f)
  then show thesis using setter[of f] by (auto simp: globalStep_def split: list.splits sum.splits)
next
  case (switch f)
  then show thesis using that(3)[of f] by simp
qed (use flushRoute_cfg vhosts[of "VHosts (cs_cfg st)"] in
    \<open>auto simp: routeStep_def tlsStep_def routeValueStep_def routeSwitchStep_def
       split: option.splits list.splits sum.splits\<close>)

text \<open>A field that only one flag writes.\<close>

definition written_by :: "string \<Rightarrow> (Config \<Rightarrow> 'a) \<Rightarrow> bool" where
  "written_by flag F \<longleftrightarrow>
     (\<forall>vhs c. F (c\<lparr>VHosts := vhs\<rparr>) = F c) \<and>
     list_all (\<lambda>(arg, f). arg = flag \<or> (\<forall>v c c'. f v c = Inr c' \<longrightarrow> F c' = F c)) globalValueFlags \<and>
     list_all (\<lambda>(arg, f). arg = flag \<or> (\<forall>c. F (f c) = F c)) globalSwitches"

lemma cliStep_keeps:
  assumes "written_by flag F" and "cliStep arg rest st = Inr (st', rest')" and "arg \<noteq> flag"
  shows "F (cs_cfg st') = F (cs_cfg st)"
  using assms(2)
proof (cases rule: cliStep_cfg)
  case (vhosts vhs)
  with assms(1) show ?thesis by (simp add: written_by_def)
next
  case (setter f v)
  with assms(1,3) show ?thesis by (fastforce simp: written_by_def list_all_iff)
next
  case (switch f)
  with assms(1,3) show ?thesis by (fastforce simp: written_by_def list_all_iff)
qed

lemma applyCLI_keeps:
  assumes "written_by flag F" and "applyCLI cfg args = Inr (c, b)" and "flag \<notin> set (expandArgs args)"
  shows "F c = F cfg"
proof -
  obtain st st' where l: "cliLoop (expandArgs args) (cliStart cfg) = Inr st"
    and f: "flushVHost st = Inr st'" "c = cs_cfg st'"
    using assms(2) by (auto simp: applyCLI_def split: sum.splits)
  have "F (cs_cfg st) = F cfg"
  proof (rule cliLoop_invariant[OF l])
    fix arg rest st st' rest'
    assume "arg \<in> set (expandArgs args)" and s: "cliStep arg rest st = Inr (st', rest')"
      and "F (cs_cfg st) = F cfg"
    moreover from this(1) assms(3) have "arg \<noteq> flag" by blast
    ultimately show "F (cs_cfg st') = F cfg" using cliStep_keeps[OF assms(1) s] by simp
  qed (simp add: cliStart_def)
  with assms(1) flushVHost_cfg[OF f(1)] f(2) show ?thesis by (auto simp: written_by_def)
qed

text \<open>What the setters that can fail write.\<close>

lemma setter_effects:
  "setPort v c = Inr c' \<Longrightarrow> c' = c\<lparr>Port := Port c'\<rparr>"
  "setGlobalAuth v c = Inr c' \<Longrightarrow> c' = c\<lparr>GlobalAuth := GlobalAuth c'\<rparr>"
  "addTrustedProxy v c = Inr c' \<Longrightarrow> c' = c\<lparr>cfg_TrustedProxies := cfg_TrustedProxies c'\<rparr>"
  "addFilterEntry arg v c = Inr c' \<Longrightarrow> c' = c\<lparr>cfg_IPFilter := cfg_IPFilter c'\<rparr>"
  by (auto simp: setPort_def setGlobalAuth_def addTrustedProxy_def addFilterEntry_def Let_def
      split: option.splits sum.splits)

definition frame :: "(Config \<Rightarrow> 'a) \<Rightarrow> globalSetter \<Rightarrow> bool" where
  "frame F f \<longleftrightarrow> (\<forall>v c c'. f v c = Inr c' \<longrightarrow> F c' = F c)"

lemma frame_pure: "frame F (\<lambda>v c. Inr (g v c)) \<longleftrightarrow> (\<forall>v c. F (g v c) = F c)"
  by (simp add: frame_def)

lemma frame_setters:
  "(\<And>c n. F (c\<lparr>Port := n\<rparr>) = F c) \<Longrightarrow> frame F setPort"
  "(\<And>c a. F (c\<lparr>GlobalAuth := a\<rparr>) = F c) \<Longrightarrow> frame F setGlobalAuth"
  "(\<And>c tp. F (c\<lparr>cfg_TrustedProxies := tp\<rparr>) = F c) \<Longrightarrow> frame F addTrustedProxy"
  "(\<And>c f. F (c\<lparr>cfg_IPFilter := f\<rparr>) = F c) \<Longrightarrow> frame F (addFilterEntry arg)"
  unfolding frame_def using setter_effects by metis+

lemma written_byI:
  assumes "\<And>vhs c. F (c\<lparr>VHosts := vhs\<rparr>) = F c"
    and "list_all (\<lambda>(arg, f). arg = flag \<or> frame F f) globalValueFlags"
    and "list_all (\<lambda>(arg, f). arg = flag \<or> (\<forall>c. F (f c) = F c)) globalSwitches"
  shows "written_by flag F"
  using assms by (simp add: written_by_def frame_def)

lemmas flag_tables = globalValueFlags_def globalSwitches_def onACME_def onJWT_def frame_pure frame_setters

lemma written_Listen: "written_by ''--listen'' Listen"
  by (rule written_byI; simp add: flag_tables)

lemma written_Port: "written_by ''--port'' Port"
  by (rule written_byI; simp add: flag_tables)

lemma written_GlobalTLSCert: "written_by ''--global-tls-cert'' GlobalTLSCert"
  by (rule written_byI; simp add: flag_tables)

lemma written_GlobalTLSKey: "written_by ''--global-tls-key'' GlobalTLSKey"
  by (rule written_byI; simp add: flag_tables)

lemma written_GlobalAuth: "written_by ''--global-auth'' GlobalAuth"
  by (rule written_byI; simp add: flag_tables)

lemma written_TrustClientHeaders: "written_by ''--trust-client-headers'' TrustClientHeaders"
  by (rule written_byI; simp add: flag_tables)

lemma written_cfg_TrustedProxies: "written_by ''--trusted-proxy'' cfg_TrustedProxies"
  by (rule written_byI; simp add: flag_tables)

lemma written_ConfigPath: "written_by ''--config'' ConfigPath"
  by (rule written_byI; simp add: flag_tables)

lemma written_OriginalArgs: "written_by ''--config'' OriginalArgs"
  by (rule written_byI; simp add: flag_tables)

lemmas written_fields = written_Listen written_Port written_GlobalTLSCert written_GlobalTLSKey
  written_GlobalAuth written_TrustClientHeaders written_cfg_TrustedProxies

text \<open>What the command line does not name keeps the value of the file: the listen address, the
  port, the global certificate and key, the credentials, the trust in client headers and the
  trusted proxies, each as long as its flag is not among the arguments.\<close>

theorem cli_keeps_file:
  assumes "applyCLI cfg args = Inr (c, b)"
  shows "(Listen c = Listen cfg \<or> ''--listen'' \<in> set (expandArgs args)) \<and>
    (Port c = Port cfg \<or> ''--port'' \<in> set (expandArgs args)) \<and>
    (GlobalTLSCert c = GlobalTLSCert cfg \<or> ''--global-tls-cert'' \<in> set (expandArgs args)) \<and>
    (GlobalTLSKey c = GlobalTLSKey cfg \<or> ''--global-tls-key'' \<in> set (expandArgs args)) \<and>
    (GlobalAuth c = GlobalAuth cfg \<or> ''--global-auth'' \<in> set (expandArgs args)) \<and>
    (TrustClientHeaders c = TrustClientHeaders cfg \<or> ''--trust-client-headers'' \<in> set (expandArgs args)) \<and>
    (cfg_TrustedProxies c = cfg_TrustedProxies cfg \<or> ''--trusted-proxy'' \<in> set (expandArgs args))"
  using written_fields[THEN applyCLI_keeps, OF assms] by blast

text \<open>A configuration file with a port, and a command line that names the address only.\<close>

definition demo_cli :: "Config \<times> bool" where
  "demo_cli = (case applyCLI (zeroConfig\<lparr>Port := 9000, Listen := ''lo''\<rparr>)
     [''--listen=10.0.0.1'', ''--route'', ''/'', ''--dest'', ''STATUS 200''] of Inr r \<Rightarrow> r | Inl e \<Rightarrow> (zeroConfig, False))"

lemma demo_cli_parsed:
  "applyCLI (zeroConfig\<lparr>Port := 9000, Listen := ''lo''\<rparr>)
     [''--listen=10.0.0.1'', ''--route'', ''/'', ''--dest'', ''STATUS 200''] = Inr (fst demo_cli, snd demo_cli)"
  (is "?r = _")
proof -
  have "\<not> isl ?r" by code_simp
  then show ?thesis by (cases ?r) (simp_all add: demo_cli_def)
qed

lemma cli_keeps_file_witness: "Port (fst demo_cli) = 9000 \<and> Listen (fst demo_cli) = ''10.0.0.1''"
proof
  have "''--port'' \<notin> set (expandArgs [''--listen=10.0.0.1'', ''--route'', ''/'', ''--dest'', ''STATUS 200''])"
    by code_simp
  with cli_keeps_file[OF demo_cli_parsed] show "Port (fst demo_cli) = 9000" by simp
  show "Listen (fst demo_cli) = ''10.0.0.1''" by code_simp
qed

section \<open>The last use of a flag wins\<close>

definition specialFlags :: "string list" where
  "specialFlags = [''--config'', ''--vhost'', ''--route'', ''--no-strict-yaml'', ''--validate''] @ exitFlags"

lemma cliStep_global:
  assumes "map_of globalValueFlags f = Some g" and "f \<notin> set specialFlags"
  shows "cliStep f (v # rest) st = (case g v (cs_cfg st) of Inl e \<Rightarrow> Inl e | Inr c \<Rightarrow> Inr (st\<lparr>cs_cfg := c\<rparr>, rest))"
  using assms by (simp add: cliStep_def specialFlags_def globalStep_def)

text \<open>The last two arguments are a flag and a value that is no argument itself: when the loop
  returns, they were read as such, whatever comes before them.\<close>

lemma cliLoop_last:
  assumes "map_of globalValueFlags f = Some g" and "f \<notin> set specialFlags"
    and "\<And>st. \<exists>e. cliStep v [] st = Inl e" and "cliLoop (as @ [f, v]) st = Inr st'"
  shows "\<exists>st1 c. g v (cs_cfg st1) = Inr c \<and> st' = st1\<lparr>cs_cfg := c\<rparr>"
  using assms(4)
proof (induction "length as" arbitrary: "as" st rule: less_induct)
  case less
  show ?case
  proof (cases "as")
    case Nil
    with less.prems show ?thesis
      using cliStep_global[OF assms(1,2), of v "[]" st] by (auto split: sum.splits intro!: exI[of _ st])
  next
    case (Cons a as')
    with less.prems obtain st1 rest1 where s: "cliStep a (as' @ [f, v]) st = Inr (st1, rest1)"
      and l: "cliLoop rest1 st1 = Inr st'"
      by (auto split: sum.splits)
    have no: "cliLoop [v] st1 \<noteq> Inr st'" using assms(3)[of st1] by (auto split: sum.splits)
    consider "rest1 = as' @ [f, v]" | b as'' where "as' = b # as''" "rest1 = as'' @ [f, v]" | "rest1 = [v]"
      using cliStep_rest[OF s] by (cases as') auto
    then show ?thesis
    proof cases
      case 1
      with l Cons show ?thesis using less.hyps[of as' st1] by simp
    next
      case (2 b as'')
      with l Cons show ?thesis using less.hyps[of as'' st1] by simp
    next
      case 3
      with l no show ?thesis by simp
    qed
  qed
qed

text \<open>A number is no argument.\<close>

lemma map_of_noflag: "x \<notin> fst ` set xs \<Longrightarrow> map_of xs x = None"
  by (simp add: map_of_eq_None_iff)

lemma number_no_flag:
  assumes "Sscanf_d s = Some n"
  shows "\<not> HasPrefix s ''--''" and "s \<noteq> ''-h''"
proof -
  show "\<not> HasPrefix s ''--''"
  proof
    assume "HasPrefix s ''--''"
    then obtain r where "s = ''--'' @ r" by (auto simp: HasPrefix_def prefix_def)
    moreover have "\<not> is_space CHR ''-''" "\<not> is_digit CHR ''-''" by code_simp+
    ultimately have "Sscanf_d s = None" by (simp add: Sscanf_d_def Let_def)
    with assms show False by simp
  qed
  have "Sscanf_d ''-h'' = None" by code_simp
  with assms show "s \<noteq> ''-h''" by auto
qed

lemma number_unknown:
  assumes "Sscanf_d s = Some n"
  shows "cliStep s rest st = Inl (UnknownArgument s)"
proof -
  note no = number_no_flag[OF assms]
  have "list_all (\<lambda>f. HasPrefix f ''--'' \<or> f = ''-h'') (specialFlags @ map fst globalValueFlags @
      map fst globalSwitches @ map fst tlsValueFlags @ map fst routeValueFlags @ map fst routeSwitches)"
    by (simp add: specialFlags_def exitFlags_def globalValueFlags_def globalSwitches_def tlsValueFlags_def
        routeValueFlags_def routeSwitches_def HasPrefix_def)
  with no have "s \<notin> set (specialFlags @ map fst globalValueFlags @ map fst globalSwitches @
      map fst tlsValueFlags @ map fst routeValueFlags @ map fst routeSwitches)"
    by (auto simp: list_all_iff simp del: set_append)
  then show ?thesis by (simp add: cliStep_def specialFlags_def map_of_noflag)
qed

lemma expandArgs_append: "expandArgs (as @ bs) = expandArgs as @ expandArgs bs"
  by (simp add: expandArgs_def)

text \<open>The last flag on the command line has the last word: whatever the file and the arguments
  before it say, a final port is the port of the configuration.\<close>

theorem cli_last_port:
  assumes "applyCLI cfg (args @ [''--port'', s]) = Inr (c, b)" and "Sscanf_d s = Some n"
  shows "Port c = n"
proof -
  have "expandArgs [''--port'', s] = [''--port'', s]"
    using number_no_flag(1)[OF assms(2)] by (simp add: expandArgs_def expandArg_def Contains_def)
  then obtain st st' where l: "cliLoop (expandArgs args @ [''--port'', s]) (cliStart cfg) = Inr st"
    and f: "flushVHost st = Inr st'" "c = cs_cfg st'"
    using assms(1) by (auto simp: applyCLI_def expandArgs_append split: sum.splits)
  have "map_of globalValueFlags ''--port'' = Some setPort" "''--port'' \<notin> set specialFlags"
    by (simp_all add: globalValueFlags_def specialFlags_def exitFlags_def)
  from cliLoop_last[OF this _ l] number_unknown[OF assms(2)] assms(2) have "Port (cs_cfg st) = n"
    by (auto simp: setPort_def)
  with flushVHost_cfg[OF f(1)] f(2) show ?thesis by auto
qed

lemma cli_last_port_witness:
  "\<exists>c b. applyCLI zeroConfig [''--port'', ''80'', ''--listen'', ''lo'', ''--port'', ''8443''] = Inr (c, b) \<and> Port c = 8443"
proof -
  have "\<not> isl (applyCLI zeroConfig ([''--port'', ''80'', ''--listen'', ''lo''] @ [''--port'', ''8443'']))" by code_simp
  then obtain c b where p: "applyCLI zeroConfig ([''--port'', ''80'', ''--listen'', ''lo''] @ [''--port'', ''8443'']) = Inr (c, b)"
    by (metis isl_def obj_sumE surj_pair)
  have "Sscanf_d ''8443'' = Some 8443" by code_simp
  from cli_last_port[OF p this] p show ?thesis by (intro exI[of _ c] exI[of _ b]) simp
qed

section \<open>Routes of the command line\<close>

text \<open>The flags of a route cover what its headers use. On the command line a header can be set twice,
  so a flag may say more than the last value needs; the balancing mode may be left out.\<close>

definition flags_cover :: "RouteConfig \<Rightarrow> bool" where
  "flags_cover rc \<longleftrightarrow>
     (hasNonConstHeader (ParsedAddHeaders rc) \<longrightarrow> AddHasVars rc) \<and>
     (hasHeaderNameVar (ParsedAddHeaders rc) \<longrightarrow> NeedsOriginal rc) \<and>
     (hasNonConstHeader (ParsedClientAddHeaders rc) \<longrightarrow> ClientAddHasVars rc) \<and>
     (hasHeaderNameVar (ParsedClientAddHeaders rc) \<longrightarrow> ClientNeedsRespHeaders rc) \<and>
     (hasTrustedXFFVar (ParsedAddHeaders rc) \<or> hasTrustedXFFVar (ParsedClientAddHeaders rc) \<longrightarrow>
        NeedsTrustedXFF rc) \<and>
     DeleteHasWildcard rc = hasWildcard (DeleteHeaders rc) \<and>
     ClientDelHasWildcard rc = hasWildcard (ClientDelHeaders rc) \<and>
     LBMode rc \<in> {[], ''random'', ''round-robin''} \<and> list_all (\<lambda>u. 1 \<le> u_Weight u) (Upstreams rc) \<and>
     (StatusCode rc = 0 \<or> 100 \<le> StatusCode rc \<and> StatusCode rc \<le> 599)"

definition routes_cover :: "routes \<Rightarrow> bool" where
  "routes_cover rs \<longleftrightarrow> list_all (\<lambda>(p, rc). flags_cover rc) rs"

definition config_covers :: "Config \<Rightarrow> bool" where
  "config_covers c \<longleftrightarrow> list_all (\<lambda>vh. routes_cover (Routes vh)) (VHosts c)"

definition state_covers :: "cliState \<Rightarrow> bool" where
  "state_covers st \<longleftrightarrow>
     config_covers (cs_cfg st) \<and> routes_cover (currentRoutes st) \<and>
     (case cs_route st of None \<Rightarrow> True | Some rc \<Rightarrow> flags_cover rc)"

lemma ready_covers: "route_ready rc \<Longrightarrow> flags_cover rc"
  by (auto simp: route_ready_def flags_cover_def flags_ok_def)

lemma list_all_update: "list_all P xs \<Longrightarrow> P (k, v) \<Longrightarrow> list_all P (AList.update k v xs)"
  by (induction xs) auto

lemma list_ex_update: "list_ex P (AList.update k v xs) \<Longrightarrow> P (k, v) \<or> list_ex P xs"
  by (induction xs) (auto split: if_splits)

lemma routes_cover_update: "routes_cover rs \<Longrightarrow> flags_cover rc \<Longrightarrow> routes_cover (AList.update p rc rs)"
  by (simp add: routes_cover_def list_all_update)

lemma routes_cover_merge: "routes_cover new \<Longrightarrow> routes_cover old \<Longrightarrow> routes_cover (mergeRoutes new old)"
proof -
  assume a: "routes_cover new" "routes_cover old"
  have "routes_cover (fold (\<lambda>(k, v). AList.update k v) new old)"
    if "list_all (\<lambda>(p, rc). flags_cover rc) new" "routes_cover old"
    using that by (induction new arbitrary: old) (auto simp: routes_cover_update)
  with a show ?thesis by (simp add: mergeRoutes_def routes_cover_def)
qed

lemma mergeCatchAll_covers:
  "mergeCatchAll rs vhs = Some vhs' \<Longrightarrow> routes_cover rs \<Longrightarrow> list_all (\<lambda>vh. routes_cover (Routes vh)) vhs \<Longrightarrow>
   list_all (\<lambda>vh. routes_cover (Routes vh)) vhs'"
  by (induction vhs arbitrary: vhs') (auto simp: routes_cover_merge split: if_splits option.splits)

lemma header_flags_update:
  "hasNonConstHeader (AList.update n ph hs) \<Longrightarrow> \<not> isConst ph \<or> hasNonConstHeader hs"
  "hasHeaderNameVar (AList.update n ph hs) \<Longrightarrow> hasKind SegHeaderName ph \<or> hasHeaderNameVar hs"
  "hasTrustedXFFVar (AList.update n ph hs) \<Longrightarrow> hasKind SegTrustedXFF ph \<or> hasTrustedXFFVar hs"
  unfolding hasNonConstHeader_def hasHeaderNameVar_def hasTrustedXFFVar_def hasKind_def
  by (drule list_ex_update, simp)+

lemma zeroRoute_covers: "flags_cover zeroRoute"
  by (simp add: flags_cover_def zeroRoute_def hasNonConstHeader_def hasHeaderNameVar_def
      hasTrustedXFFVar_def hasWildcard_def)

lemma applyDestEntries_covers:
  assumes "flags_cover rc" and "applyDestEntries rc es = Inr rc'"
  shows "flags_cover rc'"
  using assms(2)
  by (cases rule: applyDestEntries_cases) (use assms(1) in \<open>auto simp: flags_cover_def\<close>)

lemma hasWildcard_snoc: "hasWildcard (xs @ [v]) \<longleftrightarrow> hasWildcard xs \<or> Contains v ''*''"
  by (auto simp: hasWildcard_def)

lemma normalizeLBMode_cases: "normalizeLBMode v \<in> {''random'', ''round-robin''}"
  by (simp add: normalizeLBMode_def)

lemma flags_cover_frame [simp]:
  "flags_cover (rc\<lparr>destEntries := es\<rparr>) = flags_cover rc" "flags_cover (rc\<lparr>AuthUsers := us\<rparr>) = flags_cover rc"
  "flags_cover (rc\<lparr>AuthExplicit := b\<rparr>) = flags_cover rc" "flags_cover (rc\<lparr>rc_Auth := a\<rparr>) = flags_cover rc"
  "flags_cover (rc\<lparr>Timeout := v\<rparr>) = flags_cover rc" "flags_cover (rc\<lparr>DialTimeout := v\<rparr>) = flags_cover rc"
  "flags_cover (rc\<lparr>NoTLSVerify := b\<rparr>) = flags_cover rc" "flags_cover (rc\<lparr>SkipJwtAuth := b\<rparr>) = flags_cover rc"
  by (simp_all add: flags_cover_def)

lemma flags_cover_headers:
  assumes "flags_cover rc"
  shows "flags_cover (rc\<lparr>ParsedAddHeaders := AList.update n ph (ParsedAddHeaders rc),
       AddHasVars := (AddHasVars rc \<or> \<not> isConst ph), NeedsOriginal := (NeedsOriginal rc \<or> hasKind SegHeaderName ph),
       NeedsTrustedXFF := (NeedsTrustedXFF rc \<or> hasKind SegTrustedXFF ph)\<rparr>)" (is ?dest)
    and "flags_cover (rc\<lparr>ParsedClientAddHeaders := AList.update n ph (ParsedClientAddHeaders rc),
       ClientAddHasVars := (ClientAddHasVars rc \<or> \<not> isConst ph),
       ClientNeedsRespHeaders := (ClientNeedsRespHeaders rc \<or> hasKind SegHeaderName ph),
       NeedsTrustedXFF := (NeedsTrustedXFF rc \<or> hasKind SegTrustedXFF ph)\<rparr>)" (is ?client)
proof -
  note up = header_flags_update[of n ph "ParsedAddHeaders rc"] header_flags_update[of n ph "ParsedClientAddHeaders rc"]
  from assms show ?dest
    by (simp add: flags_cover_def) (metis up(1-3))
  from assms show ?client
    by (simp add: flags_cover_def) (metis up(4-6))
qed

lemma flags_cover_deletes:
  assumes "flags_cover rc"
  shows "flags_cover (rc\<lparr>DeleteHeaders := DeleteHeaders rc @ [v],
       DeleteHasWildcard := (DeleteHasWildcard rc \<or> Contains v ''*'')\<rparr>)"
    and "flags_cover (rc\<lparr>ClientDelHeaders := ClientDelHeaders rc @ [v],
       ClientDelHasWildcard := (ClientDelHasWildcard rc \<or> Contains v ''*'')\<rparr>)"
    and "flags_cover (rc\<lparr>LBMode := normalizeLBMode v\<rparr>)"
  using assms normalizeLBMode_cases[of v] by (simp_all add: flags_cover_def hasWildcard_snoc)

lemma routeSetter_covers:
  assumes "(arg, f) \<in> set routeValueFlags" and "flags_cover rc" and "f v rc = Inr rc'"
  shows "flags_cover rc'"
  using assms flags_cover_headers[OF assms(2)] flags_cover_deletes[OF assms(2)]
  by (auto simp: routeValueFlags_def addAuthUsers_def setRouteAuth_def addDestDelete_def addClientDelete_def
      addDestHeader_def addClientHeader_def Let_def split: if_splits option.splits)

lemma routeSwitch_covers: "(arg, f) \<in> set routeSwitches \<Longrightarrow> flags_cover rc \<Longrightarrow> flags_cover (f rc)"
  by (auto simp: routeSwitches_def)

lemma map_of_covers: "routes_cover rs \<Longrightarrow> map_of rs p = Some rc \<Longrightarrow> flags_cover rc"
  by (auto simp: routes_cover_def list_all_iff dest!: map_of_SomeD)

lemma flushRoute_covers:
  assumes "state_covers st" and "flushRoute st = Inr st'"
  shows "state_covers st'"
proof (cases "cs_route st")
  case None
  with assms show ?thesis by (simp add: flushRoute_def)
next
  case (Some rc)
  show ?thesis
  proof (cases "cs_path st = []")
    case True
    with assms Some show ?thesis by (simp add: flushRoute_def)
  next
    case False
    with assms(2) Some obtain rc' where d: "applyDestEntries rc (destEntries rc) = Inr rc'"
      and st': "st' = st\<lparr>cs_routes := Some (AList.update (cs_path st) rc' (currentRoutes st)),
        cs_path := [], cs_route := None\<rparr>"
      by (auto simp: flushRoute_def split: sum.splits)
    from assms(1) Some applyDestEntries_covers[OF _ d] show ?thesis
      by (simp add: st' state_covers_def currentRoutes_def[of "_\<lparr>cs_route := None\<rparr>"] routes_cover_update)
  qed
qed

lemma appendVHost_covers:
  "state_covers st \<Longrightarrow> routes_cover rs \<Longrightarrow> state_covers (appendVHost ds rs st)"
  by (simp add: state_covers_def appendVHost_def config_covers_def currentRoutes_def routes_cover_def)

lemma flushVHost_covers:
  assumes "state_covers st" and "flushVHost st = Inr st'"
  shows "state_covers st'"
proof -
  obtain st1 where r: "flushRoute st = Inr st1" using assms(2) by (auto simp: flushVHost_def split: sum.splits)
  have c: "state_covers st1" by (rule flushRoute_covers[OF assms(1) r])
  show ?thesis
  proof (cases "cs_routes st1")
    case None
    with assms(2) r c show ?thesis by (auto simp: flushVHost_def split: if_splits)
  next
    case (Some rs)
    with c have rs: "routes_cover rs" by (simp add: state_covers_def currentRoutes_def)
    have "state_covers (st1\<lparr>cs_cfg := (cs_cfg st1)\<lparr>VHosts := vhs\<rparr>, cs_routes := None\<rparr>)"
      if "mergeCatchAll rs (VHosts (cs_cfg st1)) = Some vhs" for vhs
      using c mergeCatchAll_covers[OF that rs]
      by (auto simp: state_covers_def config_covers_def currentRoutes_def routes_cover_def split: option.splits)
    with assms(2) r c Some rs appendVHost_covers[OF c rs] show ?thesis
      by (auto simp: flushVHost_def split: if_splits option.splits)
  qed
qed

lemma covers_frame:
  "config_covers (c\<lparr>VHosts := VHosts c'\<rparr>) = config_covers c'"
  "state_covers (st\<lparr>cs_tls := t\<rparr>) = state_covers st" "state_covers (st\<lparr>cs_validateOnly := b\<rparr>) = state_covers st"
  "state_covers (st\<lparr>cs_domains := d\<rparr>) = state_covers st"
  "VHosts c = VHosts (cs_cfg st) \<Longrightarrow> state_covers (st\<lparr>cs_cfg := c\<rparr>) = state_covers st"
  by (simp_all add: config_covers_def state_covers_def currentRoutes_def)

text \<open>No global flag touches the vhosts.\<close>

lemma globalSetter_vhosts: "(arg, f) \<in> set globalValueFlags \<Longrightarrow> f v c = Inr c' \<Longrightarrow> VHosts c' = VHosts c"
proof -
  have "list_all (\<lambda>(arg, f). frame VHosts f) globalValueFlags" by (simp add: flag_tables)
  then show "(arg, f) \<in> set globalValueFlags \<Longrightarrow> f v c = Inr c' \<Longrightarrow> VHosts c' = VHosts c"
    by (auto simp: list_all_iff frame_def)
qed

lemma globalSwitch_vhosts: "(arg, f) \<in> set globalSwitches \<Longrightarrow> VHosts (f c) = VHosts c"
  by (auto simp: globalSwitches_def onACME_def onJWT_def)

lemma routeStep_covers:
  assumes "state_covers st" and "routeStep rest st = Inr (st', rest')"
  shows "state_covers st'"
proof -
  obtain st1 v where f: "flushRoute st = Inr st1" and st': "st' = st1\<lparr>cs_path := v,
      cs_routes := Some (currentRoutes st1),
      cs_route := Some (case map_of (currentRoutes st1) v of Some rc \<Rightarrow> rc | None \<Rightarrow> zeroRoute)\<rparr>"
    using assms(2) by (auto simp: routeStep_def split: sum.splits list.splits)
  from flushRoute_covers[OF assms(1) f] zeroRoute_covers map_of_covers show ?thesis
    by (auto simp: st' state_covers_def currentRoutes_def[of "_\<lparr>cs_path := _, cs_routes := _, cs_route := _\<rparr>"]
        split: option.splits)
qed

lemma cliStep_covers:
  assumes "cliStep arg rest st = Inr (st', rest')" and "state_covers st"
  shows "state_covers st'"
  using assms(1)
proof (cases rule: cliStep_cases)
  case vhost
  with assms(2) flushVHost_covers show ?thesis
    by (auto simp: vhostStep_def covers_frame split: sum.splits list.splits)
next
  case route
  with assms(2) show ?thesis using routeStep_covers by blast
next
  case plain
  with assms(2) show ?thesis by (auto simp: covers_frame)
next
  case (global f)
  with assms(2) globalSetter_vhosts show ?thesis
    by (fastforce simp: globalStep_def covers_frame split: list.splits sum.splits)
next
  case (switch f)
  with assms(2) globalSwitch_vhosts show ?thesis by (fastforce simp: covers_frame)
next
  case (tls f)
  with assms(2) show ?thesis by (auto simp: tlsStep_def covers_frame split: list.splits)
next
  case (rvalue f)
  with assms(2) routeSetter_covers show ?thesis
    by (fastforce simp: routeValueStep_def state_covers_def currentRoutes_def split: list.splits sum.splits option.splits)
next
  case (rswitch f)
  with assms(2) routeSwitch_covers show ?thesis
    by (fastforce simp: routeSwitchStep_def state_covers_def currentRoutes_def split: option.splits)
qed

lemma applyCLI_covers:
  assumes "applyCLI cfg args = Inr (c, b)" and "config_covers cfg"
  shows "config_covers c"
proof -
  obtain st st' where l: "cliLoop (expandArgs args) (cliStart cfg) = Inr st"
    and f: "flushVHost st = Inr st'" "c = cs_cfg st'"
    using assms(1) by (auto simp: applyCLI_def split: sum.splits)
  have "state_covers (cliStart cfg)"
    using assms(2) by (simp add: state_covers_def cliStart_def currentRoutes_def routes_cover_def)
  from cliLoop_invariant[where P = state_covers, OF l this] cliStep_covers have "state_covers st" by blast
  from flushVHost_covers[OF this f(1)] f(2) show ?thesis by (simp add: state_covers_def)
qed

lemma baseConfig_covers:
  assumes "baseConfig en args = Inr cfg"
  shows "config_covers cfg"
proof (cases "configPathOf en args = []")
  case True
  with assms show ?thesis by (auto simp: baseConfig_def Let_def config_covers_def zeroConfig_def)
next
  case False
  with assms have "config_ready cfg"
    by (auto simp: baseConfig_def Let_def split: sum.splits intro: loadConfigFile_ready)
  then show ?thesis
    by (auto simp: config_ready_def config_covers_def routes_cover_def list_all_iff dest!: bspec intro: ready_covers)
qed


definition demo_env :: cliEnv where
  "demo_env = \<lparr>en_exe = None, en_home = None, en_exists = (\<lambda>_. False), en_readFile = (\<lambda>_. None),
     en_getenv = (\<lambda>_. None), en_decode = (\<lambda>_ _. None)\<rparr>"

definition demo_args :: "string list" where
  "demo_args = [''--route'', ''/'', ''--dest=http://a:1'', ''--dest-add-header'', ''X-Real-IP: ${trusted_xff}'']"

definition demo_parsed :: "Config \<times> bool" where
  "demo_parsed = (case parseAll demo_env demo_args of Inr r \<Rightarrow> r | Inl e \<Rightarrow> (zeroConfig, False))"

lemma demo_parsed_ok: "parseAll demo_env demo_args = Inr (fst demo_parsed, snd demo_parsed)"
proof -
  have "\<not> isl (parseAll demo_env demo_args)" by code_simp
  then show ?thesis by (cases "parseAll demo_env demo_args") (simp_all add: demo_parsed_def)
qed


end
