(* ===== verification/Cli_Cases.thy ===== *)
theory Cli_Cases
  imports Cli_Props Director_Props
begin

text \<open>
  Single cases of the command line: a route without \<^verbatim>\<open>--vhost\<close> joins the catch-all of the file; and
  three places where the command line does less than it says.
\<close>

section \<open>Routes of the catch-all\<close>

lemma mergeCatchAll_at:
  assumes "list_ex (\<lambda>d. d = ''*'') (Domains vh)" and "list_all (\<lambda>v. \<not> list_ex (\<lambda>d. d = ''*'') (Domains v)) pre"
  shows "mergeCatchAll rs (pre @ vh # post) = Some (pre @ vh\<lparr>Routes := mergeRoutes rs (Routes vh)\<rparr> # post)"
  using assms(2) assms(1) by (induction pre) auto

lemma not_expanded: "\<not> HasPrefix a ''--'' \<Longrightarrow> expandArg a = [a]"
  by (simp add: expandArg_def)

lemma no_equals: "CHR ''='' \<notin> set a \<Longrightarrow> expandArg a = [a]"
  by (simp add: expandArg_def Contains_byte_iff)

lemma cliStep_route: "cliStep ''--route'' rest st = routeStep rest st"
  by (simp add: cliStep_def)

lemma cliStep_value:
  "map_of routeValueFlags f = Some g \<Longrightarrow> f \<notin> set specialFlags \<Longrightarrow> map_of globalValueFlags f = None \<Longrightarrow>
   map_of globalSwitches f = None \<Longrightarrow> map_of tlsValueFlags f = None \<Longrightarrow>
   cliStep f rest st = routeValueStep f g rest st"
  by (simp add: cliStep_def specialFlags_def)

lemma cliStep_dest:
  "cliStep ''--dest'' rest st = routeValueStep ''--dest'' (\<lambda>v rc. Inr (rc\<lparr>destEntries := destEntries rc @ [v]\<rparr>)) rest st"
  by (rule cliStep_value) (simp_all add: routeValueFlags_def specialFlags_def exitFlags_def
      globalValueFlags_def globalSwitches_def tlsValueFlags_def)

text \<open>A route that the command line gives without \<^verbatim>\<open>--vhost\<close> joins the first catch-all vhost of
  the file: it replaces the route of the same path there and leaves all else as it is.\<close>

theorem cli_route_joins:
  assumes "VHosts cfg = pre @ vh # post" and "list_ex (\<lambda>d. d = ''*'') (Domains vh)"
    and "list_all (\<lambda>v. \<not> list_ex (\<lambda>d. d = ''*'') (Domains v)) pre"
    and "p \<noteq> []" and "\<not> HasPrefix p ''--''" and "\<not> HasPrefix d ''--''"
    and "applyDestEntries (zeroRoute\<lparr>destEntries := [d]\<rparr>) [d] = Inr rc"
  shows "applyCLI cfg [''--route'', p, ''--dest'', d] =
    Inr (cfg\<lparr>VHosts := pre @ vh\<lparr>Routes := AList.update p rc (Routes vh)\<rparr> # post\<rparr>, False)"
proof -
  let ?st = "(cliStart cfg)\<lparr>cs_path := p, cs_routes := Some [], cs_route := Some (zeroRoute\<lparr>destEntries := [d]\<rparr>)\<rparr>"
  have e: "expandArgs [''--route'', p, ''--dest'', d] = [''--route'', p, ''--dest'', d]"
    using assms(5,6) by (simp add: expandArgs_def not_expanded no_equals)
  have "destEntries zeroRoute = []" by (simp add: zeroRoute_def)
  then have l: "cliLoop [''--route'', p, ''--dest'', d] (cliStart cfg) = Inr ?st"
    by (simp add: cliStep_route cliStep_dest routeStep_def routeValueStep_def flushRoute_def
        currentRoutes_def cliStart_def)
  have "flushRoute ?st = Inr ((cliStart cfg)\<lparr>cs_routes := Some [(p, rc)]\<rparr>)"
    using assms(4,7) by (simp add: flushRoute_def currentRoutes_def cliStart_def)
  then have "flushVHost ?st = Inr ((cliStart cfg)\<lparr>cs_cfg :=
      cfg\<lparr>VHosts := pre @ vh\<lparr>Routes := AList.update p rc (Routes vh)\<rparr> # post\<rparr>\<rparr>)"
    using mergeCatchAll_at[OF assms(2,3), of "[(p, rc)]" post]
    by (simp add: flushVHost_def cliStart_def assms(1) mergeRoutes_def)
  with e l show ?thesis by (simp add: applyCLI_def cliStart_def)
qed

lemma cli_route_joins_witness:
  "applyCLI (zeroConfig\<lparr>VHosts := [\<lparr>Domains = [''*''], Routes = [(''/'', zeroRoute)], vh_TLS = None\<rparr>]\<rparr>)
     [''--route'', ''/api'', ''--dest'', ''STATUS 200''] =
   Inr (zeroConfig\<lparr>VHosts := [\<lparr>Domains = [''*''], Routes = [(''/'', zeroRoute),
     (''/api'', zeroRoute\<lparr>destEntries := [''STATUS 200''], StatusCode := 200\<rparr>)], vh_TLS = None\<rparr>]\<rparr>, False)"
proof -
  have s: "parseDestField ''STATUS 200'' = Some (200, [])" by code_simp
  have "StatusText zeroRoute = []" by (simp add: zeroRoute_def)
  with s have d: "applyDestEntries (zeroRoute\<lparr>destEntries := [''STATUS 200'']\<rparr>) [''STATUS 200''] =
      Inr (zeroRoute\<lparr>destEntries := [''STATUS 200''], StatusCode := 200\<rparr>)"
    by (simp add: applyDestEntries_def zeroRoute_def)
  show ?thesis
    by (subst cli_route_joins[OF _ _ _ _ _ _ d, where pre = "[]" and post = "[]" and
          vh = "\<lparr>Domains = [''*''], Routes = [(''/'', zeroRoute)], vh_TLS = None\<rparr>"])
       (simp_all add: HasPrefix_def)
qed

section \<open>Where the command line does less\<close>

text \<open>\<^verbatim>\<open>--config=PATH\<close> is accepted and ignored: the first pass looks for the file in the arguments
  as they are, and the second one, which splits them, skips the flag. The configuration is the one
  without the argument.\<close>

theorem config_equals_ignored:
  "parseAll en [''--config='' @ p] =
     (case parseAll en [] of
        Inl e \<Rightarrow> Inl e
      | Inr (c, b) \<Rightarrow> Inr (c\<lparr>OriginalArgs := [''--config='' @ p]\<rparr>, b))"
proof -
  have s: "scanArgs [''--config='' @ p] acc = acc" for acc
    by (cases acc) (simp add: exitFlags_def)
  then have base: "baseConfig en [''--config='' @ p] = baseConfig en []"
    and path: "configPathOf en [''--config='' @ p] = configPathOf en []"
    by (simp_all only: baseConfig_def configPathOf_def s scanArgs.simps)
  have "HasPrefix (''--config='' @ p) ''--''" by (simp add: HasPrefix_def)
  moreover have "Contains (''--config='' @ p) ''=''" by (simp add: Contains_byte_iff)
  moreover have "SplitN2 (''config='' @ p) CHR ''='' = [''config'', p]" by (simp add: SplitN2_def)
  ultimately have e: "expandArgs [''--config='' @ p] = [''--config'', p]"
    by (simp add: expandArgs_def expandArg_def)
  have l: "cliLoop [''--config'', p] (cliStart c) = Inr (cliStart c)" for c by (simp add: cliStep_def)
  have f: "flushVHost (cliStart c) = Inr (cliStart c)" for c
    by (simp add: flushVHost_def flushRoute_def cliStart_def)
  have cfg: "cs_cfg (cliStart c) = c" "\<not> cs_validateOnly (cliStart c)" for c by (simp_all add: cliStart_def)
  have "applyCLI c [''--config='' @ p] = Inr (c, False)" "applyCLI c [] = Inr (c, False)" for c
    unfolding applyCLI_def e l f by (simp_all add: cfg f expandArgs_def)
  then show ?thesis
    unfolding parseAll_def base path by (simp split: sum.split)
qed

text \<open>A vhost without routes is dropped without an error, and its TLS settings stay with the loop:
  they become those of the next vhost.\<close>

theorem dropped_vhost_tls:
  assumes "cs_domains st = Some ds" and "cs_tls st = Some t" and "cs_routes st = None" and "cs_route st = None"
  shows "cliStep ''--vhost'' (v # rest) st =
    Inr (st\<lparr>cs_domains := Some (map TrimSpace (Split v CHR ''|''))\<rparr>, rest)"
  using assms by (simp add: cliStep_def vhostStep_def flushVHost_def flushRoute_def)

lemma dropped_vhost_tls_witness:
  "cliStep ''--vhost'' [''b.org''] ((cliStart zeroConfig)\<lparr>cs_domains := Some [''a.com''],
       cs_tls := Some (zeroTLS\<lparr>tls_Cert := ''a.crt'', tls_Key := ''a.key''\<rparr>)\<rparr>) =
   Inr ((cliStart zeroConfig)\<lparr>cs_domains := Some [''b.org''],
       cs_tls := Some (zeroTLS\<lparr>tls_Cert := ''a.crt'', tls_Key := ''a.key''\<rparr>)\<rparr>, [])"
proof -
  have "map TrimSpace (Split ''b.org'' CHR ''|'') = [''b.org'']" by code_simp
  then show ?thesis
    by (subst dropped_vhost_tls[where ds = "[''a.com'']" and t = "zeroTLS\<lparr>tls_Cert := ''a.crt'', tls_Key := ''a.key''\<rparr>"])
       (simp_all add: cliStart_def)
qed

text \<open>\<^verbatim>\<open>--client-add-header\<close> does not set the flag that hands the forwarded chain to the response:
  on a route of the command line \<^verbatim>\<open>${trusted_xff}\<close> in a response header does not see the chain.\<close>

theorem client_header_blind:
  assumes "addClientHeader v rc = Inr rc'" and "\<not> ClientNeedsTrustedXFF rc"
  shows "modifyResponse rc' cfg (out\<lparr>rq_ctxXFF := chain\<rparr>) resp = modifyResponse rc' cfg out resp"
proof -
  from assms have "\<not> ClientNeedsTrustedXFF rc'"
    by (auto simp: addClientHeader_def Let_def split: option.splits)
  then show ?thesis
    by (simp add: modifyResponse_def manipulateClientHeaders_def respCtx_def schemeOf_def Let_def)
qed

lemma client_header_blind_witness:
  "\<exists>rc'. addClientHeader ''X-Client: ${trusted_xff}'' zeroRoute = Inr rc' \<and> NeedsTrustedXFF rc' \<and>
     modifyResponse rc' zeroConfig (demo_request\<lparr>rq_ctxXFF := [''198.51.100.7'']\<rparr>) (\<lambda>_. None) =
     modifyResponse rc' zeroConfig demo_request (\<lambda>_. None)"
proof -
  let ?r = "addClientHeader ''X-Client: ${trusted_xff}'' zeroRoute"
  have "case ?r of Inl e \<Rightarrow> False | Inr rc \<Rightarrow> NeedsTrustedXFF rc" by code_simp
  then obtain rc' where a: "?r = Inr rc'" "NeedsTrustedXFF rc'" by (auto split: sum.splits)
  have "\<not> ClientNeedsTrustedXFF zeroRoute" by (simp add: zeroRoute_def)
  from client_header_blind[OF a(1) this] a show ?thesis by blast
qed

end
