(* ===== verification/Acme_Bridge.thy ===== *)
theory Acme_Bridge
  imports Cli Acme_Manager
begin

text \<open>
  From the configuration to the certificate manager (\<^verbatim>\<open>src/acme_bridge.go\<close>): which vhosts it manages,
  and what a reload may not change about it. A Go map is a list of entries with distinct keys.
\<close>

section \<open>What a reload may not change\<close>

definition vhostKey :: "VHost \<Rightarrow> string" where
  "vhostKey vh = Join (Domains vh) ''|''"

definition revertVHostTLS :: "VHost list \<Rightarrow> VHost list \<Rightarrow> VHost list" where
  "revertVHostTLS oldVHosts newVHosts =
     (let oldMap = fold (\<lambda>vh. AList.update (vhostKey vh) (vh_TLS vh)) oldVHosts []
      in map (\<lambda>vh. case map_of oldMap (vhostKey vh) of
                      Some oldTLS \<Rightarrow> vh\<lparr>vh_TLS := oldTLS\<rparr>
                    | None \<Rightarrow> vh) newVHosts)"

definition vhostTLSMap :: "VHost list \<Rightarrow> (string \<times> VHostTLS) list" where
  "vhostTLSMap vhosts =
     fold (\<lambda>vh. AList.update (vhostKey vh) (case vh_TLS vh of Some t \<Rightarrow> t | None \<Rightarrow> zeroTLS)) vhosts []"

definition sameVHostTLSSet :: "VHost list \<Rightarrow> VHost list \<Rightarrow> bool" where
  "sameVHostTLSSet oldV newV \<longleftrightarrow>
     (let oldMap = vhostTLSMap oldV; newMap = vhostTLSMap newV in
      length oldMap = length newMap \<and> list_all (\<lambda>(k, ot). map_of newMap k = Some ot) oldMap)"

definition sameACMEGlobal :: "ACMEConfig option \<Rightarrow> ACMEConfig option \<Rightarrow> bool" where
  "sameACMEGlobal a b \<longleftrightarrow> a = b"

definition acmeConfigChanged :: "Config \<Rightarrow> Config \<Rightarrow> bool" where
  "acmeConfigChanged oldCfg newCfg \<longleftrightarrow>
     (if \<not> sameACMEGlobal (cfg_ACME oldCfg) (cfg_ACME newCfg) then True
      else \<not> sameVHostTLSSet (VHosts oldCfg) (VHosts newCfg))"

section \<open>The manager\<close>

text \<open>\<^verbatim>\<open>time.Duration(days) * 24 * time.Hour\<close> is a product of \<^verbatim>\<open>int64\<close> values.\<close>

definition parseDayDuration :: "string \<Rightarrow> duration option" where
  "parseDayDuration s =
     (if 1 < length s \<and> last s = CHR ''d'' then
        map_option (\<lambda>days. sint (word_of_int (days * 24 * hour) :: 64 word)) (Sscanf_d (butlast s))
      else ParseDuration s)"

datatype bridgeError =
    BadACMEDomains "string list" domainError
  | BadRenewal "string list" string
  | BadChallengeMode string
  | ManagerRefused managerError

text \<open>One vhost: nothing when it has no certificate of its own.\<close>

definition tlsVHost :: "VHost \<Rightarrow> bridgeError + VHostConfig option" where
  "tlsVHost vh =
     (case vh_TLS vh of
        None \<Rightarrow> Inr None
      | Some t \<Rightarrow>
          let usesACME = (AcmeSource t \<noteq> []); usesStatic = (tls_Cert t \<noteq> [] \<or> tls_Key t \<noteq> []) in
          if \<not> usesACME \<and> \<not> usesStatic then Inr None
          else (case (if usesACME then ValidateDomainsForACME (Domains vh) else None) of
                  Some e \<Rightarrow> Inl (BadACMEDomains (Domains vh) e)
                | None \<Rightarrow>
                    (case (if RenewBefore t \<noteq> [] then parseDayDuration (RenewBefore t) else Some 0) of
                       None \<Rightarrow> Inl (BadRenewal (Domains vh) (RenewBefore t))
                     | Some renew \<Rightarrow>
                         Inr (Some \<lparr>vc_Domains = Domains vh, vc_CertPath = tls_Cert t, vc_KeyPath = tls_Key t,
                                    vc_AcmeSource = AcmeSource t, vc_RenewBefore = renew\<rparr>))))"

fun tlsVHosts :: "VHost list \<Rightarrow> bridgeError + VHostConfig list" where
  "tlsVHosts [] = Inr []"
| "tlsVHosts (vh # vhs) =
     (case tlsVHost vh of
        Inl e \<Rightarrow> Inl e
      | Inr v \<Rightarrow>
          (case tlsVHosts vhs of
             Inl e \<Rightarrow> Inl e
           | Inr vs \<Rightarrow> Inr ((case v of None \<Rightarrow> [] | Some c \<Rightarrow> [c]) @ vs)))"

text \<open>What \<open>NewManager\<close> needs of the process: the user, the home directory, the clock, the state file
  and the disk.\<close>

record bridgeEnv =
  br_root :: bool
  br_home :: "string option"
  br_now :: instant
  br_stateFile :: "(string \<Rightarrow> issueEntry option) option"
  br_disk :: "string \<Rightarrow> string option"

definition globalACME :: "ACMEConfig option \<Rightarrow> ChallengeMode \<Rightarrow> GlobalConfig" where
  "globalACME acme mode =
     (let a = (case acme of None \<Rightarrow> zeroACME | Some a \<Rightarrow> a)
      in \<lparr>gc_Email = ac_Email a, gc_CacheDir = ac_CacheDir a, gc_ChallengeMode = mode,
          gc_ServePort80 = ac_ServePort80 a, gc_DirectoryURL = ac_DirectoryURL a,
          gc_CARootFile = ac_CARootFile a, gc_InsecureSkipVerify = ac_Insecure a\<rparr>)"

definition challengeModeOf :: "ACMEConfig option \<Rightarrow> string" where
  "challengeModeOf acme = (case acme of None \<Rightarrow> [] | Some a \<Rightarrow> ac_ChallengeMode a)"

definition buildACMEManager :: "bridgeEnv \<Rightarrow> Config \<Rightarrow> bridgeError + 'c manager option" where
  "buildACMEManager en cfg =
     (case tlsVHosts (VHosts cfg) of
        Inl e \<Rightarrow> Inl e
      | Inr vs \<Rightarrow>
          if vs = [] then Inr None
          else (case ParseChallengeMode (challengeModeOf (cfg_ACME cfg)) of
                  None \<Rightarrow> Inl (BadChallengeMode (challengeModeOf (cfg_ACME cfg)))
                | Some mode \<Rightarrow>
                    (case NewManager (br_root en) (br_home en) (br_now en) (br_stateFile en) (br_disk en)
                            (globalACME (cfg_ACME cfg) mode) vs of
                       Inl e \<Rightarrow> Inl (ManagerRefused e)
                     | Inr m \<Rightarrow> Inr (Some m))))"

section \<open>Properties\<close>

text \<open>The TLS block of a vhost by its domains: the last vhost with these domains counts.\<close>

definition derefTLS :: "VHostTLS option \<Rightarrow> VHostTLS" where
  "derefTLS t = (case t of Some t \<Rightarrow> t | None \<Rightarrow> zeroTLS)"

definition tlsOf :: "VHost list \<Rightarrow> string \<Rightarrow> VHostTLS option" where
  "tlsOf vhs k = map_option (\<lambda>vh. derefTLS (vh_TLS vh)) (find (\<lambda>vh. vhostKey vh = k) (rev vhs))"

lemma fold_update_snoc:
  "fold (\<lambda>x. AList.update (f x) (g x)) (xs @ [x]) al =
     AList.update (f x) (g x) (fold (\<lambda>x. AList.update (f x) (g x)) xs al)"
  by simp

lemma map_of_fold_update:
  "map_of (fold (\<lambda>x. AList.update (f x) (g x)) xs []) k = map_option g (find (\<lambda>x. f x = k) (rev xs))"
  by (induction xs rule: rev_induct) (auto simp: update_conv')

lemma distinct_fold_update: "distinct (map fst (fold (\<lambda>x. AList.update (f x) (g x)) xs []))"
  by (induction xs rule: rev_induct) (auto simp: distinct_update)

lemma vhostTLSMap_of: "map_of (vhostTLSMap vhs) = tlsOf vhs"
  by (rule ext) (simp add: vhostTLSMap_def map_of_fold_update tlsOf_def derefTLS_def)

text \<open>Two lists with distinct keys of which one is part of the other and no longer are the same map.\<close>

lemma same_length_map:
  assumes "distinct (map fst xs)" and "distinct (map fst ys)" and "length xs = length ys"
    and "\<And>k v. map_of xs k = Some v \<Longrightarrow> map_of ys k = Some v"
  shows "map_of xs = map_of ys"
proof -
  have sub: "fst ` set xs \<subseteq> fst ` set ys"
    using assms(4) by (metis domI dom_map_of_conv_image_fst subsetI domIff option.exhaust)
  have "card (fst ` set xs) = card (fst ` set ys)"
    using assms(1-3) by (metis distinct_card length_map set_map)
  with sub have "fst ` set xs = fst ` set ys" by (simp add: card_subset_eq)
  then have "dom (map_of xs) = dom (map_of ys)" by (simp add: dom_map_of_conv_image_fst)
  with assms(4) show ?thesis by (metis domIff ext not_None_eq)
qed

lemma sameVHostTLSSet_iff: "sameVHostTLSSet oldV newV \<longleftrightarrow> tlsOf oldV = tlsOf newV"
proof -
  let ?x = "vhostTLSMap oldV" and ?y = "vhostTLSMap newV"
  have d: "distinct (map fst ?x)" "distinct (map fst ?y)" by (simp_all add: vhostTLSMap_def distinct_fold_update)
  have "sameVHostTLSSet oldV newV \<longleftrightarrow> map_of ?x = map_of ?y"
  proof
    assume "sameVHostTLSSet oldV newV"
    then show "map_of ?x = map_of ?y"
      by (intro same_length_map[OF d]) (auto simp: sameVHostTLSSet_def Let_def list_all_iff dest!: map_of_SomeD)
  next
    assume e: "map_of ?x = map_of ?y"
    then have "fst ` set ?x = fst ` set ?y" by (metis dom_map_of_conv_image_fst)
    with d have "length ?x = length ?y" by (metis distinct_card length_map set_map)
    with d(1) e show "sameVHostTLSSet oldV newV"
      by (auto simp: sameVHostTLSSet_def Let_def list_all_iff) (metis map_of_eq_Some_iff)
  qed
  then show ?thesis by (simp add: vhostTLSMap_of)
qed

text \<open>A reload sees a change of the certificates exactly when the ACME block differs or some set of
  domains has another TLS block, whatever the order of the vhosts.\<close>

theorem acme_change_exact:
  "acmeConfigChanged oldCfg newCfg \<longleftrightarrow>
     cfg_ACME oldCfg \<noteq> cfg_ACME newCfg \<or> tlsOf (VHosts oldCfg) \<noteq> tlsOf (VHosts newCfg)"
  by (simp add: acmeConfigChanged_def sameACMEGlobal_def sameVHostTLSSet_iff)

text \<open>What the reverted vhosts have.\<close>

lemma revertVHostTLS_map:
  "revertVHostTLS old new = map (\<lambda>vh. case find (\<lambda>w. vhostKey w = vhostKey vh) (rev old) of
       Some w \<Rightarrow> vh\<lparr>vh_TLS := vh_TLS w\<rparr> | None \<Rightarrow> vh) new"
  by (simp add: revertVHostTLS_def Let_def map_of_fold_update) (auto split: option.split)

lemma revert_sel:
  "Domains (case x of Some w \<Rightarrow> vh\<lparr>vh_TLS := vh_TLS w\<rparr> | None \<Rightarrow> vh) = Domains vh"
  "Routes (case x of Some w \<Rightarrow> vh\<lparr>vh_TLS := vh_TLS w\<rparr> | None \<Rightarrow> vh) = Routes vh"
  by (simp_all split: option.split)

lemma find_map: "find P (map f xs) = map_option f (find (P \<circ> f) xs)"
  by (induction xs) auto

lemma revert_tlsOf:
  assumes "vhostKey ` set new = vhostKey ` set old"
  shows "tlsOf (revertVHostTLS old new) = tlsOf old"
proof
  fix k
  let ?rv = "\<lambda>vh. case find (\<lambda>w. vhostKey w = vhostKey vh) (rev old) of
       Some w \<Rightarrow> vh\<lparr>vh_TLS := vh_TLS w\<rparr> | None \<Rightarrow> vh"
  have key: "vhostKey (?rv vh) = vhostKey vh" for vh by (simp add: vhostKey_def revert_sel)
  show "tlsOf (revertVHostTLS old new) k = tlsOf old k"
  proof (cases "find (\<lambda>vh. vhostKey vh = k) (rev new)")
    case None
    then have "k \<notin> vhostKey ` set old" unfolding assms[symmetric] by (auto simp: find_None_iff)
    then have "find (\<lambda>vh. vhostKey vh = k) (rev old) = None" by (auto simp: find_None_iff)
    with None show ?thesis by (simp add: tlsOf_def revertVHostTLS_map rev_map find_map o_def key)
  next
    case (Some vh)
    then have "vhostKey vh = k" by (metis (mono_tags, lifting) find_Some_iff)
    moreover from Some have "k \<in> vhostKey ` set old"
      unfolding assms[symmetric] by (metis (mono_tags, lifting) find_Some_iff image_eqI nth_mem set_rev)
    then obtain w' where "find (\<lambda>vh. vhostKey vh = k) (rev old) = Some w'"
      by (cases "find (\<lambda>vh. vhostKey vh = k) (rev old)") (auto simp: find_None_iff)
    ultimately show ?thesis using Some
      by (simp add: tlsOf_def revertVHostTLS_map rev_map find_map o_def key)
  qed
qed

text \<open>C33. Reverting restores: when the new file has the vhosts of the old one, in any order, the
  configuration that a reload goes on with has the certificates the manager was built from.\<close>

theorem revert_restores:
  assumes "vhostKey ` set (VHosts newCfg) = vhostKey ` set (VHosts oldCfg)"
  shows "\<not> acmeConfigChanged oldCfg
     (newCfg\<lparr>cfg_ACME := cfg_ACME oldCfg, VHosts := revertVHostTLS (VHosts oldCfg) (VHosts newCfg)\<rparr>)"
  using revert_tlsOf[OF assms]
  by (simp add: acmeConfigChanged_def sameACMEGlobal_def sameVHostTLSSet_iff)

definition demo_old :: Config where
  "demo_old = zeroConfig\<lparr>VHosts :=
     [\<lparr>Domains = [''a.com''], Routes = [], vh_TLS = Some (zeroTLS\<lparr>tls_Cert := ''a.crt'', tls_Key := ''a.key''\<rparr>)\<rparr>,
      \<lparr>Domains = [''b.org''], Routes = [], vh_TLS = None\<rparr>]\<rparr>"

definition demo_new :: Config where
  "demo_new = zeroConfig\<lparr>VHosts :=
     [\<lparr>Domains = [''b.org''], Routes = [], vh_TLS = Some (zeroTLS\<lparr>AcmeSource := ''le''\<rparr>)\<rparr>,
      \<lparr>Domains = [''a.com''], Routes = [], vh_TLS = Some (zeroTLS\<lparr>tls_Cert := ''c.crt''\<rparr>)\<rparr>]\<rparr>"

lemma revert_restores_witness:
  "acmeConfigChanged demo_old demo_new \<and> \<not> acmeConfigChanged demo_old
     (demo_new\<lparr>cfg_ACME := cfg_ACME demo_old, VHosts := revertVHostTLS (VHosts demo_old) (VHosts demo_new)\<rparr>)"
proof
  show "acmeConfigChanged demo_old demo_new" by code_simp
  have "vhostKey ` set (VHosts demo_new) = vhostKey ` set (VHosts demo_old)"
    by (auto simp: demo_new_def demo_old_def vhostKey_def)
  from revert_restores[OF this]
  show "\<not> acmeConfigChanged demo_old
     (demo_new\<lparr>cfg_ACME := cfg_ACME demo_old, VHosts := revertVHostTLS (VHosts demo_old) (VHosts demo_new)\<rparr>)" .
qed

text \<open>A new vhost counts as a change of the certificates even when it has no TLS block: the reload
  warns that a restart is needed for what needs none.\<close>

theorem plain_vhost_counts:
  assumes "vhostKey vh \<notin> vhostKey ` set (VHosts cfg)"
  shows "acmeConfigChanged cfg (cfg\<lparr>VHosts := VHosts cfg @ [vh\<lparr>vh_TLS := None\<rparr>]\<rparr>)"
proof -
  have "find (\<lambda>v. vhostKey v = vhostKey vh) (rev (VHosts cfg)) = None"
    using assms by (simp add: find_None_iff image_iff) metis
  then have "tlsOf (VHosts cfg) (vhostKey vh) = None" by (simp add: tlsOf_def)
  moreover have "tlsOf (VHosts cfg @ [vh\<lparr>vh_TLS := None\<rparr>]) (vhostKey vh) \<noteq> None"
    by (simp add: tlsOf_def vhostKey_def)
  ultimately have "tlsOf (VHosts cfg) \<noteq> tlsOf (VHosts cfg @ [vh\<lparr>vh_TLS := None\<rparr>])" by metis
  then show ?thesis by (simp add: acmeConfigChanged_def sameACMEGlobal_def sameVHostTLSSet_iff)
qed

lemma plain_vhost_counts_witness:
  "acmeConfigChanged zeroConfig (zeroConfig\<lparr>VHosts :=
     [\<lparr>Domains = [''c.net''], Routes = [], vh_TLS = None\<rparr>]\<rparr>)"
  using plain_vhost_counts[of "\<lparr>Domains = [''c.net''], Routes = [], vh_TLS = None\<rparr>" zeroConfig]
  by (simp add: zeroConfig_def)

section \<open>The manager that is built\<close>

text \<open>What every vhost of the manager satisfies: a certificate asked for by ACME names real domains only.\<close>

definition managed_ok :: "GlobalConfig \<Rightarrow> VHostConfig \<Rightarrow> bool" where
  "managed_ok g v \<longleftrightarrow>
     (UsesACME v \<longrightarrow>
        vc_Domains v \<noteq> [] \<and> list_all isValidDomainName (vc_Domains v) \<and>
        gc_Email g \<noteq> [] \<and> directoryURL g v \<noteq> None) \<and>
     (UsesACME v \<or> vc_CertPath v \<noteq> [] \<or> vc_KeyPath v \<noteq> [])"

lemma firstProblem_None: "firstProblem ds = None \<Longrightarrow> list_all isValidDomainName ds"
  by (induction ds) (auto simp: domainProblem_def split: option.splits if_splits)

lemma tlsVHost_ok:
  assumes "tlsVHost vh = Inr (Some v)"
  shows "(UsesACME v \<longrightarrow> vc_Domains v \<noteq> [] \<and> list_all isValidDomainName (vc_Domains v)) \<and>
    (UsesACME v \<or> vc_CertPath v \<noteq> [] \<or> vc_KeyPath v \<noteq> [])"
  using assms firstProblem_None
  by (auto simp: tlsVHost_def Let_def UsesACME_def ValidateDomainsForACME_def split: option.splits if_splits)

lemma tlsVHosts_ok:
  "tlsVHosts vhs = Inr vs \<Longrightarrow> v \<in> set vs \<Longrightarrow> \<exists>vh \<in> set vhs. tlsVHost vh = Inr (Some v)"
  by (induction vhs arbitrary: vs) (auto split: sum.splits option.splits)

lemma firstManagerError_None: "firstManagerError g vs = None \<Longrightarrow> v \<in> set vs \<Longrightarrow> newManagerError g v = None"
  by (induction vs) (auto split: option.splits)

text \<open>The manager that the server starts with asks an authority only for lists of well-formed
  domain names, with an account and a known directory; a catch-all or wildcard vhost never gets
  that far. Every vhost it holds has ACME or a certificate file.\<close>

theorem managed_vhosts:
  assumes "buildACMEManager en cfg = Inr (Some m)"
  shows "mg_vhosts m \<noteq> [] \<and> list_all (managed_ok (mg_global m)) (mg_vhosts m)"
proof -
  obtain vs g where vs: "tlsVHosts (VHosts cfg) = Inr vs" "vs \<noteq> []"
    and g: "firstManagerError g vs = None" and m: "mg_vhosts m = vs" "mg_global m = g"
    using assms by (auto simp: buildACMEManager_def NewManager_def Let_def split: sum.splits option.splits if_splits)
  have "managed_ok g v" if "v \<in> set vs" for v
    using tlsVHosts_ok[OF vs(1) that] tlsVHost_ok firstManagerError_None[OF g that]
    by (fastforce simp: managed_ok_def newManagerError_def split: if_splits)
  with vs(2) m show ?thesis by (simp add: list_all_iff)
qed

definition demo_bridge :: bridgeEnv where
  "demo_bridge = \<lparr>br_root = True, br_home = None, br_now = zeroTime, br_stateFile = None, br_disk = (\<lambda>_. None)\<rparr>"

definition demo_acme_config :: Config where
  "demo_acme_config = zeroConfig\<lparr>cfg_ACME := Some (zeroACME\<lparr>ac_Email := ''a@b.org''\<rparr>), VHosts :=
     [\<lparr>Domains = [''example.com''], Routes = [], vh_TLS = Some (zeroTLS\<lparr>AcmeSource := ''le'', RenewBefore := ''30d''\<rparr>)\<rparr>,
      \<lparr>Domains = [''*''], Routes = [], vh_TLS = None\<rparr>]\<rparr>"

lemma managed_vhosts_witness:
  "\<exists>m :: unit manager. buildACMEManager demo_bridge demo_acme_config = Inr (Some m) \<and>
     mg_vhosts m \<noteq> [] \<and> list_all (managed_ok (mg_global m)) (mg_vhosts m)"
proof -
  let ?r = "buildACMEManager demo_bridge demo_acme_config :: bridgeError + unit manager option"
  have "case ?r of Inl e \<Rightarrow> False | Inr x \<Rightarrow> x \<noteq> None" by code_simp
  then obtain m where "?r = Inr (Some m)" by (auto split: sum.splits)
  with managed_vhosts[OF this] show ?thesis by blast
qed

section \<open>Days\<close>

text \<open>A number of days is read exactly as long as it fits the nanoseconds of a duration, that is up
  to 106751 days.\<close>

theorem day_duration_exact:
  assumes "Sscanf_d s = Some n" and "\<bar>n\<bar> \<le> 106751"
  shows "parseDayDuration (s @ ''d'') = Some (n * 24 * hour)"
proof -
  have "s \<noteq> []" using assms(1) by (auto simp: Sscanf_d_def)
  moreover have "sint (word_of_int (n * 24 * hour) :: 64 word) = n * 24 * hour"
    using assms(2) unfolding hour_def minute_def second_def int_word_sint by (simp add: mod_pos_pos_trivial)
  ultimately show ?thesis using assms(1) by (simp add: parseDayDuration_def)
qed

text \<open>What stands between the number and the final letter is not looked at: a renewal lead of an
  hour and thirty days is read as one day.\<close>

theorem day_duration_lenient:
  "parseDayDuration ''1h30d'' = Some (24 * hour)"
  by code_simp

lemma day_duration_exact_witness: "parseDayDuration ''30d'' = Some (30 * 24 * hour)"
proof -
  have "Sscanf_d ''30'' = Some 30" by code_simp
  from day_duration_exact[OF this] show ?thesis by simp
qed

end
