(* ===== verification/Listen.thy ===== *)
theory Listen
  imports Cidr_Text Cidr_Refresh
begin

text \<open>
  The address that the server listens on (\<open>resolveListenAddress\<close>, \<open>isUnixListen\<close>, \<open>unixSocketPath\<close> in
  \<^verbatim>\<open>src/cli.go\<close>, \<open>listenAddr\<close> in \<^verbatim>\<open>src/server.go\<close>). The addresses of an interface are a parameter; an
  entry that is neither a network nor an address is \<^const>\<open>None\<close>.
\<close>

definition isUnixListen :: "string \<Rightarrow> bool" where
  "isUnixListen listen = HasPrefix listen ''unix:''"

definition unixSocketPath :: "string \<Rightarrow> string" where
  "unixSocketPath listen =
     (let p = TrimPrefix (TrimPrefix listen ''unix:'') ''//''
      in if HasPrefix p ''/'' then p else ''/'' @ p)"

datatype listenError = UnknownInterface string | NoAddress string | NoIP string

fun firstIPv4 :: "ip option list \<Rightarrow> ip option" where
  "firstIPv4 [] = None"
| "firstIPv4 (a # as) =
     (case a of
        None \<Rightarrow> firstIPv4 as
      | Some i \<Rightarrow> (case To4 i of Some i4 \<Rightarrow> Some i4 | None \<Rightarrow> firstIPv4 as))"

definition interfaceIP :: "string \<Rightarrow> ip option list \<Rightarrow> listenError + string" where
  "interfaceIP listen addrs =
     (if addrs = [] then Inl (NoAddress listen)
      else (case firstIPv4 addrs of
              Some i4 \<Rightarrow> Inr (dotted i4)
            | None \<Rightarrow> (case hd addrs of Some i \<Rightarrow> Inr (ip_String i) | None \<Rightarrow> Inl (NoIP listen))))"

definition resolveListenAddress :: "(string \<Rightarrow> ip option list option) \<Rightarrow> string \<Rightarrow> listenError + string" where
  "resolveListenAddress ifaces listen =
     (if listen = [] then Inr []
      else if isUnixListen listen then Inr listen
      else (case ParseIP listen of
              Some i \<Rightarrow> Inr (ip_String i)
            | None \<Rightarrow>
                (case ifaces listen of
                   None \<Rightarrow> Inl (UnknownInterface listen)
                 | Some addrs \<Rightarrow> interfaceIP listen addrs)))"

text \<open>\<^verbatim>\<open>%d\<close>.\<close>

definition itoa :: "int \<Rightarrow> string" where
  "itoa n = (if n < 0 then CHR ''-'' # decimal_of (- n) else decimal_of n)"

definition listenAddr :: "string \<Rightarrow> int \<Rightarrow> string" where
  "listenAddr bindIP port = (if isUnixListen bindIP then bindIP else bindIP @ '':'' @ itoa port)"

section \<open>Properties\<close>

lemma itoa_decimal_plain: "0 \<le> n \<Longrightarrow> c \<in> set (decimal_of n) \<Longrightarrow> is_digit c"
  using decimal_of_digits[of n] by (simp add: list_all_iff)

lemma itoa_plain: "c \<in> set (itoa n) \<Longrightarrow> is_digit c \<or> c = CHR ''-''"
  using itoa_decimal_plain[of n c] itoa_decimal_plain[of "- n" c] by (auto simp: itoa_def split: if_splits)

lemma set_Join: "set (Join ws sep) \<subseteq> \<Union> (set ` set ws) \<union> set sep"
  by (induction ws sep rule: Join.induct) auto

lemma itoa_dotted_plain: "c \<in> set (dotted bs) \<Longrightarrow> is_digit c \<or> c = CHR ''.''"
proof -
  assume "c \<in> set (dotted bs)"
  then have "c \<in> \<Union> (set ` set (map (\<lambda>b. decimal_of (uint b)) bs)) \<union> set ''.''"
    unfolding dotted_def by (rule subsetD[OF set_Join])
  then show ?thesis using itoa_decimal_plain by auto
qed

lemma LastIndex_colon:
  assumes "CHR '':'' \<notin> set t"
  shows "LastIndex (s @ CHR '':'' # t) '':'' = Some (length s)"
proof -
  have "LastIndex t '':'' = None" using assms by (induction t) auto
  then show ?thesis by (induction s) auto
qed

lemma SplitHostPort_plain:
  assumes "CHR '':'' \<notin> set h" and "CHR '':'' \<notin> set p"
    and "CHR ''['' \<notin> set h \<union> set p" and "CHR '']'' \<notin> set h \<union> set p"
  shows "SplitHostPort (h @ CHR '':'' # p) = Some (h, p)"
proof -
  have "hd (h @ CHR '':'' # p) \<noteq> CHR ''[''" using assms(3) by (cases h) auto
  then show ?thesis using assms LastIndex_colon[OF assms(2), of h] by (simp add: SplitHostPort_def Let_def)
qed

text \<open>The address made from an IPv4 listen address is split back by the listener into this address
  and the port.\<close>

theorem listen_splits:
  assumes "ParseIP listen = Some i" and "To4 i = Some i4" and "\<not> isUnixListen listen"
  shows "resolveListenAddress ifaces listen = Inr (dotted i4) \<and>
    SplitHostPort (listenAddr (dotted i4) port) = Some (dotted i4, itoa port)"
proof
  have "ParseIP [] = None" by code_simp
  with assms show "resolveListenAddress ifaces listen = Inr (dotted i4)"
    by (auto simp: resolveListenAddress_def ip_String_def)
  have "isUnixListen s \<Longrightarrow> CHR ''u'' \<in> set s" for s
    by (auto simp: isUnixListen_def HasPrefix_def prefix_def)
  moreover have "\<not> is_digit CHR ''u''" "\<not> is_digit CHR '':''" "\<not> is_digit CHR ''[''" "\<not> is_digit CHR '']''"
    by code_simp+
  ultimately show "SplitHostPort (listenAddr (dotted i4) port) = Some (dotted i4, itoa port)"
    using SplitHostPort_plain[of "dotted i4" "itoa port"] itoa_dotted_plain[of _ i4] itoa_plain[of _ port]
    by (fastforce simp: listenAddr_def)
qed

lemma listen_splits_witness:
  "SplitHostPort (listenAddr (dotted [10, 0, 0, 1]) 8443) = Some (dotted [10, 0, 0, 1], itoa 8443)"
proof -
  have "ParseIP ''10.0.0.1'' = Some (v4InV6Prefix @ [10, 0, 0, 1])"
    and "To4 (v4InV6Prefix @ [10, 0, 0, 1]) = Some [10, 0, 0, 1]" and "\<not> isUnixListen ''10.0.0.1''"
    by code_simp+
  from listen_splits[OF this] show ?thesis by blast
qed

text \<open>An IPv6 listen address cannot be used: it is put before the port without brackets, and what
  comes out is no address with a port.\<close>

theorem ipv6_listen_unusable:
  "resolveListenAddress ifaces ''2001:db8::1'' = Inr ''2001:db8::1'' \<and>
   SplitHostPort (listenAddr ''2001:db8::1'' 8443) = None"
proof
  have "map_option ip_String (ParseIP ''2001:db8::1'') = Some ''2001:db8::1''" "\<not> isUnixListen ''2001:db8::1''"
    by code_simp+
  then show "resolveListenAddress ifaces ''2001:db8::1'' = Inr ''2001:db8::1''"
    by (auto simp: resolveListenAddress_def)
  show "SplitHostPort (listenAddr ''2001:db8::1'' 8443) = None" by code_simp
qed

text \<open>The two spellings of a socket name the same file.\<close>

lemma unix_spellings:
  "unixSocketPath ''unix:/run/r.sock'' = ''/run/r.sock''"
  "unixSocketPath ''unix:///run/r.sock'' = ''/run/r.sock''"
  by code_simp+

end
