(* ===== verification/Server.thy ===== *)
theory Server
  imports Serve Acme_Bridge Listen
begin

text \<open>
  The server (\<^verbatim>\<open>src/server.go\<close>): its state, how it is made and started, the top-level handler, and
  \<open>Reload\<close>. A reload is split where other goroutines can come between: \<open>beginReload\<close> takes the lock and
  reads the configuration, \<open>finishReload\<close> does the rest. What runs in the background (the refreshers of
  the address lists, the certificate manager) are events between these.
\<close>

section \<open>State\<close>

text \<open>The address lists of a configuration with the goroutines that refresh them. In the code they are
  behind pointers in the configuration; here \<open>liveConfig\<close> puts the lists of the moment into it.\<close>

record filterStates =
  fl_blocked :: "refresh_state option"
  fl_allowed :: "refresh_state option"
  fl_trusted :: "refresh_state option"

record serverState =
  ss_cfg :: Config
  ss_vhosts :: "vhostEntry list"
  ss_single :: bool
  ss_lists :: filterStates

text \<open>\<open>sv_jwt\<close> are the caches of the package \<^verbatim>\<open>jwtverify\<close>; \<open>sv_retired\<close> the lists of earlier
  configurations; \<open>sv_reloading\<close> is set while the lock of \<open>Reload\<close> is held, to what \<open>parseAll\<close>
  returned.\<close>

record 'c server =
  sv_state :: serverState
  sv_bindIP :: string
  sv_acme :: "'c manager option"
  sv_globalCert :: "'c option"
  sv_jwt :: jwtState
  sv_retired :: "refresh_state list"
  sv_reloading :: "(parseError + Config \<times> bool) option"

section \<open>Address lists\<close>

definition loadList :: "CIDRList option \<Rightarrow> world \<Rightarrow> refresh_state option \<times> world" where
  "loadList l w =
     (case l of
        None \<Rightarrow> (None, w)
      | Some cl \<Rightarrow> let st = Load (rinit cl w) in (Some st, rs_world st))"

definition blockedOf :: "Config \<Rightarrow> CIDRList option" where
  "blockedOf cfg = (case cfg_IPFilter cfg of None \<Rightarrow> None | Some f \<Rightarrow> f_blocked f)"

definition allowedOf :: "Config \<Rightarrow> CIDRList option" where
  "allowedOf cfg = (case cfg_IPFilter cfg of None \<Rightarrow> None | Some f \<Rightarrow> f_allowed f)"

definition trustedOf :: "Config \<Rightarrow> CIDRList option" where
  "trustedOf cfg = map_option tp_list (cfg_TrustedProxies cfg)"

text \<open>\<open>IPFilter.Load\<close> and \<open>TrustedProxies.Load\<close>. A list's \<open>Load\<close> never returns an error.\<close>

definition loadFilters :: "Config \<Rightarrow> world \<Rightarrow> filterStates" where
  "loadFilters cfg w =
     (let (b, w1) = loadList (blockedOf cfg) w;
          (a, w2) = loadList (allowedOf cfg) w1;
          (t, w3) = loadList (trustedOf cfg) w2
      in \<lparr>fl_blocked = b, fl_allowed = a, fl_trusted = t\<rparr>)"

definition mapLists :: "(refresh_state \<Rightarrow> refresh_state) \<Rightarrow> filterStates \<Rightarrow> filterStates" where
  "mapLists f fs = \<lparr>fl_blocked = map_option f (fl_blocked fs), fl_allowed = map_option f (fl_allowed fs),
     fl_trusted = map_option f (fl_trusted fs)\<rparr>"

definition startFilters :: "filterStates \<Rightarrow> filterStates" where
  "startFilters fs = mapLists StartRefresh fs"

definition stopFilters :: "filterStates \<Rightarrow> filterStates" where
  "stopFilters fs = mapLists Stop fs"

definition listsOf :: "filterStates \<Rightarrow> refresh_state list" where
  "listsOf fs = concat (map (\<lambda>l. case l of None \<Rightarrow> [] | Some st \<Rightarrow> [st]) [fl_blocked fs, fl_allowed fs, fl_trusted fs])"

definition liveConfig :: "serverState \<Rightarrow> Config" where
  "liveConfig st =
     (ss_cfg st)
       \<lparr>cfg_IPFilter := map_option (\<lambda>f. \<lparr>f_blocked = map_option rs_list (fl_blocked (ss_lists st)),
                                        f_allowed = map_option rs_list (fl_allowed (ss_lists st))\<rparr>)
                          (cfg_IPFilter (ss_cfg st)),
        cfg_TrustedProxies := map_option (\<lambda>l. \<lparr>tp_list = rs_list l\<rparr>) (fl_trusted (ss_lists st))\<rparr>"

section \<open>Making a server\<close>

record ('c, 'k) serverWorld =
  wd_cli :: cliEnv
  wd_ifaces :: "string \<Rightarrow> ip option list option"
  wd_isDir :: "string \<Rightarrow> bool"
  wd_lists :: world
  wd_bridge :: bridgeEnv
  wd_disk :: "string \<Rightarrow> string option"
  wd_acme :: "('c, 'k) acmeWorld"
  wd_mkdir :: bool

datatype serverError =
    ListenFailed listenError
  | CompileFailed routeError
  | ACMEFailed bridgeError
  | TLSFailed
  | ManagerFailed

definition emptyJwt :: jwtState where
  "emptyJwt = \<lparr>js_jwks = (\<lambda>_. None), js_class = (\<lambda>_. None)\<rparr>"

definition newServer :: "('c, 'k) serverWorld \<Rightarrow> Config \<Rightarrow> serverError + 'c server" where
  "newServer w cfg =
     (case resolveListenAddress (wd_ifaces w) (Listen cfg) of
        Inl e \<Rightarrow> Inl (ListenFailed e)
      | Inr bindIP \<Rightarrow>
          (case compileVHosts (wd_isDir w) cfg of
             Inl e \<Rightarrow> Inl (CompileFailed e)
           | Inr (vhosts, singleMux) \<Rightarrow>
               (case buildACMEManager (wd_bridge w) cfg of
                  Inl e \<Rightarrow> Inl (ACMEFailed e)
                | Inr mgr \<Rightarrow>
                    Inr \<lparr>sv_state = \<lparr>ss_cfg = cfg, ss_vhosts = vhosts, ss_single = singleMux,
                           ss_lists = startFilters (loadFilters cfg (wd_lists w))\<rparr>,
                         sv_bindIP = bindIP, sv_acme = mgr, sv_globalCert = None, sv_jwt = emptyJwt,
                         sv_retired = [], sv_reloading = None\<rparr>)))"

definition serverListenAddr :: "'c server \<Rightarrow> string" where
  "serverListenAddr sv = listenAddr (sv_bindIP sv) (Port (ss_cfg (sv_state sv)))"

text \<open>\<^verbatim>\<open>tls.LoadX509KeyPair\<close> of the global certificate.\<close>

definition globalPair :: "('c, 'k) serverWorld \<Rightarrow> Config \<Rightarrow> 'c option" where
  "globalPair w cfg = loadCertPair (wd_acme w) (wd_disk w) (GlobalTLSCert cfg, GlobalTLSKey cfg)"

text \<open>The choice of the TLS listener in \<open>run\<close>.\<close>

definition startTLS :: "('c, 'k) serverWorld \<Rightarrow> 'c server \<Rightarrow> serverError + 'c server" where
  "startTLS w sv =
     (let cfg = ss_cfg (sv_state sv) in
      case sv_acme sv of
        Some m \<Rightarrow>
          if GlobalTLSCert cfg \<noteq> [] \<and> globalPair w cfg = None then Inl TLSFailed
          else
            let m1 = (if GlobalTLSCert cfg \<noteq> [] then setFallbackM (globalPair w cfg) m else m) in
            (case managerStart (wd_acme w) (wd_mkdir w) m1 of
               None \<Rightarrow> Inl ManagerFailed
             | Some (m2, needIssue, renews) \<Rightarrow> Inr (sv\<lparr>sv_acme := Some m2\<rparr>))
      | None \<Rightarrow>
          if GlobalTLSCert cfg = [] then Inr sv
          else (case globalPair w cfg of
                  None \<Rightarrow> Inl TLSFailed
                | Some cert \<Rightarrow> Inr (sv\<lparr>sv_globalCert := Some cert\<rparr>)))"

text \<open>The names the log warns about, as they get the certificate of last resort.\<close>

definition fallbackVHosts :: "'c manager \<Rightarrow> Config \<Rightarrow> string list" where
  "fallbackVHosts m cfg =
     filter (\<lambda>d. d \<noteq> ''*'' \<and> d \<noteq> [] \<and> ToLower d \<notin> set (ManagedDomains m)) (concat (map Domains (VHosts cfg)))"

text \<open>The certificate of a handshake.\<close>

definition serverCertificate :: "'c server \<Rightarrow> clientHello \<Rightarrow> 'c option" where
  "serverCertificate sv hello =
     (case sv_acme sv of Some m \<Rightarrow> managedCertificate m hello | None \<Rightarrow> sv_globalCert sv)"

section \<open>The handler\<close>

definition notFound :: response where
  "notFound = httpError noHeader ''404 page not found'' 404"

definition challengeReply :: "'c manager option \<Rightarrow> request \<Rightarrow> response option" where
  "challengeReply acme r =
     (case acme of
        None \<Rightarrow> None
      | Some m \<Rightarrow>
          if \<not> IsChallengeRequest r then None
          else (case HTTPChallengeHandler m of
                  None \<Rightarrow> None
                | Some h \<Rightarrow>
                    Some (case hc_Handler h r of
                            Some resp \<Rightarrow> \<lparr>rs_status = 200, rs_header = hdr_Set ''Content-Type'' ''text/plain'' noHeader,
                                          rs_body = resp\<rparr>
                          | None \<Rightarrow> notFound)))"

definition filterAllows :: "Config \<Rightarrow> request \<Rightarrow> bool" where
  "filterAllows cfg r = (case cfg_IPFilter cfg of None \<Rightarrow> True | Some f \<Rightarrow> Allow f (rq_RemoteAddr r))"

definition vhostIndex :: "serverState \<Rightarrow> string \<Rightarrow> nat option" where
  "vhostIndex st host =
     (if ss_single st then Some 0
      else find (\<lambda>i. matchHost (ss_vhosts st ! i) (requestHost host)) [0..<length (ss_vhosts st)])"

text \<open>\<^verbatim>\<open>ServeMux.ServeHTTP\<close>: the handler that served is put back with its new picker.\<close>

definition muxStore :: "routeHandler mux \<Rightarrow> string \<Rightarrow> routeHandler \<Rightarrow> routeHandler mux" where
  "muxStore mx path h = (case mux_match mx path of None \<Rightarrow> mx | Some (pt, _) \<Rightarrow> AList.update pt h mx)"

definition muxServe ::
  "serveEnv \<Rightarrow> Config \<Rightarrow> routeHandler mux \<Rightarrow> request \<Rightarrow> jwtState \<Rightarrow> outcome \<times> routeHandler mux \<times> jwtState" where
  "muxServe env cfg mx r js =
     (case findHandler mx (url_Path (rq_URL r)) of
        mux_Redirect path \<Rightarrow> (MovedPermanently path (url_RawQuery (rq_URL r)), mx, js)
      | mux_NotFound \<Rightarrow> (Respond notFound, mx, js)
      | mux_Serve h \<Rightarrow>
          (case serveRoute env cfg h r js of
             (res, h', js') \<Rightarrow> (res, muxStore mx (url_Path (rq_URL r)) h', js')))"

definition storeMux :: "nat \<Rightarrow> routeHandler mux \<Rightarrow> serverState \<Rightarrow> serverState" where
  "storeMux i mx st = st\<lparr>ss_vhosts := (ss_vhosts st)[i := (ss_vhosts st ! i)\<lparr>ve_mux := mx\<rparr>]\<rparr>"

definition handler :: "serveEnv \<Rightarrow> request \<Rightarrow> 'c server \<Rightarrow> outcome \<times> 'c server" where
  "handler env r sv =
     (case challengeReply (sv_acme sv) r of
        Some resp \<Rightarrow> (Respond resp, sv)
      | None \<Rightarrow>
          let st = sv_state sv; cfg = liveConfig st in
          if \<not> filterAllows cfg r then (CloseConnection, sv)
          else (case vhostIndex st (rq_Host r) of
                  None \<Rightarrow> (CloseConnection, sv)
                | Some i \<Rightarrow>
                    (case muxServe env cfg (ve_mux (ss_vhosts st ! i)) r (sv_jwt sv) of
                       (res, mx, js) \<Rightarrow> (res, sv\<lparr>sv_state := storeMux i mx st, sv_jwt := js\<rparr>))))"

section \<open>Reload\<close>

definition beginReload :: "('c, 'k) serverWorld \<Rightarrow> 'c server \<Rightarrow> 'c server" where
  "beginReload w sv =
     (let cfg = ss_cfg (sv_state sv) in
      if sv_reloading sv \<noteq> None then sv
      else if ConfigPath cfg = [] then sv
      else sv\<lparr>sv_reloading := Some (parseAll (wd_cli w) (OriginalArgs cfg))\<rparr>)"

text \<open>Settings that are fixed when the server starts.\<close>

definition revertFixed :: "Config \<Rightarrow> Config \<Rightarrow> Config" where
  "revertFixed old new0 =
     (let new1 = (if Port new0 \<noteq> Port old \<or> Listen new0 \<noteq> Listen old
                  then new0\<lparr>Port := Port old, Listen := Listen old\<rparr> else new0);
          new2 = (if GlobalTLSCert new1 \<noteq> GlobalTLSCert old \<or> GlobalTLSKey new1 \<noteq> GlobalTLSKey old
                  then new1\<lparr>GlobalTLSCert := GlobalTLSCert old, GlobalTLSKey := GlobalTLSKey old\<rparr> else new1)
      in if acmeConfigChanged old new2
         then new2\<lparr>cfg_ACME := cfg_ACME old, VHosts := revertVHostTLS (VHosts old) (VHosts new2)\<rparr>
         else new2)"

datatype reloadError = ParseFailed parseError | Invalid configError | NotCompiled routeError

definition compileReload ::
  "('c, 'k) serverWorld \<Rightarrow> Config \<Rightarrow> parseError + Config \<times> bool \<Rightarrow> reloadError + Config \<times> vhostEntry list \<times> bool" where
  "compileReload w old parsed =
     (case parsed of
        Inl e \<Rightarrow> Inl (ParseFailed e)
      | Inr (new0, _) \<Rightarrow>
          (case validate new0 of
             Some e \<Rightarrow> Inl (Invalid e)
           | None \<Rightarrow>
               (case compileVHosts (wd_isDir w) (revertFixed old new0) of
                  Inl e \<Rightarrow> Inl (NotCompiled e)
                | Inr vs \<Rightarrow> Inr (revertFixed old new0, vs))))"

text \<open>Step 7: the certificate files are read again.\<close>

definition reloadCertificates :: "('c, 'k) serverWorld \<Rightarrow> Config \<Rightarrow> 'c server \<Rightarrow> 'c server" where
  "reloadCertificates w cfg sv =
     (case sv_acme sv of
        Some m \<Rightarrow>
          let m1 = fst (ReloadCerts (wd_acme w) (m\<lparr>mg_disk := wd_disk w\<rparr>)) in
          sv\<lparr>sv_acme := Some (if GlobalTLSCert cfg \<noteq> [] \<and> globalPair w cfg \<noteq> None
                              then setFallbackM (globalPair w cfg) m1 else m1)\<rparr>
      | None \<Rightarrow>
          if GlobalTLSCert cfg \<noteq> [] \<and> sv_globalCert sv \<noteq> None \<and> globalPair w cfg \<noteq> None
          then sv\<lparr>sv_globalCert := globalPair w cfg\<rparr>
          else sv)"

definition installConfig ::
  "('c, 'k) serverWorld \<Rightarrow> Config \<Rightarrow> vhostEntry list \<Rightarrow> bool \<Rightarrow> 'c server \<Rightarrow> 'c server" where
  "installConfig w cfg vhosts singleMux sv =
     sv\<lparr>sv_state := \<lparr>ss_cfg = cfg, ss_vhosts = vhosts, ss_single = singleMux,
                     ss_lists = startFilters (loadFilters cfg (wd_lists w))\<rparr>,
        sv_retired := listsOf (stopFilters (ss_lists (sv_state sv))) @ sv_retired sv\<rparr>"

text \<open>\<^const>\<open>None\<close>: the registration of a pattern panics and the process dies.\<close>

definition finishReload :: "('c, 'k) serverWorld \<Rightarrow> 'c server \<Rightarrow> 'c server option" where
  "finishReload w sv =
     (case sv_reloading sv of
        None \<Rightarrow> Some sv
      | Some parsed \<Rightarrow>
          (case compileReload w (ss_cfg (sv_state sv)) parsed of
             Inl (NotCompiled (PatternPanic pattern e)) \<Rightarrow> None
           | Inl e \<Rightarrow> Some (sv\<lparr>sv_reloading := None\<rparr>)
           | Inr (cfg, vhosts, singleMux) \<Rightarrow>
               Some (reloadCertificates w cfg
                       ((installConfig w cfg vhosts singleMux sv)\<lparr>sv_reloading := None\<rparr>))))"

definition Reload :: "('c, 'k) serverWorld \<Rightarrow> 'c server \<Rightarrow> 'c server option" where
  "Reload w sv =
     (if sv_reloading sv \<noteq> None \<or> ConfigPath (ss_cfg (sv_state sv)) = [] then Some sv
      else finishReload w (beginReload w sv))"

end
