(* ===== verification/Server_Run.thy ===== *)
theory Server_Run
  imports Server Cli_Props
begin

text \<open>
  Runs of the server: the events that change its state, in any order, from the state that \<open>newServer\<close>
  makes. An event is a request, one half of a reload, one step of a refresher of an address list
  (also of a list that a reload has retired), the start of TLS, or the work of the certificate manager. The invariant
  of the state is here too; what it means for requests and reloads is in \<open>Server_Props\<close>.
\<close>

section \<open>Events\<close>

text \<open>What a refresher does in the background, without its owner.\<close>

datatype listEvent = ListTick nat | ListOnce nat | ListExit nat | ListWorld world

fun listStep :: "listEvent \<Rightarrow> refresh_state \<Rightarrow> refresh_state option" where
  "listStep (ListTick k) st =
     (if k < length (rs_gos st) \<and> \<not> g_onetime (rs_gos st ! k) then Some (tick k st) else None)"
| "listStep (ListOnce k) st =
     (if k < length (rs_gos st) \<and> g_onetime (rs_gos st ! k) then Some (runOnce k st) else None)"
| "listStep (ListExit k) st =
     (if k < length (rs_gos st) \<and> \<not> g_onetime (rs_gos st ! k) \<and>
         g_ctx (rs_gos st ! k) \<in> set (rs_cancelled st)
      then Some (exitGo k st) else None)"
| "listStep (ListWorld w) st = Some (st\<lparr>rs_world := w\<rparr>)"

datatype slot = BlockedSlot | AllowedSlot | TrustedSlot | RetiredSlot nat

datatype ('c, 'k) event =
    Request serveEnv request
  | BeginReload "('c, 'k) serverWorld"
  | FinishReload "('c, 'k) serverWorld"
  | ListEvent slot listEvent
  | IssueEvent "nat \<Rightarrow> ('c, 'k) acmeWorld" bool VHostConfig
  | RenewEvent "nat \<Rightarrow> nat \<Rightarrow> ('c, 'k) acmeWorld" bool
  | StopEvent
  | StartTLS "('c, 'k) serverWorld"

definition setLists :: "filterStates \<Rightarrow> 'c server \<Rightarrow> 'c server" where
  "setLists fs sv = sv\<lparr>sv_state := (sv_state sv)\<lparr>ss_lists := fs\<rparr>\<rparr>"

fun onSlot :: "slot \<Rightarrow> (refresh_state \<Rightarrow> refresh_state option) \<Rightarrow> 'c server \<Rightarrow> 'c server option" where
  "onSlot BlockedSlot f sv =
     (let fs = ss_lists (sv_state sv) in
      map_option (\<lambda>st. setLists (fs\<lparr>fl_blocked := Some st\<rparr>) sv) (Option.bind (fl_blocked fs) f))"
| "onSlot AllowedSlot f sv =
     (let fs = ss_lists (sv_state sv) in
      map_option (\<lambda>st. setLists (fs\<lparr>fl_allowed := Some st\<rparr>) sv) (Option.bind (fl_allowed fs) f))"
| "onSlot TrustedSlot f sv =
     (let fs = ss_lists (sv_state sv) in
      map_option (\<lambda>st. setLists (fs\<lparr>fl_trusted := Some st\<rparr>) sv) (Option.bind (fl_trusted fs) f))"
| "onSlot (RetiredSlot i) f sv =
     (if i < length (sv_retired sv)
      then map_option (\<lambda>st. sv\<lparr>sv_retired := (sv_retired sv)[i := st]\<rparr>) (f (sv_retired sv ! i))
      else None)"

definition onManager :: "('c manager \<Rightarrow> 'c manager) \<Rightarrow> 'c server \<Rightarrow> 'c server option" where
  "onManager f sv = map_option (\<lambda>m. sv\<lparr>sv_acme := Some (f m)\<rparr>) (sv_acme sv)"

fun serverStep :: "('c, 'k) event \<Rightarrow> 'c server \<Rightarrow> 'c server option" where
  "serverStep (Request env r) sv = Some (snd (handler env r sv))"
| "serverStep (BeginReload w) sv = Some (beginReload w sv)"
| "serverStep (FinishReload w) sv = finishReload w sv"
| "serverStep (ListEvent s e) sv = onSlot s (listStep e) sv"
| "serverStep (IssueEvent w c v) sv = onManager (\<lambda>m. snd (issueAndStore w c v m)) sv"
| "serverStep (RenewEvent w c) sv = onManager (checkRenewals w c) sv"
| "serverStep StopEvent sv = onManager managerStop sv"
| "serverStep (StartTLS w) sv = (case startTLS w sv of Inl e \<Rightarrow> None | Inr sv' \<Rightarrow> Some sv')"

inductive serves :: "'c server \<Rightarrow> ('c, 'k) event list \<Rightarrow> 'c server \<Rightarrow> bool" for sv0 where
  start: "serves sv0 [] sv0"
| step: "serves sv0 es sv \<Longrightarrow> serverStep e sv = Some sv' \<Longrightarrow> serves sv0 (es @ [e]) sv'"

section \<open>The invariant\<close>

subsection \<open>Handlers\<close>

text \<open>A request changes a handler in its picker only.\<close>

definition eraseKind :: "routeKind \<Rightarrow> routeKind" where
  "eraseKind k = (case k of ProxyKind px \<Rightarrow> ProxyKind (px\<lparr>px_picker := None\<rparr>) | _ \<Rightarrow> k)"

definition eraseHandler :: "routeHandler \<Rightarrow> routeHandler" where
  "eraseHandler h = h\<lparr>rh_kind := eraseKind (rh_kind h)\<rparr>"

definition eraseMux :: "routeHandler mux \<Rightarrow> routeHandler mux" where
  "eraseMux mx = map (\<lambda>(pt, h). (pt, eraseHandler h)) mx"

definition eraseVHost :: "vhostEntry \<Rightarrow> vhostEntry" where
  "eraseVHost ve = ve\<lparr>ve_mux := eraseMux (ve_mux ve)\<rparr>"

definition compiled :: "serverState \<Rightarrow> bool" where
  "compiled st \<longleftrightarrow>
     (\<exists>isDir vs. compileVHosts isDir (ss_cfg st) = Inr (vs, ss_single st) \<and>
        map eraseVHost (ss_vhosts st) = map eraseVHost vs)"

lemma eraseHandler_sel [simp]:
  "rh_path (eraseHandler h) = rh_path h" "rh_rc (eraseHandler h) = rh_rc h"
  "rh_auth (eraseHandler h) = rh_auth h" "rh_jwt (eraseHandler h) = rh_jwt h"
  by (simp_all add: eraseHandler_def)

lemma serveKind_erase: "eraseHandler (snd (serveKind env cfg h r)) = eraseHandler h"
  by (auto simp: serveKind_def serveProxy_def eraseHandler_def eraseKind_def
      split: routeKind.split option.split prod.split)

lemma serveRoute_erase: "serveRoute env cfg h r js = (res, h', js') \<Longrightarrow> eraseHandler h' = eraseHandler h"
  using serveKind_erase[of env cfg h r]
  by (auto simp: serveRoute_def requireBasicAuth_def split: option.splits prod.splits if_splits)

lemma map_of_eraseMux: "map_of (eraseMux mx) pt = map_option eraseHandler (map_of mx pt)"
  by (induction mx) (auto simp: eraseMux_def)

lemma eraseMux_update:
  "map_of mx pt = Some h \<Longrightarrow> eraseHandler h' = eraseHandler h \<Longrightarrow> eraseMux (AList.update pt h' mx) = eraseMux mx"
  by (induction mx) (auto simp: eraseMux_def split: if_splits)

lemma findHandler_Serve:
  assumes "findHandler mx p = mux_Serve h"
  obtains pt where "mux_match mx p = Some (pt, h)" and "map_of mx pt = Some h" and "cleanPath p = p"
proof -
  have c: "cleanPath p = p"
    using assms unfolding findHandler_def Let_def by (metis muxResult.distinct(1))
  obtain e where e: "mux_match mx p = Some e" "snd e = h"
    using assms unfolding findHandler_def Let_def c
    by (cases "mux_match mx p") (auto split: if_splits)
  moreover have "mux_match mx (CHR ''/'' # tl p) = mux_match mx p" by (simp add: mux_match_def)
  ultimately show thesis
    using mux_match_Some(1)[of mx "tl p" "fst e" h] c by (intro that[of "fst e"]) auto
qed

lemma muxServe_erase:
  assumes "muxServe env cfg mx r js = (res, mx', js')"
  shows "eraseMux mx' = eraseMux mx"
proof (cases "findHandler mx (url_Path (rq_URL r))")
  case (mux_Serve h)
  obtain pt where m: "mux_match mx (url_Path (rq_URL r)) = Some (pt, h)" "map_of mx pt = Some h"
    using findHandler_Serve[OF mux_Serve] by blast
  obtain h' where "serveRoute env cfg h r js = (res, h', js')" "mx' = AList.update pt h' mx"
    using assms mux_Serve m(1) by (auto simp: muxServe_def muxStore_def split: prod.splits)
  with serveRoute_erase eraseMux_update[OF m(2)] show ?thesis by simp
qed (use assms in \<open>auto simp: muxServe_def\<close>)

lemma storeMux_erase:
  assumes "eraseMux mx = eraseMux (ve_mux (ss_vhosts st ! i))"
  shows "map eraseVHost (ss_vhosts (storeMux i mx st)) = map eraseVHost (ss_vhosts st)"
proof -
  have "eraseVHost ((ss_vhosts st ! i)\<lparr>ve_mux := mx\<rparr>) = eraseVHost (ss_vhosts st ! i)"
    using assms by (simp add: eraseVHost_def)
  then show ?thesis
    by (simp add: storeMux_def map_update) (metis list_update_id map_update)
qed

text \<open>What a request leaves as it is.\<close>

lemma handler_frame:
  assumes "handler env r sv = (res, sv')"
  shows "ss_cfg (sv_state sv') = ss_cfg (sv_state sv)" and "ss_single (sv_state sv') = ss_single (sv_state sv)"
    and "ss_lists (sv_state sv') = ss_lists (sv_state sv)" and "sv_retired sv' = sv_retired sv"
    and "sv_reloading sv' = sv_reloading sv" and "sv_bindIP sv' = sv_bindIP sv" and "sv_acme sv' = sv_acme sv"
    and "map eraseVHost (ss_vhosts (sv_state sv')) = map eraseVHost (ss_vhosts (sv_state sv))"
  using assms muxServe_erase storeMux_erase
  by (auto simp: handler_def Let_def storeMux_def split: option.splits if_splits prod.splits)

subsection \<open>Address lists\<close>

text \<open>A list of the configuration and the state of its refreshers belong together.\<close>

fun slot_inv :: "CIDRList option \<Rightarrow> refresh_state option \<Rightarrow> bool" where
  "slot_inv None None = True"
| "slot_inv (Some cl) (Some st) = rinv cl st"
| "slot_inv _ _ = False"

definition lists_inv :: "Config \<Rightarrow> filterStates \<Rightarrow> bool" where
  "lists_inv cfg fs \<longleftrightarrow>
     slot_inv (blockedOf cfg) (fl_blocked fs) \<and> slot_inv (allowedOf cfg) (fl_allowed fs) \<and>
     slot_inv (trustedOf cfg) (fl_trusted fs)"

definition dead :: "refresh_state \<Rightarrow> bool" where
  "dead st \<longleftrightarrow> (\<exists>cl. rinv cl st) \<and> list_all (\<lambda>g. \<not> live st g) (rs_gos st)"

definition built :: "CIDRList option \<Rightarrow> bool" where
  "built l = (case l of None \<Rightarrow> True | Some cl \<Rightarrow> built_ok cl)"

definition lists_built :: "Config \<Rightarrow> bool" where
  "lists_built cfg \<longleftrightarrow> built (blockedOf cfg) \<and> built (allowedOf cfg) \<and> built (trustedOf cfg)"

lemma listStep_rstep: "listStep e st = Some st' \<Longrightarrow> rstep st st'"
  by (cases e) (auto intro: rstep.intros split: if_splits)

lemma dead_Stop: "rinv cl st \<Longrightarrow> dead (Stop st)"
  using Stop_gos_inv[of st] rinv_step[OF rstep.stop, of cl st] by (auto simp: dead_def rinv_def list_all_iff)

lemma live_redate: "live st (g\<lparr>g_last := x\<rparr>) = live st g"
  by (simp add: live_def)

lemma live_eq: "rs_cancelled st' = rs_cancelled st \<Longrightarrow> live st' g = live st g"
  by (simp add: live_def)

text \<open>In the background a list gets no goroutine that is live and was not.\<close>

lemma image_part: "x \<in> set (take k xs) \<Longrightarrow> f x \<in> f ` set xs" "x \<in> set (drop k xs) \<Longrightarrow> f x \<in> f ` set xs"
  by (meson imageI in_set_takeD in_set_dropD)+

lemma listStep_gos:
  assumes "listStep e st = Some st'"
  shows "rs_cancelled st' = rs_cancelled st \<and> live st ` set (rs_gos st') \<subseteq> live st ` set (rs_gos st)"
proof (cases e)
  case (ListTick k)
  then have k: "k < length (rs_gos st)" and st': "st' = tick k st" using assms by (auto split: if_splits)
  have "live st ` set ((rs_gos st)[k := (rs_gos st ! k)\<lparr>g_last := x\<rparr>]) \<subseteq> live st ` set (rs_gos st)" for x
    using set_update_subset_insert[of "rs_gos st" k "(rs_gos st ! k)\<lparr>g_last := x\<rparr>"] nth_mem[OF k]
    by (auto simp: live_redate dest!: subsetD[of _ "insert _ _"])
  with st' show ?thesis by (simp add: tick_def Let_def split: option.split)
next
  case (ListOnce k)
  with assms show ?thesis
    by (auto simp: runOnce_def Let_def image_Un split: if_splits
        intro: image_part)
next
  case (ListExit k)
  with assms show ?thesis
    by (auto simp: exitGo_def image_Un split: if_splits
        intro: image_part)
next
  case (ListWorld w)
  with assms show ?thesis by auto
qed

lemma dead_listStep: "dead st \<Longrightarrow> listStep e st = Some st' \<Longrightarrow> dead st'"
  using listStep_gos[of e st st'] rinv_step[OF listStep_rstep] live_eq[of st' st]
  unfolding dead_def list_all_iff by (metis (no_types, lifting) image_iff subsetD)

lemma slot_inv_listStep:
  "slot_inv l (Some st) \<Longrightarrow> listStep e st = Some st' \<Longrightarrow> slot_inv l (Some st')"
  by (cases l) (auto intro: rinv_step listStep_rstep)

lemma slot_inv_load:
  assumes "built l" and "loadList l w = (s, w')"
  shows "slot_inv l (map_option StartRefresh s)"
proof (cases l)
  case (Some cl)
  then have "rinv cl (StartRefresh (Load (rinit cl w)))"
    using assms(1) by (intro rinv_step[OF rstep.start] rinv_step[OF rstep.load] rinv_init) (simp add: built_def)
  with assms Some show ?thesis by (auto simp: loadList_def Let_def)
qed (use assms in \<open>auto simp: loadList_def\<close>)

lemma lists_inv_load:
  assumes "lists_built cfg"
  shows "lists_inv cfg (startFilters (loadFilters cfg w))"
proof -
  obtain b w1 where b: "loadList (blockedOf cfg) w = (b, w1)" by fastforce
  obtain a w2 where a: "loadList (allowedOf cfg) w1 = (a, w2)" by fastforce
  obtain t w3 where t: "loadList (trustedOf cfg) w2 = (t, w3)" by fastforce
  from slot_inv_load[OF _ b] slot_inv_load[OF _ a] slot_inv_load[OF _ t] assms show ?thesis
    by (simp add: lists_inv_def lists_built_def startFilters_def mapLists_def loadFilters_def b a t)
qed

lemma dead_stopFilters:
  assumes "lists_inv cfg fs" and "st \<in> set (listsOf (stopFilters fs))"
  shows "dead st"
proof -
  have "dead (Stop s)" if "slot_inv l (Some s)" for l s
    using that dead_Stop by (cases l) auto
  with assms show ?thesis
    by (auto simp: listsOf_def stopFilters_def mapLists_def lists_inv_def split: option.splits)
qed

lemma lists_inv_cong:
  "cfg_IPFilter c' = cfg_IPFilter c \<Longrightarrow> cfg_TrustedProxies c' = cfg_TrustedProxies c \<Longrightarrow> lists_built c' = lists_built c"
  by (simp add: lists_built_def blockedOf_def allowedOf_def trustedOf_def)

text \<open>The lists of a parsed configuration are as the builders leave them.\<close>

lemma buildCIDRList_built: "buildCIDRList es = Inr l \<Longrightarrow> built l"
  using buildCIDRList_ok by (cases l) (auto simp: built_def)

lemma buildIPFilter_built:
  "buildIPFilter c = Inr (Some f) \<Longrightarrow> built (f_blocked f) \<and> built (f_allowed f)"
  by (auto simp: buildIPFilter_def split: option.splits sum.splits if_splits intro: buildCIDRList_built)

lemma buildTrustedProxies_built: "buildTrustedProxies es = Inr tp \<Longrightarrow> built (map_option tp_list tp)"
  by (auto simp: buildTrustedProxies_def o_def option.map_comp option.map_ident split: sum.splits
      dest!: buildCIDRList_built)

lemma lists_built_iff:
  "lists_built cfg \<longleftrightarrow>
     (case cfg_IPFilter cfg of None \<Rightarrow> True | Some f \<Rightarrow> built (f_blocked f) \<and> built (f_allowed f)) \<and>
     built (map_option tp_list (cfg_TrustedProxies cfg))"
  by (auto simp: lists_built_def blockedOf_def allowedOf_def trustedOf_def built_def split: option.splits)

lemma globalConfig_built:
  assumes "globalConfig g = Inr cfg"
  shows "lists_built cfg"
proof -
  obtain ipf tp where "buildIPFilter (fg_IPFilter g) = Inr ipf" "buildTrustedProxies (fg_TrustedProxies g) = Inr tp"
    and "cfg_IPFilter cfg = ipf" "cfg_TrustedProxies cfg = tp"
    using assms by (auto simp: globalConfig_def Let_def split: sum.splits list.splits)
  then show ?thesis
    using buildIPFilter_built buildTrustedProxies_built by (auto simp: lists_built_iff split: option.splits)
qed

lemma loadConfigFile_built:
  assumes "loadConfigFile readFile env decode path = Inr cfg"
  shows "lists_built cfg"
proof -
  obtain g cfg0 where g: "globalConfig g = Inr cfg0" and "cfg_IPFilter cfg = cfg_IPFilter cfg0"
    "cfg_TrustedProxies cfg = cfg_TrustedProxies cfg0"
    using assms by (auto simp: loadConfigFile_def configOf_def split: option.splits sum.splits if_splits)
  with globalConfig_built[OF g] lists_inv_cong show ?thesis by metis
qed

lemma baseConfig_built: "baseConfig en args = Inr cfg \<Longrightarrow> lists_built cfg"
  by (auto simp: baseConfig_def Let_def lists_built_iff zeroConfig_def built_def
      split: if_splits sum.splits dest!: loadConfigFile_built)

text \<open>The command line adds well-formed sources.\<close>

definition keeps_built :: "globalSetter \<Rightarrow> bool" where
  "keeps_built f \<longleftrightarrow> (\<forall>v c c'. f v c = Inr c' \<longrightarrow> lists_built c \<longrightarrow> lists_built c')"

lemma built_add: "built l \<Longrightarrow> parseFilterEntry v = Inr src \<Longrightarrow> built (Some (addToCIDRList l src))"
  using addToCIDRList_ok[of l src] parseFilterEntry_source_ok by (cases l) (auto simp: built_def)

lemma keeps_built_pure:
  "(\<And>v c. cfg_IPFilter (g v c) = cfg_IPFilter c \<and> cfg_TrustedProxies (g v c) = cfg_TrustedProxies c) \<Longrightarrow>
   keeps_built (\<lambda>v c. Inr (g v c))"
  by (simp add: keeps_built_def lists_built_iff)

lemma keeps_built_lists:
  "keeps_built addTrustedProxy" "keeps_built (addFilterEntry arg)" "keeps_built setPort" "keeps_built setGlobalAuth"
proof -
  show "keeps_built addTrustedProxy"
    by (auto simp: keeps_built_def addTrustedProxy_def lists_built_iff split: sum.splits intro: built_add)
  show "keeps_built (addFilterEntry arg)"
    by (auto simp: keeps_built_def addFilterEntry_def Let_def lists_built_iff emptyFilter_def built_def[of None]
        split: sum.splits option.splits intro: built_add)
  show "keeps_built setPort" "keeps_built setGlobalAuth"
    by (auto simp: keeps_built_def setPort_def setGlobalAuth_def lists_built_iff split: option.splits)
qed

lemma setters_keep_built: "list_all (\<lambda>(arg, f). keeps_built f) globalValueFlags"
  by (simp add: globalValueFlags_def keeps_built_pure keeps_built_lists onACME_def onJWT_def)

lemma cliStep_built:
  assumes "cliStep arg rest st = Inr (st', rest')" and "lists_built (cs_cfg st)"
  shows "lists_built (cs_cfg st')"
  using assms(1)
proof (cases rule: cliStep_cfg)
  case (setter f v)
  with assms(2) setters_keep_built show ?thesis by (fastforce simp: list_all_iff keeps_built_def)
next
  case (switch f)
  with assms(2) show ?thesis by (auto simp: globalSwitches_def onACME_def onJWT_def lists_built_iff)
qed (use assms(2) in \<open>simp add: lists_built_iff\<close>)

lemma parseAll_built:
  assumes "parseAll en args = Inr (c, b)"
  shows "lists_built c"
proof -
  obtain base st st' where base: "baseConfig en args = Inr base"
    and l: "cliLoop (expandArgs args) (cliStart (base\<lparr>ConfigPath := configPathOf en args, OriginalArgs := args\<rparr>)) = Inr st"
    and f: "flushVHost st = Inr st'" "c = cs_cfg st'"
    using assms by (auto simp: parseAll_def applyCLI_def split: sum.splits)
  have "lists_built (cs_cfg st)"
    by (rule cliLoop_invariant[where P = "\<lambda>st. lists_built (cs_cfg st)", OF l])
       (use baseConfig_built[OF base] cliStep_built in \<open>auto simp: cliStart_def lists_built_iff\<close>)
  with flushVHost_cfg[OF f(1)] f(2) show ?thesis by (auto simp: lists_built_iff)
qed

subsection \<open>Settings that are fixed\<close>

definition sameFixed :: "Config \<Rightarrow> Config \<Rightarrow> bool" where
  "sameFixed a b \<longleftrightarrow>
     Port a = Port b \<and> Listen a = Listen b \<and> GlobalTLSCert a = GlobalTLSCert b \<and>
     GlobalTLSKey a = GlobalTLSKey b \<and> cfg_ACME a = cfg_ACME b"

lemma revertFixed_same: "sameFixed (revertFixed old new) old"
  by (auto simp: sameFixed_def revertFixed_def Let_def acmeConfigChanged_def sameACMEGlobal_def)

lemma revertFixed_frame:
  "cfg_IPFilter (revertFixed old new) = cfg_IPFilter new"
  "cfg_TrustedProxies (revertFixed old new) = cfg_TrustedProxies new"
  "cfg_JWTAuth (revertFixed old new) = cfg_JWTAuth new" "GlobalAuth (revertFixed old new) = GlobalAuth new"
  "OriginalArgs (revertFixed old new) = OriginalArgs new"
  by (simp_all add: revertFixed_def Let_def)

lemma reloadCertificates_frame [simp]:
  "sv_state (reloadCertificates w cfg sv) = sv_state sv" "sv_retired (reloadCertificates w cfg sv) = sv_retired sv"
  "sv_reloading (reloadCertificates w cfg sv) = sv_reloading sv" "sv_bindIP (reloadCertificates w cfg sv) = sv_bindIP sv"
  by (auto simp: reloadCertificates_def Let_def split: option.split)

text \<open>What a reload that goes through leaves.\<close>

lemma finishReload_cases:
  assumes "finishReload w sv = Some sv'"
  obtains (idle) "sv_reloading sv = None" "sv' = sv"
  | (refused) "sv' = sv\<lparr>sv_reloading := None\<rparr>"
  | (installed) new0 b vs single where "sv_reloading sv = Some (Inr (new0, b))" "validate new0 = None"
      "compileVHosts (wd_isDir w) (revertFixed (ss_cfg (sv_state sv)) new0) = Inr (vs, single)"
      "sv' = reloadCertificates w (revertFixed (ss_cfg (sv_state sv)) new0)
         ((installConfig w (revertFixed (ss_cfg (sv_state sv)) new0) vs single sv)\<lparr>sv_reloading := None\<rparr>)"
proof (cases "sv_reloading sv")
  case None
  moreover from this assms have "sv' = sv" by (simp add: finishReload_def)
  ultimately show thesis by (rule idle)
next
  case (Some parsed)
  show thesis
  proof (cases "compileReload w (ss_cfg (sv_state sv)) parsed")
    case (Inl e)
    with assms Some have "sv' = sv\<lparr>sv_reloading := None\<rparr>"
      by (cases e) (simp_all add: finishReload_def split: routeError.splits)
    then show thesis by (rule refused)
  next
    case (Inr r)
    obtain cfg vs single where r: "r = (cfg, vs, single)" by (cases r)
    with Inr obtain new0 b where "parsed = Inr (new0, b)" "validate new0 = None"
      "cfg = revertFixed (ss_cfg (sv_state sv)) new0" "compileVHosts (wd_isDir w) cfg = Inr (vs, single)"
      by (auto simp: compileReload_def split: sum.splits option.splits)
    moreover from assms Some Inr r have "sv' = reloadCertificates w cfg
        ((installConfig w cfg vs single sv)\<lparr>sv_reloading := None\<rparr>)"
      by (simp add: finishReload_def)
    ultimately show thesis using Some by (intro installed) simp_all
  qed
qed

section \<open>Every run keeps the invariant\<close>

definition parsed_ok :: "(parseError + Config \<times> bool) option \<Rightarrow> bool" where
  "parsed_ok p = (case p of Some (Inr (c, b)) \<Rightarrow> lists_built c | _ \<Rightarrow> True)"

definition server_inv :: "Config \<Rightarrow> string \<Rightarrow> 'c server \<Rightarrow> bool" where
  "server_inv c0 bindIP sv \<longleftrightarrow>
     sameFixed (ss_cfg (sv_state sv)) c0 \<and> sv_bindIP sv = bindIP \<and> compiled (sv_state sv) \<and>
     lists_inv (ss_cfg (sv_state sv)) (ss_lists (sv_state sv)) \<and> list_all dead (sv_retired sv) \<and>
     parsed_ok (sv_reloading sv)"

lemma compiledI: "compileVHosts isDir (ss_cfg st) = Inr (ss_vhosts st, ss_single st) \<Longrightarrow> compiled st"
  unfolding compiled_def by blast

lemma compiled_lists [simp]: "compiled (st\<lparr>ss_lists := fs\<rparr>) = compiled st"
  by (simp add: compiled_def)

lemma server_inv_request:
  assumes "server_inv c0 ip sv" and "handler env r sv = (res, sv')"
  shows "server_inv c0 ip sv'"
  using assms(1) handler_frame[OF assms(2)] by (simp add: server_inv_def compiled_def)

lemma server_inv_begin: "server_inv c0 ip sv \<Longrightarrow> server_inv c0 ip (beginReload w sv)"
  using parseAll_built[of "wd_cli w" "OriginalArgs (ss_cfg (sv_state sv))"]
  by (auto simp: server_inv_def beginReload_def Let_def parsed_ok_def split: sum.split)

lemma server_inv_install:
  assumes "server_inv c0 ip sv" and "lists_built new0" and "cfg = revertFixed (ss_cfg (sv_state sv)) new0"
    and "compileVHosts (wd_isDir w) cfg = Inr (vs, single)"
  shows "server_inv c0 ip (reloadCertificates w cfg ((installConfig w cfg vs single sv)\<lparr>sv_reloading := None\<rparr>))"
proof -
  have "sameFixed cfg c0"
    using assms(1) revertFixed_same[of "ss_cfg (sv_state sv)" new0] by (simp add: assms(3) server_inv_def sameFixed_def)
  moreover have "lists_built cfg" using assms(2) by (simp add: assms(3) lists_built_iff revertFixed_frame)
  moreover have "list_all dead (listsOf (stopFilters (ss_lists (sv_state sv))))"
    using assms(1) dead_stopFilters by (auto simp: server_inv_def list_all_iff)
  ultimately show ?thesis
    using assms(1,4) lists_inv_load[of cfg "wd_lists w"]
    by (auto simp: server_inv_def installConfig_def parsed_ok_def intro!: compiledI)
qed

lemma server_inv_finish:
  assumes "server_inv c0 ip sv" and "finishReload w sv = Some sv'"
  shows "server_inv c0 ip sv'"
  using assms(2)
proof (cases rule: finishReload_cases)
  case idle
  with assms(1) show ?thesis by simp
next
  case refused
  with assms(1) show ?thesis by (simp add: server_inv_def parsed_ok_def)
next
  case (installed new0 b vs single)
  have "lists_built new0" using assms(1) installed(1) by (simp add: server_inv_def parsed_ok_def)
  from server_inv_install[OF assms(1) this refl installed(3)] installed(4) show ?thesis by simp
qed

lemma server_inv_list:
  assumes "server_inv c0 ip sv" and "onSlot s (listStep e) sv = Some sv'"
  shows "server_inv c0 ip sv'"
proof (cases s)
  case (RetiredSlot i)
  then obtain st where i: "i < length (sv_retired sv)" and st: "listStep e (sv_retired sv ! i) = Some st"
    and sv': "sv' = sv\<lparr>sv_retired := (sv_retired sv)[i := st]\<rparr>"
    using assms(2) by (auto split: if_splits)
  have "dead (sv_retired sv ! i)" using assms(1) i by (simp add: server_inv_def list_all_length)
  from dead_listStep[OF this st] assms(1) show ?thesis
    by (auto simp: sv' server_inv_def list_all_iff dest!: set_update_subset_insert[THEN subsetD])
qed (use assms slot_inv_listStep in
    \<open>auto simp: server_inv_def setLists_def lists_inv_def Let_def bind_eq_Some_conv\<close>)

text \<open>The start of the certificates touches nothing else.\<close>

lemma startTLS_frame:
  assumes "startTLS w sv = Inr sv'"
  shows "\<exists>a g. sv' = sv\<lparr>sv_acme := a, sv_globalCert := g\<rparr>"
  using assms
  by (cases sv) (auto simp: startTLS_def Let_def split: option.splits if_splits prod.splits)

lemma server_inv_step:
  assumes "server_inv c0 ip sv" and "serverStep e sv = Some sv'"
  shows "server_inv c0 ip sv'"
proof (cases e)
  case (Request env r)
  with assms show ?thesis by (cases "handler env r sv") (auto intro: server_inv_request)
next
  case (BeginReload w)
  with assms server_inv_begin show ?thesis by auto
next
  case (FinishReload w)
  with assms(2) have "finishReload w sv = Some sv'" by simp
  with assms(1) show ?thesis by (rule server_inv_finish)
next
  case (ListEvent s le)
  with assms(2) have "onSlot s (listStep le) sv = Some sv'" by simp
  with assms(1) show ?thesis by (rule server_inv_list)
next
  case (StartTLS w)
  with assms(2) have "startTLS w sv = Inr sv'" by (simp split: sum.splits)
  from startTLS_frame[OF this] assms(1) show ?thesis by (auto simp: server_inv_def)
qed (use assms in \<open>auto simp: onManager_def server_inv_def\<close>)

lemma server_inv_start:
  assumes "parseAll en args = Inr (cfg, b)" and "newServer w cfg = Inr sv"
  shows "server_inv cfg (sv_bindIP sv) sv"
  using assms(2) lists_inv_load[OF parseAll_built[OF assms(1)], of "wd_lists w"]
  by (auto simp: newServer_def server_inv_def sameFixed_def parsed_ok_def split: sum.splits intro!: compiledI)

lemma serves_inv:
  assumes "serves sv0 es sv" and "server_inv c0 ip sv0"
  shows "server_inv c0 ip sv"
  using assms by (induction rule: serves.induct) (auto intro: server_inv_step)

end
