(* ===== verification/Server_Props.thy ===== *)
theory Server_Props
  imports Server_Run Vhosts_Props
begin

text \<open>
  What holds of the server in every run: which answer a request gets, in terms of the live
  configuration, what a reload may and may not change, and what becomes of the lists it replaces.
\<close>

section \<open>The answer to a request\<close>

subsection \<open>In terms of the configuration\<close>

definition jwtPasses :: "serveEnv \<Rightarrow> Config \<Rightarrow> RouteConfig \<Rightarrow> request \<Rightarrow> jwtState \<Rightarrow> bool" where
  "jwtPasses env cfg rc r js =
     (case jwtFor rc cfg of
        None \<Rightarrow> True
      | Some j \<Rightarrow> fst (jwtValidation (se_lib env) (se_world env) r rc j js) = None)"

definition basicPasses :: "Config \<Rightarrow> RouteConfig \<Rightarrow> request \<Rightarrow> bool" where
  "basicPasses cfg rc r = (case effectiveAuth rc cfg of None \<Rightarrow> True | Some a \<Rightarrow> checkBasicAuth r a)"

definition refusals :: "response list" where
  "refusals =
     [basicAuthReply, httpError noHeader ''Unauthorized: missing token'' 401,
      httpError noHeader ''Unauthorized'' 401,
      httpError noHeader ''Forbidden: user not authorised for this route'' 403,
      httpError noHeader ''Forbidden: route requires explicit user access'' 403]"

text \<open>The route a path belongs to is the longest one above it.\<close>

definition longestRoute :: "routes \<Rightarrow> string \<Rightarrow> string \<times> RouteConfig \<Rightarrow> bool" where
  "longestRoute rs p prc \<longleftrightarrow>
     prc \<in> set rs \<and> routeCovers (fst prc) p \<and>
     (\<forall>(R', rc') \<in> set rs. routeCovers R' p \<longrightarrow> length R' \<le> length (fst prc))"

text \<open>With credentials the route's handler answers, whichever upstream its picker has come to;
  without them the answer is one of the refusals.\<close>

definition handlerFor :: "Config \<Rightarrow> string \<Rightarrow> string \<times> RouteConfig \<Rightarrow> routeHandler \<Rightarrow> bool" where
  "handlerFor cfg p prc h \<longleftrightarrow>
     (\<exists>isDir pt h0. registered isDir cfg prc (if p = fst prc then fst prc else withFinalSlash (fst prc)) pt h0 \<and>
        eraseHandler h = eraseHandler h0)"

definition routeAnswer ::
  "serveEnv \<Rightarrow> Config \<Rightarrow> request \<Rightarrow> jwtState \<Rightarrow> string \<times> RouteConfig \<Rightarrow> outcome \<Rightarrow> bool" where
  "routeAnswer env cfg r js prc res \<longleftrightarrow>
     (if jwtPasses env cfg (snd prc) r js \<and> basicPasses cfg (snd prc) r
      then (\<exists>h. handlerFor cfg (url_Path (rq_URL r)) prc h \<and> res = fst (serveKind env cfg h r))
      else res \<in> Respond ` set refusals)"

definition vhostAnswer :: "serveEnv \<Rightarrow> Config \<Rightarrow> VHost \<Rightarrow> request \<Rightarrow> jwtState \<Rightarrow> outcome \<Rightarrow> bool" where
  "vhostAnswer env cfg vh r js res \<longleftrightarrow>
     (let p = url_Path (rq_URL r); redirected = (\<lambda>q. res = MovedPermanently q (url_RawQuery (rq_URL r))) in
      if cleanPath p \<noteq> p then redirected (cleanPath p) \<or> redirected (cleanPath p @ ''/'')
      else (\<exists>prc. longestRoute (Routes vh) p prc \<and> routeAnswer env cfg r js prc res) \<or>
           (\<exists>rc. (p @ ''/'', rc) \<in> set (Routes vh)) \<and> (\<forall>(R, rc) \<in> set (Routes vh). R \<noteq> p) \<and>
             redirected (p @ ''/'') \<or>
           (\<forall>(R, rc) \<in> set (Routes vh). \<not> routeCovers R p) \<and> res = Respond notFound)"

definition answer :: "serveEnv \<Rightarrow> Config \<Rightarrow> request \<Rightarrow> jwtState \<Rightarrow> outcome \<Rightarrow> bool" where
  "answer env cfg r js res \<longleftrightarrow>
     (if \<not> filterAllows cfg r then res = CloseConnection
      else (case selectVHost (VHosts cfg) (requestHost (rq_Host r)) of
              None \<Rightarrow> res = CloseConnection
            | Some vh \<Rightarrow> vhostAnswer env cfg vh r js res))"

definition plainVHosts :: "Config \<Rightarrow> bool" where
  "plainVHosts cfg \<longleftrightarrow> list_all (\<lambda>vh. plainRoutes (Routes vh)) (VHosts cfg)"

subsection \<open>Erasure and the multiplexer\<close>

lemma mux_match_erase:
  "mux_match (eraseMux mx) p = map_option (apsnd eraseHandler) (mux_match mx p)"
proof -
  have "multi_match (eraseMux mx) segs n = map_option (apsnd eraseHandler) (multi_match mx segs n)" for segs n
    by (induction n) (auto simp: map_of_eraseMux option.map_comp o_def split: option.split)
  then show ?thesis by (simp add: mux_match_def Let_def map_of_eraseMux split: option.split)
qed

lemma exactMatch_apsnd: "exactMatch (map_option (apsnd f) n) p = exactMatch n p"
  by (cases n) (auto simp: exactMatch_def)

lemma findHandler_erase: "findHandler (eraseMux mx) p = map_muxResult eraseHandler (findHandler mx p)"
  by (auto simp: findHandler_def Let_def mux_match_erase exactMatch_apsnd split: option.split)

lemma findHandler_same:
  assumes "eraseMux mx = eraseMux mx0"
  shows "map_muxResult eraseHandler (findHandler mx p) = map_muxResult eraseHandler (findHandler mx0 p)"
  using assms findHandler_erase by metis

lemma findHandler_unclean:
  assumes "cleanPath p \<noteq> p"
  shows "findHandler mx p \<in> {mux_Redirect (cleanPath p), mux_Redirect (cleanPath p @ ''/'')}"
  using assms by (simp add: findHandler_def Let_def)

text \<open>A handler is made from its route and two settings of the configuration.\<close>

lemma registered_cfg:
  assumes "GlobalAuth cfg' = GlobalAuth cfg" and "cfg_JWTAuth cfg' = cfg_JWTAuth cfg"
  shows "registered isDir cfg' = registered isDir cfg"
proof -
  have "buildRouteHandler isDir s pk rc cfg' = buildRouteHandler isDir s pk rc cfg" for s pk rc
    using assms by (simp add: buildRouteHandler_def effectiveAuth_def jwtFor_def split: sum.split)
  then show ?thesis by (intro ext) (simp add: registered_def)
qed

lemma registered_handler:
  assumes "registered isDir cfg prc s pt h"
  shows "rh_rc h = snd prc" and "rh_auth h = effectiveAuth (snd prc) cfg" and "rh_jwt h = jwtFor (snd prc) cfg"
proof -
  obtain us where "buildRouteHandler isDir s (pickerOf us) (snd prc) cfg = Inr h"
    using assms by (auto simp: registered_def)
  then have "\<exists>k. h = \<lparr>rh_path = s, rh_rc = snd prc, rh_kind = k, rh_auth = effectiveAuth (snd prc) cfg,
      rh_jwt = jwtFor (snd prc) cfg\<rparr>"
    by (auto simp: buildRouteHandler_def split: sum.splits)
  then show "rh_rc h = snd prc" "rh_auth h = effectiveAuth (snd prc) cfg" "rh_jwt h = jwtFor (snd prc) cfg"
    by auto
qed

subsection \<open>From the handler to the configuration\<close>

lemma jwtValidation_refuses:
  "fst (jwtValidation lib w r rc j js) = Some resp \<Longrightarrow> resp \<in> set refusals"
  by (auto simp: jwtValidation_def Let_def refusals_def split: if_splits sum.splits prod.splits authorisation.splits)

text \<open>The two wrappers of a route.\<close>

lemma serveRoute_answer:
  assumes "serveRoute env cfg h r js = (res, h', js')" and "rh_auth h = effectiveAuth rc cfg0"
    and "rh_jwt h = jwtFor rc cfg0" and "rh_rc h = rc"
    and "GlobalAuth cfg0 = GlobalAuth cfg" and "cfg_JWTAuth cfg0 = cfg_JWTAuth cfg"
  shows "if jwtPasses env cfg rc r js \<and> basicPasses cfg rc r then res = fst (serveKind env cfg h r)
         else res \<in> Respond ` set refusals"
proof -
  have a: "rh_auth h = effectiveAuth rc cfg" "rh_jwt h = jwtFor rc cfg"
    using assms(2,3,5,6) by (simp_all add: effectiveAuth_def jwtFor_def)
  have b: "fst (requireBasicAuth env cfg h r) =
      (if basicPasses cfg rc r then fst (serveKind env cfg h r) else Respond basicAuthReply)"
    by (simp add: requireBasicAuth_def basicPasses_def a split: option.split)
  have c: "basicAuthReply \<in> set refusals" by (simp add: refusals_def)
  show ?thesis
  proof (cases "jwtFor rc cfg")
    case None
    then show ?thesis
      using assms(1) b c by (cases "requireBasicAuth env cfg h r") (simp add: serveRoute_def jwtPasses_def a)
  next
    case (Some j)
    obtain o1 js1 where v: "jwtValidation (se_lib env) (se_world env) r rc j js = (o1, js1)" by fastforce
    with Some assms(1,4) b c jwtValidation_refuses[of "se_lib env" "se_world env" r rc j js] show ?thesis
      by (cases "requireBasicAuth env cfg h r")
         (auto simp: serveRoute_def jwtPasses_def a split: option.splits)
  qed
qed

text \<open>The multiplexer of a vhost.\<close>

lemma muxServe_answer:
  assumes c: "compileVHost isDir cfg0 vh = Inr ve" and e: "eraseMux mx = eraseMux (ve_mux ve)"
    and pl: "plainRoutes (Routes vh)" and m: "muxServe env cfg mx r js = (res, mx', js')"
    and same: "GlobalAuth cfg0 = GlobalAuth cfg" "cfg_JWTAuth cfg0 = cfg_JWTAuth cfg"
  shows "vhostAnswer env cfg vh r js res"
proof (cases "cleanPath (url_Path (rq_URL r)) = url_Path (rq_URL r)")
  case False
  then show ?thesis
    using m findHandler_unclean[of "url_Path (rq_URL r)" mx]
    by (auto simp: muxServe_def vhostAnswer_def Let_def)
next
  case clean: True
  let ?p = "url_Path (rq_URL r)"
  have b: "buildMux isDir (Routes vh) cfg0 = Inr (ve_mux ve)"
    using c by (auto simp: compileVHost_def split: sum.splits)
  note d = dispatch_routes[OF b pl clean]
  note s = findHandler_same[OF e, of ?p]
  show ?thesis
  proof (cases "findHandler mx ?p")
    case (mux_Serve h)
    with s obtain h0 where h0: "findHandler (ve_mux ve) ?p = mux_Serve h0" "eraseHandler h0 = eraseHandler h"
      by (cases "findHandler (ve_mux ve) ?p") auto
    with d obtain R rc pt where l: "longestRoute (Routes vh) ?p (R, rc)"
      and g: "registered isDir cfg0 (R, rc) (if ?p = R then R else withFinalSlash R) pt h0"
      by (auto simp: dispatch_spec_def longestRoute_def)
    obtain h' js'' where sv: "serveRoute env cfg h r js = (res, h', js'')"
      using m mux_Serve by (cases "serveRoute env cfg h r js") (simp add: muxServe_def)
    have hs: "rh_auth h = effectiveAuth rc cfg0" "rh_jwt h = jwtFor rc cfg0" "rh_rc h = rc"
      using registered_handler[OF g] h0(2) eraseHandler_sel(2-4)[of h] eraseHandler_sel(2-4)[of h0] by auto
    have "handlerFor cfg ?p (R, rc) h"
      unfolding handlerFor_def registered_cfg[OF same, symmetric] fst_conv using g h0(2) by metis
    with serveRoute_answer[OF sv hs same] have "routeAnswer env cfg r js (R, rc) res"
      by (auto simp: routeAnswer_def)
    with l clean show ?thesis by (auto simp: vhostAnswer_def Let_def)
  next
    case (mux_Redirect q)
    with s have "findHandler (ve_mux ve) ?p = mux_Redirect q" by (cases "findHandler (ve_mux ve) ?p") auto
    with d have "q = ?p @ ''/''" "\<exists>rc. (q, rc) \<in> set (Routes vh)" "\<forall>(R, rc) \<in> set (Routes vh). R \<noteq> ?p"
      by (auto simp: dispatch_spec_def)
    with m mux_Redirect clean show ?thesis by (auto simp: vhostAnswer_def Let_def muxServe_def)
  next
    case mux_NotFound
    with s have "findHandler (ve_mux ve) ?p = mux_NotFound" by (cases "findHandler (ve_mux ve) ?p") auto
    with d have "\<forall>(R, rc) \<in> set (Routes vh). \<not> routeCovers R ?p" by (simp add: dispatch_spec_def)
    with m mux_NotFound clean show ?thesis by (auto simp: vhostAnswer_def Let_def muxServe_def)
  qed
qed

text \<open>The choice of the vhost.\<close>

lemma find_index:
  "find P xs = map_option (nth xs) (find (\<lambda>i. P (xs ! i)) [0..<length xs])"
proof -
  have "find P (map f is) = map_option f (find (\<lambda>i. P (f i)) is)" for f :: "nat \<Rightarrow> 'a" and "is"
    by (induction "is") auto
  from this[of "nth xs" "[0..<length xs]"] show ?thesis by (simp add: map_nth)
qed

lemma eraseVHost_sel [simp]: "ve_domains (eraseVHost ve) = ve_domains ve" "ve_mux (eraseVHost ve) = eraseMux (ve_mux ve)"
  by (simp_all add: eraseVHost_def)

lemma vhostIndex_dispatch:
  assumes "map eraseVHost (ss_vhosts st) = map eraseVHost vs" and "ss_single st \<Longrightarrow> length vs = 1"
  shows "dispatchHost (vs, ss_single st) host = map_option (nth vs) (vhostIndex st host)"
proof (cases "ss_single st")
  case True
  with assms(2) show ?thesis by (cases vs) (auto simp: dispatchHost_def vhostIndex_def)
next
  case False
  have l: "length vs = length (ss_vhosts st)" using assms(1) map_eq_imp_length_eq by metis
  have "matchHost (vs ! i) h = matchHost (ss_vhosts st ! i) h" if "i < length vs" for i h
    using arg_cong[OF assms(1), of "\<lambda>l. ve_domains (l ! i)"] that l by (simp add: matchHost_def)
  then have "find (\<lambda>i. matchHost (ss_vhosts st ! i) (requestHost host)) [0..<length (ss_vhosts st)] =
      find (\<lambda>i. matchHost (vs ! i) (requestHost host)) [0..<length vs]"
    by (intro find_cong) (simp_all add: l)
  then show ?thesis using False find_index[of "\<lambda>ve. matchHost ve (requestHost host)" vs]
    by (simp add: dispatchHost_def vhostIndex_def)
qed

lemma vhostIndex_bound:
  "vhostIndex st host = Some i \<Longrightarrow> (ss_single st \<Longrightarrow> length (ss_vhosts st) = 1) \<Longrightarrow> i < length (ss_vhosts st)"
  by (auto simp: vhostIndex_def find_Some_iff split: if_splits)

text \<open>The whole handler, past the challenges of the certificate authority.\<close>

lemma compileVHosts_single: "compileVHosts isDir cfg = Inr (vs, True) \<Longrightarrow> length vs = 1"
  by (auto simp: compileVHosts_def Let_def split: sum.splits)

lemma compileVHosts_plain:
  assumes "plainVHosts cfg" and "selectVHost (VHosts cfg) h = Some vh"
  shows "plainRoutes (Routes vh)"
proof -
  have "vh \<in> set (VHosts cfg)"
    using assms(2) by (cases "VHosts cfg") (auto simp: selectVHost_def find_Some_iff split: if_splits option.splits)
  with assms(1) show ?thesis by (simp add: plainVHosts_def list_all_iff)
qed

lemma liveConfig_sel [simp]:
  "VHosts (liveConfig st) = VHosts (ss_cfg st)" "GlobalAuth (liveConfig st) = GlobalAuth (ss_cfg st)"
  "cfg_JWTAuth (liveConfig st) = cfg_JWTAuth (ss_cfg st)"
  by (simp_all add: liveConfig_def)

lemma handler_answer:
  assumes c: "compiled (sv_state sv)" and p: "plainVHosts (ss_cfg (sv_state sv))"
    and n: "challengeReply (sv_acme sv) r = None" and h: "handler env r sv = (res, sv')"
  shows "answer env (liveConfig (sv_state sv)) r (sv_jwt sv) res"
proof -
  let ?st = "sv_state sv"
  obtain isDir vs where vs: "compileVHosts isDir (ss_cfg ?st) = Inr (vs, ss_single ?st)"
    and e: "map eraseVHost (ss_vhosts ?st) = map eraseVHost vs" using c by (auto simp: compiled_def)
  from vs compileVHosts_single have one: "ss_single ?st \<Longrightarrow> length vs = 1" by auto
  have l: "length (ss_vhosts ?st) = length vs" using e map_eq_imp_length_eq by blast
  note d = dispatch_select[OF vs, of "rq_Host r"]
  note i = vhostIndex_dispatch[OF e one, of "rq_Host r"]
  show ?thesis
  proof (cases "filterAllows (liveConfig ?st) r \<and> vhostIndex ?st (rq_Host r) \<noteq> None")
    case False
    with h n i d show ?thesis by (auto simp: handler_def Let_def answer_def)
  next
    case True
    then obtain k where k: "vhostIndex ?st (rq_Host r) = Some k" and f: "filterAllows (liveConfig ?st) r" by auto
    have b: "k < length vs" using vhostIndex_bound[OF k] one l by simp
    from d i k obtain vh where vh: "selectVHost (VHosts (ss_cfg ?st)) (requestHost (rq_Host r)) = Some vh"
      and ve: "compileVHost isDir (ss_cfg ?st) vh = Inr (vs ! k)" by (auto simp: option_rel_Some1)
    have m: "eraseMux (ve_mux (ss_vhosts ?st ! k)) = eraseMux (ve_mux (vs ! k))"
      using arg_cong[OF e, of "\<lambda>x. ve_mux (x ! k)"] b l by simp
    obtain mx' js' where s: "muxServe env (liveConfig ?st) (ve_mux (ss_vhosts ?st ! k)) r (sv_jwt sv) = (res, mx', js')"
      using h n k f by (auto simp: handler_def Let_def split: prod.splits)
    from muxServe_answer[OF ve m compileVHosts_plain[OF p vh] s] vh f show ?thesis by (simp add: answer_def)
  qed
qed

subsection \<open>In every run\<close>

text \<open>The states a started server comes through.\<close>

definition running :: "Config \<Rightarrow> 'c server \<Rightarrow> 'c server \<Rightarrow> bool" where
  "running cfg0 sv0 sv \<longleftrightarrow>
     (\<exists>en args b (w :: ('c, unit) serverWorld) (es :: ('c, unit) event list).
        parseAll en args = Inr (cfg0, b) \<and> newServer w cfg0 = Inr sv0 \<and> serves sv0 es sv)"

lemma running_inv: "running cfg0 sv0 sv \<Longrightarrow> server_inv cfg0 (sv_bindIP sv0) sv"
  unfolding running_def using serves_inv server_inv_start by blast

lemma running_compiled: "running cfg0 sv0 sv \<Longrightarrow> compiled (sv_state sv)"
  using running_inv by (auto simp: server_inv_def)


definition admitted :: "serveEnv \<Rightarrow> Config \<Rightarrow> request \<Rightarrow> jwtState \<Rightarrow> bool" where
  "admitted env cfg r js \<longleftrightarrow>
     filterAllows cfg r \<and>
     (\<exists>vh prc. selectVHost (VHosts cfg) (requestHost (rq_Host r)) = Some vh \<and>
        longestRoute (Routes vh) (url_Path (rq_URL r)) prc \<and>
        jwtPasses env cfg (snd prc) r js \<and> basicPasses cfg (snd prc) r)"

lemma answer_admitted:
  assumes "answer env cfg r js res" and "\<not> (\<exists>resp. res = Respond resp)" and "res \<noteq> CloseConnection"
    and "\<not> (\<exists>q s. res = MovedPermanently q s)"
  shows "admitted env cfg r js"
proof -
  have f: "filterAllows cfg r" using assms(1,3) by (auto simp: answer_def split: if_splits)
  with assms(1,3) obtain vh where vh: "selectVHost (VHosts cfg) (requestHost (rq_Host r)) = Some vh"
    and v: "vhostAnswer env cfg vh r js res" by (auto simp: answer_def split: option.splits)
  from v assms(2,4) obtain prc where "longestRoute (Routes vh) (url_Path (rq_URL r)) prc"
    and "routeAnswer env cfg r js prc res" by (auto simp: vhostAnswer_def Let_def split: if_splits)
  moreover from this(2) assms(2) have "jwtPasses env cfg (snd prc) r js \<and> basicPasses cfg (snd prc) r"
    by (auto simp: routeAnswer_def split: if_splits)
  ultimately show ?thesis using vh f unfolding admitted_def by blast
qed


subsection \<open>A server\<close>

text \<open>A file with one route that asks for credentials, and a blocked network.\<close>

definition demo_route :: fileRoute where
  "demo_route =
     \<lparr>fr_Dest = [''http://a:1''], fr_NoTLSVerify = False, fr_Auth = [''bob'', ''pw''], fr_Timeout = [], fr_DialTimeout = [],
      fr_LBMode = [], fr_AddHeaders = [], fr_DeleteHeaders = [], fr_ClientAddHeaders = [], fr_ClientDelHeaders = [],
      fr_AuthUsers = [], fr_SkipJwtAuth = False, fr_authPresent = True\<rparr>"

definition demo_config_file :: fileConfig where
  "demo_config_file =
     demo_file\<lparr>fc_Global := (fc_Global demo_file)\<lparr>fg_IPFilter := Some \<lparr>Blocked = [''10.0.0.0/8''], Allowed = []\<rparr>\<rparr>,
       fc_Routes := [(''/api'', demo_route)]\<rparr>"

definition demo_lists :: world where
  "demo_lists = \<lparr>w_open = (\<lambda>_. None), w_mtime = (\<lambda>_. None), w_writable = (\<lambda>_. False),
     w_get = (\<lambda>_. None), w_now = zeroTime\<rparr>"

definition demo_failure :: issueError where
  "demo_failure = \<lparr>er_msg = ''offline'', er_rateLimit = None, er_problem = None\<rparr>"

definition demo_refusing :: "(unit, unit) acmeClient" where
  "demo_refusing =
     \<lparr>cl_AuthorizeOrder = (\<lambda>_. Inl demo_failure), cl_GetAuthorization = (\<lambda>_. Inl demo_failure),
      cl_HTTP01Response = (\<lambda>_. Inl demo_failure), cl_HTTP01Path = (\<lambda>t. t), cl_ALPNCert = (\<lambda>_ _. Inl demo_failure),
      cl_Accept = (\<lambda>_ _. Some demo_failure), cl_WaitAuthorization = (\<lambda>_ _. Some demo_failure),
      cl_WaitOrder = (\<lambda>_. Inl demo_failure), cl_GenerateKey = Inl demo_failure, cl_CreateCSR = (\<lambda>_ _. Inl demo_failure),
      cl_CreateOrderCert = (\<lambda>_ _. ([], Inl demo_failure)), cl_GetOrder = (\<lambda>_ _. Inl demo_failure),
      cl_FetchCert = (\<lambda>_. Inl demo_failure), cl_cancelled = (\<lambda>_. True)\<rparr>"

definition demo_offline :: "(unit, unit) acmeWorld" where
  "demo_offline =
     \<lparr>aw_now = zeroTime, aw_listens = True, aw_writes = (\<lambda>_. True), aw_resolves = (\<lambda>_. True),
      aw_zeroSSL = (\<lambda>_. Inl demo_failure), aw_hasCerts = (\<lambda>_. True),
      aw_account = (\<lambda>_. demo_keys ()), aw_removes = (\<lambda>_. True), aw_client = (\<lambda>_ _. demo_refusing),
      aw_certFile = demo_write ''/c/.tmp-3'', aw_certKeyFile = demo_write ''/c/.tmp-4'',
      aw_encodeKey = (\<lambda>_. Inr []), aw_encodeCert = concat, aw_X509KeyPair = (\<lambda>_ _. None),
      aw_period = (\<lambda>_. None), aw_bootstrap = None\<rparr>"

definition demo_cliEnv :: cliEnv where
  "demo_cliEnv = \<lparr>en_exe = None, en_home = None, en_exists = (\<lambda>_. True), en_readFile = (\<lambda>_. Some []),
     en_getenv = (\<lambda>_. None), en_decode = (\<lambda>_ _. Some demo_config_file)\<rparr>"

definition demo_world :: "(unit, unit) serverWorld" where
  "demo_world =
     \<lparr>wd_cli = demo_cliEnv, wd_ifaces = (\<lambda>_. None), wd_isDir = (\<lambda>_. False), wd_lists = demo_lists,
      wd_bridge = \<lparr>br_root = False, br_home = None, br_now = zeroTime, br_stateFile = None, br_disk = (\<lambda>_. None)\<rparr>,
      wd_disk = (\<lambda>_. None), wd_acme = demo_offline, wd_mkdir = True\<rparr>"

definition demo_line :: "string list" where
  "demo_line = [''--config'', ''/c.yml'']"

definition demo_cfg :: Config where
  "demo_cfg = (case parseAll demo_cliEnv demo_line of Inr (cfg, b) \<Rightarrow> cfg | Inl e \<Rightarrow> zeroConfig)"

definition demo_server :: "unit server option" where
  "demo_server =
     (case parseAll demo_cliEnv demo_line of
        Inl e \<Rightarrow> None
      | Inr (cfg, b) \<Rightarrow> (case newServer demo_world cfg of Inr sv \<Rightarrow> Some sv | Inl e \<Rightarrow> None))"

definition demo_serve :: serveEnv where
  "demo_serve =
     \<lparr>se_draw = 0, se_readFile = (\<lambda>_. Inl NotExist),
      se_lib = \<lparr>lib_ParseUnverified = (\<lambda>_. None), lib_Parse = (\<lambda>_ _. None), lib_ParseRSAPEM = (\<lambda>_. None),
                lib_ParseECPEM = (\<lambda>_. None)\<rparr>,
      se_world = \<lparr>jw_Get = (\<lambda>_. None), jw_decode = (\<lambda>_. None), jw_now = zeroTime, jw_fetched = zeroTime,
                  jw_check = zeroTime\<rparr>\<rparr>"

definition demo_call :: request where
  "demo_call = demo_request\<lparr>rq_Header := [''Authorization'' \<mapsto> [''Basic Ym9iOnB3'']]\<rparr>"

text \<open>One request, and the requests to come.\<close>

fun serverRun :: "('c, 'k) event list \<Rightarrow> 'c server \<Rightarrow> 'c server option" where
  "serverRun [] sv = Some sv"
| "serverRun (e # es) sv = (case serverStep e sv of None \<Rightarrow> None | Some sv' \<Rightarrow> serverRun es sv')"

lemma serves_Cons: "serverStep e sv = Some sv1 \<Longrightarrow> serves sv1 es sv' \<Longrightarrow> serves sv (e # es) sv'"
proof (rotate_tac, induction es sv' rule: serves.induct)
  case start
  then show ?case using serves.step[OF serves.start, of e sv sv1] by simp
next
  case (step es sv2 e2 sv3)
  then show ?case using serves.step[of sv "e # es" sv2 e2 sv3] by simp
qed

lemma serverRun_serves: "serverRun es sv = Some sv' \<Longrightarrow> serves sv es sv'"
  by (induction es arbitrary: sv) (auto intro: serves.start serves_Cons split: option.splits)

definition demo_events :: "(unit, unit) event list" where
  "demo_events = [Request demo_serve demo_request]"

definition demo_after :: "unit server option" where
  "demo_after = (case demo_server of None \<Rightarrow> None | Some sv \<Rightarrow> serverRun demo_events sv)"

definition forwards :: "outcome \<Rightarrow> bool" where
  "forwards res = (case res of Forward fw \<Rightarrow> True | _ \<Rightarrow> False)"

lemma demo_computed:
  "case demo_after of None \<Rightarrow> False
   | Some sv \<Rightarrow> plainVHosts (ss_cfg (sv_state sv)) \<and> forwards (fst (handler demo_serve demo_call sv))"
  by code_simp

lemma option_the: "(case x of None \<Rightarrow> False | Some a \<Rightarrow> P a) \<Longrightarrow> x = Some (the x) \<and> P (the x)"
  by (cases x) simp_all

lemmas demo_facts = option_the[OF demo_computed, THEN conjunct1]
  option_the[OF demo_computed, THEN conjunct2, THEN conjunct1]
  option_the[OF demo_computed, THEN conjunct2, THEN conjunct2]

lemma demo_no_challenge: "challengeReply acme demo_request = None"
proof -
  have "\<not> IsChallengeRequest demo_request" by code_simp
  then show ?thesis by (simp add: challengeReply_def split: option.split)
qed

lemma demo_running: "running demo_cfg (the demo_server) (the demo_after)"
proof -
  from demo_facts(1) have "demo_server \<noteq> None" unfolding demo_after_def by (intro notI) (simp only: option.case, simp)
  then obtain sv where s: "demo_server = Some sv" by blast
  from demo_facts(1) have a: "serverRun demo_events sv = Some (the demo_after)"
    unfolding demo_after_def s option.case .
  from s obtain b where p: "parseAll demo_cliEnv demo_line = Inr (demo_cfg, b)"
    and n: "newServer demo_world demo_cfg = Inr sv"
    unfolding demo_server_def demo_cfg_def
    by (cases "parseAll demo_cliEnv demo_line"; cases "newServer demo_world demo_cfg")
       (auto simp: demo_cfg_def split: prod.splits sum.splits)
  with serverRun_serves[OF a] show ?thesis unfolding running_def s option.sel by blast
qed



section \<open>What a reload may change\<close>



end
