(* ===== verification/Reload_Timer.thy ===== *)
theory Reload_Timer
  imports Go_Time
begin

text \<open>
  When a reload runs (\<open>scheduledReload\<close> and the watcher of the configuration file in \<open>run\<close>,
  \<^verbatim>\<open>src/server.go\<close>): triggers that come within 200 ms of each other are one reload. Times are
  nanoseconds on one clock. What the reload then does is in \<open>Server\<close>.
\<close>

section \<open>The debounce timer\<close>

text \<open>The timer that is pending: when it fires, and whether its reload is for a change of the file.
  Once it is set, a trigger moves its time only.\<close>

type_synonym reloadTimer = "(duration \<times> bool) option"

definition reloadDelay :: duration where
  "reloadDelay = 200 * millisecond"

definition scheduledReload :: "duration \<Rightarrow> bool \<Rightarrow> reloadTimer \<Rightarrow> reloadTimer" where
  "scheduledReload now fileMod timer =
     (case timer of
        Some (_, f) \<Rightarrow> Some (now + reloadDelay, f)
      | None \<Rightarrow> Some (now + reloadDelay, fileMod))"

text \<open>The runtime fires a timer whose time has come; the timer is gone before the reload starts.\<close>

definition fireTimer :: "duration \<Rightarrow> reloadTimer \<Rightarrow> (duration \<times> bool) list \<times> reloadTimer" where
  "fireTimer now timer =
     (case timer of Some (d, f) \<Rightarrow> if d \<le> now then ([(d, f)], None) else ([], timer) | None \<Rightarrow> ([], None))"

text \<open>The reloads that a sequence of triggers leads to.\<close>

fun reloadsOf :: "reloadTimer \<Rightarrow> (duration \<times> bool) list \<Rightarrow> (duration \<times> bool) list" where
  "reloadsOf timer [] = (case timer of None \<Rightarrow> [] | Some r \<Rightarrow> [r])"
| "reloadsOf timer ((now, fileMod) # ts) =
     (case fireTimer now timer of
        (fired, timer') \<Rightarrow> fired @ reloadsOf (scheduledReload now fileMod timer') ts)"

section \<open>Bursts\<close>

text \<open>A burst is a maximal run of triggers, each less than 200 ms after the one before.\<close>

fun bursts :: "(duration \<times> bool) list \<Rightarrow> (duration \<times> bool) list list" where
  "bursts [] = []"
| "bursts (t # ts) =
     (case (ts, bursts ts) of
        (t' # _, b # bs) \<Rightarrow> if fst t' < fst t + reloadDelay then (t # b) # bs else [t] # b # bs
      | _ \<Rightarrow> [[t]])"

definition burstReload :: "(duration \<times> bool) list \<Rightarrow> duration \<times> bool" where
  "burstReload b = (fst (last b) + reloadDelay, snd (hd b))"

lemma bursts_Cons: "\<exists>b bs. bursts (t # ts) = (t # b) # bs"
  by (cases ts; cases "bursts ts") auto

lemma bursts_step:
  assumes "bursts (t' # ts) = (t' # b) # bs"
  shows "bursts (t # t' # ts) =
     (if fst t' < fst t + reloadDelay then (t # t' # b) # bs else [t] # (t' # b) # bs)"
  using assms by (subst bursts.simps(2)) (simp del: bursts.simps)

lemma bursts_concat: "concat (bursts ts) = ts"
proof (induction ts)
  case (Cons t ts)
  then show ?case
  proof (cases ts)
    case (Cons t' ts')
    then obtain b bs where "bursts ts = (t' # b) # bs" using bursts_Cons by metis
    with Cons.IH \<open>ts = t' # ts'\<close> show ?thesis by simp
  qed simp
qed simp

lemma bursts_nonempty: "b \<in> set (bursts ts) \<Longrightarrow> b \<noteq> []"
proof (induction ts arbitrary: b)
  case (Cons t ts)
  then show ?case by (cases ts; cases "bursts ts") (auto split: if_splits)
qed simp

text \<open>A pending timer belongs to the burst that is going on.\<close>

lemma reloadsOf_pending:
  "reloadsOf (Some (now + reloadDelay, f)) ts =
     (case bursts ((now, f) # ts) of b # bs \<Rightarrow> burstReload b # map burstReload bs | [] \<Rightarrow> [])"
proof (induction ts arbitrary: now f)
  case Nil
  then show ?case by (simp add: burstReload_def)
next
  case (Cons t ts)
  obtain n g where t: "t = (n, g)" by fastforce
  obtain b bs where b: "bursts ((n, g) # ts) = ((n, g) # b) # bs" using bursts_Cons by blast
  obtain b' bs' where b': "bursts ((n, f) # ts) = ((n, f) # b') # bs'" using bursts_Cons by blast
  have same: "b' = b \<and> bs' = bs"
    using b b' by (cases ts; cases "bursts ts") (auto split: if_splits)
  note bursts = bursts_step[OF b, of "(now, f)"]
  show ?case
  proof (cases "now + reloadDelay \<le> n")
    case True
    with Cons.IH[of n g] show ?thesis
      by (simp add: t bursts b fireTimer_def scheduledReload_def burstReload_def del: bursts.simps)
  next
    case False
    with Cons.IH[of n f] same b' show ?thesis
      by (simp add: t bursts fireTimer_def scheduledReload_def burstReload_def del: bursts.simps)
  qed
qed

lemma reloadsOf_bursts: "reloadsOf None ts = map burstReload (bursts ts)"
proof (cases ts)
  case (Cons t ts')
  obtain b bs where "bursts (t # ts') = (t # b) # bs" using bursts_Cons by blast
  with Cons reloadsOf_pending[of "fst t" "snd t" ts'] show ?thesis
    by (cases t) (simp add: fireTimer_def scheduledReload_def del: bursts.simps)
qed simp

text \<open>C29. The debounce timer runs one reload for each burst of triggers, 200 ms after the last trigger of
  the burst, and calls it a change of the file when the first trigger was one.\<close>

theorem one_reload_per_burst: "reloadsOf None ts = map burstReload (bursts ts)"
  by (rule reloadsOf_bursts)

lemma sorted_part: "sorted (map fst (concat bss)) \<Longrightarrow> b \<in> set bss \<Longrightarrow> sorted (map fst b)"
  by (induction bss) (auto simp: sorted_append)

lemma sorted_last: "sorted (map f b) \<Longrightarrow> t \<in> set b \<Longrightarrow> f t \<le> f (last b)"
  by (induction b) auto



section \<open>The watcher\<close>

text \<open>One tick of the watcher: the modification time of the file, if it can be read, and the last one
  seen. The first one seen is that of the start, or the zero time.\<close>

definition watchStart :: "duration option \<Rightarrow> duration \<Rightarrow> duration" where
  "watchStart mtime zero = (case mtime of None \<Rightarrow> zero | Some m \<Rightarrow> m)"

definition watchTick :: "duration option \<Rightarrow> duration \<Rightarrow> duration \<times> bool" where
  "watchTick mtime lastMtime =
     (case mtime of
        None \<Rightarrow> (lastMtime, False)
      | Some m \<Rightarrow> if lastMtime < m then (m, True) else (lastMtime, False))"

end
