(* ===== verification/Reload_Props.thy ===== *)
theory Reload_Props
  imports Server_Props Reload_Timer
begin

text \<open>
  What a reload does to a running server: it installs the whole new configuration or leaves no trace,
  it leaves no refresher of an old address list behind, and a trigger that comes while a reload runs
  is lost.
\<close>

section \<open>Runs go on\<close>

lemma running_step:
  fixes e :: "('c, unit) event"
  assumes "running cfg0 sv0 sv" and "serverStep e sv = Some sv'"
  shows "running cfg0 sv0 sv'"
  using assms serves.step unfolding running_def by blast

section \<open>All or nothing\<close>

text \<open>What is left by a reload that goes through: the new configuration with the fixed settings of the
  old one, compiled, its address lists loaded and refreshed.\<close>

definition installed :: "'c server \<Rightarrow> Config \<Rightarrow> 'c server \<Rightarrow> bool" where
  "installed sv new0 sv' \<longleftrightarrow>
     validate new0 = None \<and> ss_cfg (sv_state sv') = revertFixed (ss_cfg (sv_state sv)) new0 \<and>
     compiled (sv_state sv') \<and> lists_inv (ss_cfg (sv_state sv')) (ss_lists (sv_state sv')) \<and>
     sv_jwt sv' = sv_jwt sv \<and> sv_bindIP sv' = sv_bindIP sv \<and> sv_reloading sv' = None"

lemma reloadCertificates_jwt [simp]: "sv_jwt (reloadCertificates w cfg sv) = sv_jwt sv"
  by (auto simp: reloadCertificates_def Let_def split: option.split)

lemma finishReload_outcome:
  fixes w :: "('c, unit) serverWorld"
  assumes "running cfg0 sv0 sv" and "finishReload w sv = Some sv'" and "sv_reloading sv = Some p"
  shows "sv' = sv\<lparr>sv_reloading := None\<rparr> \<or> (\<exists>new0 b. p = Inr (new0, b) \<and> installed sv new0 sv')"
  using assms(2)
proof (cases rule: finishReload_cases)
  case (installed new0 b vs single)
  from running_inv[OF running_step[OF assms(1), of "FinishReload w"]] assms(2)
  have "server_inv cfg0 (sv_bindIP sv0) sv'" by simp
  with installed assms(3) show ?thesis
    by (auto simp: Reload_Props.installed_def server_inv_def installConfig_def)
qed (use assms(3) in auto)

text \<open>C7. A reload that ends leaves the server exactly as it was, with the lock released, or has installed
  the whole configuration that was read; nothing in between.\<close>

theorem reload_all_or_nothing:
  fixes w :: "('c, unit) serverWorld"
  assumes "running cfg0 sv0 sv" and "finishReload w sv = Some sv'" and "sv_reloading sv = Some p"
  shows "sv' = sv\<lparr>sv_reloading := None\<rparr> \<or> (\<exists>new0 b. p = Inr (new0, b) \<and> installed sv new0 sv')"
  by (rule finishReload_outcome[OF assms])

text \<open>C21. The refreshers of every address list that a reload has replaced are told to stop, in every run:
  none is live, and none becomes live again.\<close>

theorem replaced_lists_stopped:
  assumes "running cfg0 sv0 sv"
  shows "list_all dead (sv_retired sv)"
  using running_inv[OF assms] by (simp add: server_inv_def)

text \<open>A reload of the demonstration server that goes through and retires the blocked network.\<close>

definition demo_begun :: "unit server option" where
  "demo_begun = (case demo_server of None \<Rightarrow> None | Some sv \<Rightarrow> serverStep (BeginReload demo_world) sv)"

definition demo_ended :: "unit server option" where
  "demo_ended = (case demo_begun of None \<Rightarrow> None | Some sv \<Rightarrow> serverStep (FinishReload demo_world) sv)"

lemma demo_reload_computed:
  "case demo_begun of None \<Rightarrow> False
   | Some sv \<Rightarrow> \<not> Option.is_none (sv_reloading sv) \<and>
       (case demo_ended of None \<Rightarrow> False | Some sv' \<Rightarrow> length (sv_retired sv) < length (sv_retired sv'))"
  by code_simp

lemmas demo_begun_facts = option_the[OF demo_reload_computed, THEN conjunct1]
  option_the[OF demo_reload_computed, THEN conjunct2, THEN conjunct1]
  option_the[OF option_the[OF demo_reload_computed, THEN conjunct2, THEN conjunct2], THEN conjunct1]
  option_the[OF option_the[OF demo_reload_computed, THEN conjunct2, THEN conjunct2], THEN conjunct2]

lemma demo_started: "running demo_cfg (the demo_server) (the demo_server)"
  using demo_running serves.start unfolding running_def by blast

lemma demo_begun_step: "serverStep (BeginReload demo_world) (the demo_server) = Some (the demo_begun)"
proof -
  have "demo_server \<noteq> None"
    using demo_begun_facts(1) unfolding demo_begun_def by (intro notI) (simp only: option.case, simp)
  then obtain sv where s: "demo_server = Some sv" by blast
  have "demo_begun = serverStep (BeginReload demo_world) sv" unfolding demo_begun_def s option.case ..
  then show ?thesis unfolding s option.sel using demo_begun_facts(1) by (rule back_subst[of "\<lambda>x. x = Some (the demo_begun)", rotated])
qed

lemma demo_begun_running: "running demo_cfg (the demo_server) (the demo_begun)"
  by (rule running_step[OF demo_started demo_begun_step])

lemma demo_ended_step: "finishReload demo_world (the demo_begun) = Some (the demo_ended)"
  using demo_begun_facts(3) demo_begun_facts(1) unfolding demo_ended_def
  by (metis option.case(2) serverStep.simps(3))

lemma reload_all_or_nothing_witness:
  "\<exists>new0. installed (the demo_begun) new0 (the demo_ended)"
proof -
  obtain p where p: "sv_reloading (the demo_begun) = Some p"
    using demo_begun_facts(2) by (cases "sv_reloading (the demo_begun)") simp_all
  from reload_all_or_nothing[OF demo_begun_running demo_ended_step p] demo_begun_facts(4)
  show ?thesis by auto
qed

lemma replaced_lists_stopped_witness:
  "sv_retired (the demo_ended) \<noteq> [] \<and> list_all dead (sv_retired (the demo_ended))"
proof -
  have "running demo_cfg (the demo_server) (the demo_ended)"
    using running_step[OF demo_begun_running, of "FinishReload demo_world"] demo_ended_step by simp
  from replaced_lists_stopped[OF this] demo_begun_facts(4) show ?thesis by auto
qed

section \<open>A refused reload is invisible\<close>

fun isReload :: "('c, 'k) event \<Rightarrow> bool" where
  "isReload (BeginReload w) = True"
| "isReload (FinishReload w) = True"
| "isReload _ = False"

definition locked :: "(parseError + Config \<times> bool) option \<Rightarrow> 'c server \<Rightarrow> 'c server" where
  "locked x sv = sv\<lparr>sv_reloading := x\<rparr>"

lemma locked_sel [simp]:
  "sv_state (locked x sv) = sv_state sv" "sv_acme (locked x sv) = sv_acme sv" "sv_jwt (locked x sv) = sv_jwt sv"
  "sv_retired (locked x sv) = sv_retired sv" "sv_reloading (locked x sv) = x"
  "locked x (locked y sv) = locked x sv" "sv_reloading sv = x \<Longrightarrow> locked x sv = sv"
  by (simp_all add: locked_def)

lemma handler_locked: "snd (handler env r (locked x sv)) = locked x (snd (handler env r sv))"
  by (auto simp: handler_def Let_def locked_def split: option.split prod.split)

lemma onSlot_locked: "onSlot s f (locked x sv) = map_option (locked x) (onSlot s f sv)"
  by (cases s) (auto simp: Let_def option.map_comp o_def setLists_def locked_def intro!: option.map_cong)

lemma startTLS_locked: "startTLS w (locked x sv) = map_sum id (locked x) (startTLS w sv)"
  by (auto simp: startTLS_def Let_def locked_def split: option.split prod.split)

lemma step_locked:
  assumes "\<not> isReload e"
  shows "serverStep e (locked x sv) = map_option (locked x) (serverStep e sv)"
  using assms
proof (cases e)
  case (IssueEvent w c v)
  then show ?thesis by (cases "sv_acme sv") (simp_all add: onManager_def locked_def)
next
  case (RenewEvent w c)
  then show ?thesis by (cases "sv_acme sv") (simp_all add: onManager_def locked_def)
next
  case StopEvent
  then show ?thesis by (cases "sv_acme sv") (simp_all add: onManager_def locked_def)
next
  case (StartTLS w)
  then show ?thesis by (cases "startTLS w sv") (simp_all add: startTLS_locked)
qed (use assms in \<open>simp_all add: handler_locked onSlot_locked\<close>)

lemma serves_locked:
  assumes "serves sv es sv'" and "\<not> list_ex isReload es"
  shows "serves (locked x sv) es (locked x sv')"
  using assms by (induction rule: serves.induct) (auto simp: step_locked intro: serves.intros)

definition refuses :: "('c, 'k) serverWorld \<Rightarrow> 'c server \<Rightarrow> bool" where
  "refuses w sv =
     (case sv_reloading sv of None \<Rightarrow> False | Some p \<Rightarrow> isl (compileReload w (ss_cfg (sv_state sv)) p))"

text \<open>C22. A reload that is refused for the file, its validation or its routes might as well not have been
  triggered: what happens between its start and its end happens as without it, and ends in the same
  state.\<close>

theorem refused_reload_invisible:
  assumes "sv_reloading sv = None" and "serves (beginReload w sv) es sv1" and "\<not> list_ex isReload es"
    and "refuses w' sv1" and "finishReload w' sv1 = Some sv2"
  shows "serves sv es sv2"
proof -
  have "sv2 = locked None sv1"
    using assms(4,5) by (auto simp: refuses_def finishReload_def locked_def isl_def split: option.splits reloadError.splits routeError.splits)
  moreover have "locked None (beginReload w sv) = sv"
    using assms(1) by (simp add: beginReload_def Let_def locked_def)
  ultimately show ?thesis using serves_locked[OF assms(2,3), of None] by simp
qed

definition demo_missing :: "(unit, unit) serverWorld" where
  "demo_missing = demo_world\<lparr>wd_cli := demo_cliEnv\<lparr>en_readFile := (\<lambda>_. None)\<rparr>\<rparr>"

definition demo_small :: "unit server" where
  "demo_small =
     \<lparr>sv_state = \<lparr>ss_cfg = zeroConfig\<lparr>ConfigPath := ''/c.yml'', OriginalArgs := demo_line\<rparr>, ss_vhosts = [],
        ss_single = False, ss_lists = \<lparr>fl_blocked = None, fl_allowed = None, fl_trusted = None\<rparr>\<rparr>,
      sv_bindIP = [], sv_acme = None, sv_globalCert = None, sv_jwt = emptyJwt, sv_retired = [],
      sv_reloading = None\<rparr>"

lemma refused_reload_invisible_witness:
  "serves demo_small [Request demo_serve demo_request :: (unit, unit) event]
     (snd (handler demo_serve demo_request demo_small))"
proof -
  let ?b = "beginReload demo_missing demo_small"
  have "isl (parseAll (demo_cliEnv\<lparr>en_readFile := (\<lambda>_. None)\<rparr>) demo_line)" by code_simp
  then obtain e where e: "parseAll (demo_cliEnv\<lparr>en_readFile := (\<lambda>_. None)\<rparr>) demo_line = Inl e" by (auto simp: isl_def)
  have b: "?b = locked (Some (Inl e)) demo_small"
    by (simp add: beginReload_def Let_def demo_missing_def demo_small_def e locked_def)
  let ?s = "snd (handler demo_serve demo_request ?b)"
  have s: "?s = locked (Some (Inl e)) (snd (handler demo_serve demo_request demo_small))"
    by (simp add: b handler_locked)
  have run: "serves ?b [Request demo_serve demo_request :: (unit, unit) event] ?s"
    using serves.step[OF serves.start, of "Request demo_serve demo_request :: (unit, unit) event" ?b ?s] by simp
  have r: "refuses demo_missing ?s" unfolding s by (simp add: refuses_def compileReload_def)
  have f: "finishReload demo_missing ?s = Some (locked None ?s)"
    unfolding s by (simp add: finishReload_def compileReload_def) (simp add: locked_def)
  have "serves demo_small [Request demo_serve demo_request :: (unit, unit) event] (locked None ?s)"
    by (rule refused_reload_invisible[OF _ run _ r f]) (simp_all add: demo_small_def)
  moreover have "locked None ?s = snd (handler demo_serve demo_request demo_small)"
    unfolding s locked_sel handler_locked[symmetric] by (simp add: demo_small_def)
  ultimately show ?thesis by simp
qed

section \<open>A trigger that is lost\<close>

text \<open>The watcher, the timer and the server together.\<close>

record 'c reloader =
  rl_lastMtime :: duration
  rl_timer :: reloadTimer
  rl_server :: "'c server"

definition watchEvent :: "duration option \<Rightarrow> duration \<Rightarrow> 'c reloader \<Rightarrow> 'c reloader" where
  "watchEvent mtime now rl =
     (case watchTick mtime (rl_lastMtime rl) of
        (m, trigger) \<Rightarrow>
          rl\<lparr>rl_lastMtime := m,
             rl_timer := (if trigger then scheduledReload now True (rl_timer rl) else rl_timer rl)\<rparr>)"

definition hupEvent :: "duration \<Rightarrow> 'c reloader \<Rightarrow> 'c reloader" where
  "hupEvent now rl = rl\<lparr>rl_timer := scheduledReload now False (rl_timer rl)\<rparr>"

definition timerEvent :: "duration \<Rightarrow> ('c, 'k) serverWorld \<Rightarrow> 'c reloader \<Rightarrow> 'c reloader" where
  "timerEvent now w rl =
     (case fireTimer now (rl_timer rl) of
        ([], _) \<Rightarrow> rl
      | (_ # _, t) \<Rightarrow> rl\<lparr>rl_timer := t, rl_server := beginReload w (rl_server rl)\<rparr>)"

text \<open>A change of the file that the watcher has seen is lost when its timer fires while a reload is
  running, which may have read the file before the change: nothing is started, and as long as the
  file keeps its modification time no tick of the watcher starts anything either.\<close>

theorem change_lost:
  assumes "sv_reloading (rl_server rl) \<noteq> None" and "rl_timer rl = Some (d, f)" and "d \<le> now"
    and "mtime \<le> rl_lastMtime rl"
  shows "timerEvent now w rl = rl\<lparr>rl_timer := None\<rparr>"
    and "fold (watchEvent (Some mtime)) ticks (timerEvent now w rl) = rl\<lparr>rl_timer := None\<rparr>"
proof -
  show 1: "timerEvent now w rl = rl\<lparr>rl_timer := None\<rparr>"
    using assms(1-3) by (simp add: timerEvent_def fireTimer_def beginReload_def Let_def)
  have "fold (watchEvent (Some mtime)) ticks (rl\<lparr>rl_timer := None\<rparr>) = rl\<lparr>rl_timer := None\<rparr>"
    using assms(4) by (induction ticks) (simp_all add: watchEvent_def watchTick_def)
  with 1 show "fold (watchEvent (Some mtime)) ticks (timerEvent now w rl) = rl\<lparr>rl_timer := None\<rparr>" by simp
qed

end
