(* ===== verification/Config_Strict.thy ===== *)
theory Config_Strict
  imports Config_File
begin

text \<open>
  The strict check of a whole configuration file: the \<open>UnmarshalYAML\<close> methods of \<^verbatim>\<open>src/config.go\<close> and
  \<^verbatim>\<open>src/ipfilter.go\<close>, each of which checks the keys of its own node before the decoder goes on to the
  values in it, in the order of the document. The first unknown key ends the decoding. What the decoder
  makes of the values, with errors of its own, is not the subject here; aliases are already resolved.
\<close>

section \<open>The methods\<close>

definition fileTags :: "string list" where
  "fileTags = [''global'', ''routes'', ''vhosts'']"

definition vhostTags :: "string list" where
  "vhostTags = [''domains'', ''routes'', ''tls'']"

definition jwtTags :: "string list" where
  "jwtTags = [''header-key'', ''cookie-key'', ''claim-user-key'', ''secret'', ''jwk-url'', ''aud-id'', ''default-allow-all'']"

definition ipFilterTags :: "string list" where
  "ipFilterTags = [''blocked'', ''allowed'']"

fun firstError :: "('a \<Rightarrow> 'e option) \<Rightarrow> 'a list \<Rightarrow> 'e option" where
  "firstError f [] = None"
| "firstError f (x # xs) = (case f x of None \<Rightarrow> firstError f xs | e \<Rightarrow> e)"

text \<open>How the decoder comes to the nodes below: the value of a field, the values of a Go map, the items of
  a slice. A node of another kind is an error of the decoder's own or empty.\<close>

definition inFields :: "(string \<Rightarrow> yamlNode \<Rightarrow> (int \<times> string) option) \<Rightarrow> yamlNode \<Rightarrow> (int \<times> string) option" where
  "inFields f node = (case node of MappingNode es \<Rightarrow> firstError (\<lambda>(k, l, v). f k v) es | _ \<Rightarrow> None)"

definition inItems :: "(yamlNode \<Rightarrow> (int \<times> string) option) \<Rightarrow> yamlNode \<Rightarrow> (int \<times> string) option" where
  "inItems f node = (case node of SequenceNode ns \<Rightarrow> firstError f ns | _ \<Rightarrow> None)"

definition unmarshalRoute :: "bool \<Rightarrow> yamlNode \<Rightarrow> (int \<times> string) option" where
  "unmarshalRoute strict node = checkUnknownFields strict node routeTags"

definition unmarshalJWT :: "bool \<Rightarrow> yamlNode \<Rightarrow> (int \<times> string) option" where
  "unmarshalJWT strict node = checkUnknownFields strict node jwtTags"

definition unmarshalIPFilter :: "bool \<Rightarrow> yamlNode \<Rightarrow> (int \<times> string) option" where
  "unmarshalIPFilter strict node = checkUnknownFields strict node ipFilterTags"

definition unmarshalVHost :: "bool \<Rightarrow> yamlNode \<Rightarrow> (int \<times> string) option" where
  "unmarshalVHost strict node =
     (case checkUnknownFields strict node vhostTags of
        Some e \<Rightarrow> Some e
      | None \<Rightarrow>
          inFields (\<lambda>k v. if k = ''routes'' then inFields (\<lambda>_. unmarshalRoute strict) v else None) node)"

definition unmarshalGlobal :: "bool \<Rightarrow> yamlNode \<Rightarrow> (int \<times> string) option" where
  "unmarshalGlobal strict node =
     (case checkUnknownFields strict node globalTags of
        Some e \<Rightarrow> Some e
      | None \<Rightarrow>
          inFields (\<lambda>k v. if k = ''ip-filter'' then unmarshalIPFilter strict v
                          else if k = ''jwt-authentication'' then unmarshalJWT strict v else None) node)"

definition unmarshalFile :: "bool \<Rightarrow> yamlNode \<Rightarrow> (int \<times> string) option" where
  "unmarshalFile strict node =
     (case checkUnknownFields strict node fileTags of
        Some e \<Rightarrow> Some e
      | None \<Rightarrow>
          inFields (\<lambda>k v. if k = ''global'' then unmarshalGlobal strict v
                          else if k = ''routes'' then inFields (\<lambda>_. unmarshalRoute strict) v
                          else if k = ''vhosts'' then inItems (unmarshalVHost strict) v else None) node)"

section \<open>The schema\<close>

text \<open>What the methods together accept, said once: which keys a mapping may have and what their values must
  conform to. A node of another kind is not a matter of keys.\<close>

datatype schema =
    Anything
  | Block "string list" "(string \<times> schema) list"
  | Values schema
  | Items schema

lemma schema_below: "(k, s) \<in> set subs \<Longrightarrow> size s < Suc (size_list (\<lambda>x. Suc (size (snd x))) subs)"
  by (induction subs) auto

function conforms :: "schema \<Rightarrow> yamlNode \<Rightarrow> bool" where
  "conforms Anything node = True"
| "conforms (Block known subs) node =
     (case node of
        MappingNode es \<Rightarrow>
          list_all (\<lambda>(k, l, v). k \<in> set known) es \<and>
          list_all (\<lambda>(k', s). list_all (\<lambda>(k, l, v). k = k' \<longrightarrow> conforms s v) es) subs
      | _ \<Rightarrow> True)"
| "conforms (Values s) node = (case node of MappingNode es \<Rightarrow> list_all (\<lambda>(k, l, v). conforms s v) es | _ \<Rightarrow> True)"
| "conforms (Items s) node = (case node of SequenceNode ns \<Rightarrow> list_all (conforms s) ns | _ \<Rightarrow> True)"
  by pat_completeness auto
termination
  by (relation "measure (\<lambda>(s, n). size s)")
    (auto dest: schema_below simp: size_prod_simp size_list_estimation' less_Suc_eq_le)

definition routeSchema :: schema where
  "routeSchema = Block (removeAll [] routeTags) []"

definition vhostSchema :: schema where
  "vhostSchema = Block vhostTags [(''routes'', Values routeSchema)]"

definition globalSchema :: schema where
  "globalSchema = Block globalTags [(''ip-filter'', Block ipFilterTags []), (''jwt-authentication'', Block jwtTags [])]"

definition fileSchema :: schema where
  "fileSchema =
     Block fileTags [(''global'', globalSchema), (''routes'', Values routeSchema), (''vhosts'', Items vhostSchema)]"

section \<open>The methods check the schema\<close>

lemma firstError_None: "firstError f xs = None \<longleftrightarrow> list_all (\<lambda>x. f x = None) xs"
  by (induction xs) (auto split: option.split)

lemma unknownKey_None: "unknownKey known es = None \<longleftrightarrow> list_all (\<lambda>(k, l, v). k \<in> set known) es"
  by (induction known es rule: unknownKey.induct) auto

lemma knownFields:
  "set (knownYAMLFields fileTags) = set fileTags"
  "set (knownYAMLFields vhostTags) = set vhostTags"
  "set (knownYAMLFields jwtTags) = set jwtTags"
  "set (knownYAMLFields ipFilterTags) = set ipFilterTags"
  "set (knownYAMLFields globalTags) = set globalTags"
  "set (knownYAMLFields routeTags) = set (removeAll [] routeTags)"
  by code_simp+

lemma check_conforms:
  "checkUnknownFields True node tags = None \<longleftrightarrow> conforms (Block (knownYAMLFields tags) []) node"
  by (cases node) (simp_all add: checkUnknownFields_def unknownKey_None)

lemma conforms_known:
  "set known = set known' \<Longrightarrow> conforms (Block known subs) node \<longleftrightarrow> conforms (Block known' subs) node"
  by (cases node) simp_all

lemma inFields_None:
  "inFields f node = None \<longleftrightarrow> (case node of MappingNode es \<Rightarrow> list_all (\<lambda>(k, l, v). f k v = None) es | _ \<Rightarrow> True)"
  by (cases node) (simp_all add: inFields_def firstError_None split_beta')

lemma inItems_None:
  "inItems f node = None \<longleftrightarrow> (case node of SequenceNode ns \<Rightarrow> list_all (\<lambda>n. f n = None) ns | _ \<Rightarrow> True)"
  by (cases node) (simp_all add: inItems_def firstError_None)

lemma route_conforms: "unmarshalRoute True node = None \<longleftrightarrow> conforms routeSchema node"
  unfolding unmarshalRoute_def check_conforms routeSchema_def by (rule conforms_known) (rule knownFields)

lemma values_conform:
  "inFields (\<lambda>_. unmarshalRoute True) node = None \<longleftrightarrow> conforms (Values routeSchema) node"
  by (cases node) (simp_all add: inFields_None route_conforms)

text \<open>A method that checks its own keys and then descends.\<close>

lemma block_conforms:
  assumes "set (knownYAMLFields tags) = set tags"
    and "\<And>k v. f k v = None \<longleftrightarrow> (\<forall>s. (k, s) \<in> set subs \<longrightarrow> conforms s v)"
  shows "(case checkUnknownFields True node tags of Some e \<Rightarrow> Some e | None \<Rightarrow> inFields f node) = None \<longleftrightarrow>
    conforms (Block tags subs) node"
proof -
  have c: "checkUnknownFields True node tags = None \<longleftrightarrow> conforms (Block tags []) node"
    unfolding check_conforms by (rule conforms_known) (rule assms(1))
  have "conforms (Block tags subs) node \<longleftrightarrow> conforms (Block tags []) node \<and> inFields f node = None"
    by (cases node) (auto simp: inFields_None list_all_iff assms(2))
  with c show ?thesis by (auto split: option.split)
qed

lemma vhost_conforms: "unmarshalVHost True node = None \<longleftrightarrow> conforms vhostSchema node"
  unfolding unmarshalVHost_def vhostSchema_def
  by (rule block_conforms) (simp_all add: knownFields values_conform)

lemma filter_conforms: "unmarshalIPFilter True node = None \<longleftrightarrow> conforms (Block ipFilterTags []) node"
  unfolding unmarshalIPFilter_def check_conforms by (rule conforms_known) (rule knownFields)

lemma jwt_conforms: "unmarshalJWT True node = None \<longleftrightarrow> conforms (Block jwtTags []) node"
  unfolding unmarshalJWT_def check_conforms by (rule conforms_known) (rule knownFields)

lemma global_conforms: "unmarshalGlobal True node = None \<longleftrightarrow> conforms globalSchema node"
  unfolding unmarshalGlobal_def globalSchema_def
  by (rule block_conforms) (auto simp: knownFields filter_conforms jwt_conforms simp del: conforms.simps)

lemma vhosts_conform: "inItems (unmarshalVHost True) node = None \<longleftrightarrow> conforms (Items vhostSchema) node"
  by (cases node) (simp_all add: inItems_None vhost_conforms)

lemma strict_conforms: "unmarshalFile True doc = None \<longleftrightarrow> conforms fileSchema doc"
  unfolding unmarshalFile_def fileSchema_def
  by (rule block_conforms)
    (auto simp: knownFields global_conforms values_conform vhosts_conform simp del: conforms.simps)

lemma lenient_check [simp]: "checkUnknownFields False node tags = None"
  by (simp add: checkUnknownFields_def)

lemma inFields_all: "(\<And>k v. f k v = None) \<Longrightarrow> inFields f node = None"
  by (cases node) (simp_all add: inFields_None list_all_iff)

lemma inItems_all: "(\<And>n. f n = None) \<Longrightarrow> inItems f node = None"
  by (cases node) (simp_all add: inItems_None list_all_iff)

lemma lenient_parts:
  "unmarshalRoute False node = None"
  "unmarshalIPFilter False node = None"
  "unmarshalJWT False node = None"
  by (simp_all add: unmarshalRoute_def unmarshalIPFilter_def unmarshalJWT_def)

lemma lenient_blocks:
  "unmarshalVHost False node = None"
  "unmarshalGlobal False node = None"
  unfolding unmarshalVHost_def unmarshalGlobal_def lenient_check option.case
  by (rule inFields_all, simp add: lenient_parts inFields_all)+

lemma lenient_accepts: "unmarshalFile False doc = None"
  unfolding unmarshalFile_def lenient_check option.case
  by (rule inFields_all) (simp add: lenient_parts lenient_blocks inFields_all inItems_all)


text \<open>The blocks \<open>acme\<close> and \<open>tls\<close> have no method of their own: no key in them is an error.\<close>

theorem acme_typo_accepted:
  "unmarshalFile True (MappingNode [(''global'', l, MappingNode [(''acme'', l', MappingNode es)])]) = None"
  by code_simp

theorem tls_typo_accepted:
  "unmarshalFile True (MappingNode [(''vhosts'', l, SequenceNode [MappingNode [(''tls'', l', MappingNode es)]])]) = None"
  by code_simp

end
