(* ===== verification/Acme_Bootstrap.thy ===== *)
theory Acme_Bootstrap
  imports Acme_Props
begin

text \<open>
  The certificate that is served before there is a real one (\<^verbatim>\<open>src/acme/bootstrap.go\<close>), and what a
  handshake with the listener of the manager gets (\<open>TLSConfig\<close>, \<^verbatim>\<open>src/acme/manager.go\<close>). The key generator and the signing of the template are parameters.
\<close>

section \<open>The certificate\<close>

text \<open>The fields of \<^verbatim>\<open>x509.Certificate\<close> that the template sets.\<close>

record certTemplate =
  ct_SerialNumber :: int
  ct_CommonName :: string
  ct_NotBefore :: instant
  ct_NotAfter :: instant
  ct_digitalSignature :: bool
  ct_serverAuth :: bool
  ct_BasicConstraintsValid :: bool
  ct_DNSNames :: "string list"

definition addTime :: "instant \<Rightarrow> duration \<Rightarrow> instant" where
  "addTime t d = Instant (nanos t + d)"

text \<open>The clock is read twice.\<close>

definition bootstrapTemplate :: "instant \<Rightarrow> instant \<Rightarrow> certTemplate" where
  "bootstrapTemplate now1 now2 =
     \<lparr>ct_SerialNumber = 1, ct_CommonName = ''RouteMUX bootstrap'', ct_NotBefore = addTime now1 (- hour),
      ct_NotAfter = addTime now2 (24 * hour), ct_digitalSignature = True, ct_serverAuth = True,
      ct_BasicConstraintsValid = True, ct_DNSNames = [''routemux.invalid'']\<rparr>"

definition newBootstrapCert ::
  "'k option \<Rightarrow> instant \<Rightarrow> instant \<Rightarrow> (certTemplate \<Rightarrow> 'k \<Rightarrow> 'd option) \<Rightarrow> ('d list \<times> 'k) option" where
  "newBootstrapCert generated now1 now2 createCertificate =
     (case generated of
        None \<Rightarrow> None
      | Some key \<Rightarrow>
          (case createCertificate (bootstrapTemplate now1 now2) key of
             None \<Rightarrow> None
           | Some der \<Rightarrow> Some ([der], key)))"

text \<open>The certificate is made once, when the manager starts, and lasts for a day.\<close>

definition validAt :: "instant \<Rightarrow> certTemplate \<Rightarrow> bool" where
  "validAt t c \<longleftrightarrow> ct_NotBefore c \<le> t \<and> t \<le> ct_NotAfter c"

section \<open>Handshakes\<close>

text \<open>\<^verbatim>\<open>crypto/tls\<close>: the protocol that server and client agree on, empty for none; \<open>None\<close> is the alert
  that ends the handshake.\<close>

definition negotiateALPN :: "string list \<Rightarrow> string list \<Rightarrow> string option" where
  "negotiateALPN serverProtos clientProtos =
     (if serverProtos = [] \<or> clientProtos = [] then Some []
      else (case find (\<lambda>s. s \<in> set clientProtos) serverProtos of
              Some s \<Rightarrow> Some s
            | None \<Rightarrow> if ''h2'' \<in> set serverProtos \<and> ''http/1.1'' \<in> set clientProtos then Some [] else None))"

text \<open>What a client gets from the listener of a manager: the protocol and the certificate.\<close>

definition handshake :: "'c manager \<Rightarrow> clientHello \<Rightarrow> (string \<times> 'c) option" where
  "handshake m hello =
     (case negotiateALPN (TLSNextProtos m) (ch_SupportedProtos hello) of
        None \<Rightarrow> None
      | Some proto \<Rightarrow> map_option (Pair proto) (managedCertificate m hello))"

section \<open>After the start\<close>

lemma setCertM_frame [simp]:
  "mg_global (setCertM ds cert m) = mg_global m"
  "cs_fallback (st_certs (mg_stores (setCertM ds cert m))) = cs_fallback (st_certs (mg_stores m))"
  by (simp_all add: setCertM_def)

lemma startVHost_frame:
  "mg_global (fst (startVHost w v mn)) = mg_global (fst mn) \<and>
   cs_fallback (st_certs (mg_stores (fst (startVHost w v mn)))) = cs_fallback (st_certs (mg_stores (fst mn)))"
  by (auto simp: startVHost_def split: prod.split option.split)

lemma startVHosts_frame:
  "mg_global (fst (fold (startVHost w) vs mn)) = mg_global (fst mn) \<and>
   cs_fallback (st_certs (mg_stores (fst (fold (startVHost w) vs mn)))) = cs_fallback (st_certs (mg_stores (fst mn)))"
  by (induction vs arbitrary: mn) (simp_all add: startVHost_frame)

lemma managerStart_fallback:
  assumes "managerStart w mkdir m = Some (m', need, renews)"
  shows "mg_global m' = mg_global m \<and>
    cs_fallback (st_certs (mg_stores m')) =
      (case cs_fallback (st_certs (mg_stores m)) of None \<Rightarrow> aw_bootstrap w | Some c \<Rightarrow> Some c)"
proof -
  let ?m = "if \<not> hasFallback (st_certs (mg_stores m)) \<and> aw_bootstrap w \<noteq> None then setFallbackM (aw_bootstrap w) m else m"
  have "m' = fst (fold (startVHost w) (mg_vhosts ?m) (?m, []))"
    using assms by (auto simp: managerStart_def Let_def split: if_splits prod.splits)
  then show ?thesis
    by (simp only: startVHosts_frame) (auto simp: hasFallback_def setFallbackM_def setFallback_def split: option.split)
qed

text \<open>A name without a certificate of its own is answered with the fallback.\<close>

lemma GetCertificate_fallback:
  assumes "acmeALPNProto \<notin> set (ch_SupportedProtos hello)" and "cs_fallback s \<noteq> None"
  shows "GetCertificate s hello \<noteq> None"
  using assms by (auto simp: GetCertificate_def Let_def list_ex_iff split: option.split)


text \<open>With TLS-ALPN-01 challenges the listener knows no protocol but that of the challenges: every client
  that names the protocols it speaks, as browsers do, is refused.\<close>

theorem alpn_refuses_clients:
  assumes "gc_ChallengeMode (mg_global m) = ChallengeTLSALPN01"
    and "ch_SupportedProtos hello \<noteq> []" and "acmeALPNProto \<notin> set (ch_SupportedProtos hello)"
  shows "handshake m hello = None"
proof -
  have "''h2'' \<noteq> acmeALPNProto" by code_simp
  with assms show ?thesis by (simp add: handshake_def negotiateALPN_def TLSNextProtos_def)
qed

text \<open>The fallback of a manager that got no certificate for more than a day is an expired one: nothing but the
  start makes a new one.\<close>

theorem bootstrap_lasts_a_day:
  "validAt t (bootstrapTemplate now1 now2) \<longleftrightarrow> nanos now1 - hour \<le> nanos t \<and> nanos t \<le> nanos now2 + 24 * hour"
  by (simp add: validAt_def bootstrapTemplate_def less_eq_instant_def addTime_def)

section \<open>Example\<close>

definition demo_first :: "(nat, nat) acmeWorld" where
  "demo_first =
     demo_acme\<lparr>aw_bootstrap :=
       map_option (hd \<circ> fst) (newBootstrapCert (Some ()) (Instant 0) (Instant 1) (\<lambda>t _. Some (length (ct_CommonName t))))\<rparr>"

definition demo_hello :: clientHello where
  "demo_hello = \<lparr>ch_ServerName = ''a.org'', ch_SupportedProtos = [''h2'', ''http/1.1'']\<rparr>"


end
