(* ===== verification/Daemon_Watchdog.thy ===== *)
theory Daemon_Watchdog
  imports Main
begin

text \<open>
  The watchdog (\<open>runWatchdog\<close>, \<open>setupGracefulShutdown\<close>, \<open>forwardSignal\<close> in
  \<^verbatim>\<open>src/daemon/daemon_unix.go\<close>): a loop that starts the worker again and again, and two goroutines that
  react to signals. They share the variable \<open>currentWorker\<close> and the flag \<open>watchdogShuttingDown\<close>; every
  access to these is a step of its own, and steps of the three goroutines interleave in any way. A use
  of \<open>currentWorker\<close> after it has become nil is a panic of the whole process.
\<close>

section \<open>State\<close>

text \<open>Where the loop is: before \<^verbatim>\<open>cmd.Start\<close>; the worker runs but is not published; in \<^verbatim>\<open>cmd.Wait\<close>; the
  worker is reaped (the flag says whether it failed) and still published; it is withdrawn; in the
  restart delay; halted for the shutdown.\<close>

datatype mainPC =
    M_Start
  | M_Spawned nat
  | M_Wait nat
  | M_Reaped bool
  | M_Exited bool
  | M_Sleep
  | M_Halt

text \<open>Where the handler of SIGTERM and SIGINT is. \<open>H_Finish\<close> says whether it has seen a worker.\<close>

datatype handlerPC =
    H_Idle
  | H_Check
  | H_Log
  | H_Store
  | H_Signal
  | H_Await
  | H_Waiting nat
  | H_Kill
  | H_Finish bool

datatype hupPC = G_Idle | G_Check | G_Log | G_Signal

datatype wdExit = CleanWorker | HandlerExit bool | Panicked

text \<open>\<open>wd_live\<close> are the workers that run, \<open>wd_signalled\<close> those that were sent a signal.\<close>

record watchdog =
  wd_main :: mainPC
  wd_handler :: handlerPC
  wd_hup :: hupPC
  wd_current :: "nat option"
  wd_down :: bool
  wd_live :: "nat set"
  wd_signalled :: "nat set"
  wd_pidFile :: bool
  wd_exit :: "wdExit option"

definition watchdogStart :: watchdog where
  "watchdogStart =
     \<lparr>wd_main = M_Start, wd_handler = H_Idle, wd_hup = G_Idle, wd_current = None, wd_down = False,
      wd_live = {}, wd_signalled = {}, wd_pidFile = True, wd_exit = None\<rparr>"

section \<open>Steps\<close>

text \<open>A use of \<^verbatim>\<open>(*workerCmd)\<close>.\<close>

definition deref :: "watchdog \<Rightarrow> (nat \<Rightarrow> watchdog) \<Rightarrow> watchdog" where
  "deref s f = (case wd_current s of None \<Rightarrow> s\<lparr>wd_exit := Some Panicked\<rparr> | Some p \<Rightarrow> f p)"

text \<open>The loop. What the machine decides is an argument: the new process, if it could be started, and
  how the worker ended.\<close>

definition mainStep :: "bool \<Rightarrow> nat option \<Rightarrow> bool \<Rightarrow> watchdog \<Rightarrow> watchdog" where
  "mainStep restartOnCleanExit spawned failed s =
     (case wd_main s of
        M_Start \<Rightarrow>
          (case spawned of
             None \<Rightarrow> s\<lparr>wd_main := M_Sleep\<rparr>
           | Some p \<Rightarrow> s\<lparr>wd_main := M_Spawned p, wd_live := insert p (wd_live s)\<rparr>)
      | M_Spawned p \<Rightarrow> s\<lparr>wd_main := M_Wait p, wd_current := Some p\<rparr>
      | M_Wait p \<Rightarrow> if p \<in> wd_live s then s else s\<lparr>wd_main := M_Reaped failed\<rparr>
      | M_Reaped err \<Rightarrow> s\<lparr>wd_main := M_Exited err, wd_current := None\<rparr>
      | M_Exited err \<Rightarrow>
          if wd_down s then s\<lparr>wd_main := M_Halt\<rparr>
          else if err \<or> restartOnCleanExit then s\<lparr>wd_main := M_Sleep\<rparr>
          else s\<lparr>wd_pidFile := False, wd_exit := Some CleanWorker\<rparr>
      | M_Sleep \<Rightarrow> s\<lparr>wd_main := M_Start\<rparr>
      | M_Halt \<Rightarrow> s)"

text \<open>The handler of SIGTERM and SIGINT; \<open>timeout\<close> is the 10 seconds it grants the worker.\<close>

definition handlerStep :: "bool \<Rightarrow> watchdog \<Rightarrow> watchdog" where
  "handlerStep timeout s =
     (case wd_handler s of
        H_Idle \<Rightarrow> s\<lparr>wd_handler := H_Check\<rparr>
      | H_Check \<Rightarrow> s\<lparr>wd_handler := (if wd_current s = None then H_Finish False else H_Log)\<rparr>
      | H_Log \<Rightarrow> deref s (\<lambda>p. s\<lparr>wd_handler := H_Store\<rparr>)
      | H_Store \<Rightarrow> s\<lparr>wd_handler := H_Signal, wd_down := True\<rparr>
      | H_Signal \<Rightarrow> deref s (\<lambda>p. s\<lparr>wd_handler := H_Await, wd_signalled := insert p (wd_signalled s)\<rparr>)
      | H_Await \<Rightarrow> deref s (\<lambda>p. s\<lparr>wd_handler := H_Waiting p\<rparr>)
      | H_Waiting p \<Rightarrow>
          if p \<notin> wd_live s then s\<lparr>wd_handler := H_Finish True\<rparr>
          else if timeout then s\<lparr>wd_handler := H_Kill\<rparr> else s
      | H_Kill \<Rightarrow> deref s (\<lambda>p. s\<lparr>wd_handler := H_Finish True, wd_live := wd_live s - {p}\<rparr>)
      | H_Finish forwarded \<Rightarrow> s\<lparr>wd_pidFile := False, wd_exit := Some (HandlerExit forwarded)\<rparr>)"

text \<open>SIGHUP is handed on to the worker.\<close>

definition hupStep :: "watchdog \<Rightarrow> watchdog" where
  "hupStep s =
     (case wd_hup s of
        G_Idle \<Rightarrow> s\<lparr>wd_hup := G_Check\<rparr>
      | G_Check \<Rightarrow> s\<lparr>wd_hup := (if wd_current s = None then G_Idle else G_Log)\<rparr>
      | G_Log \<Rightarrow> deref s (\<lambda>p. s\<lparr>wd_hup := G_Signal\<rparr>)
      | G_Signal \<Rightarrow> deref s (\<lambda>p. s\<lparr>wd_hup := G_Idle, wd_signalled := insert p (wd_signalled s)\<rparr>))"

datatype wdEvent =
    MainEvent "nat option" bool
  | HandlerEvent bool
  | HupEvent
  | WorkerExit nat

text \<open>Once the process has exited only its workers go on.\<close>

definition watchdogStep :: "bool \<Rightarrow> wdEvent \<Rightarrow> watchdog \<Rightarrow> watchdog" where
  "watchdogStep restartOnCleanExit e s =
     (case e of
        WorkerExit p \<Rightarrow> s\<lparr>wd_live := wd_live s - {p}\<rparr>
      | MainEvent sp f \<Rightarrow> if wd_exit s = None then mainStep restartOnCleanExit sp f s else s
      | HandlerEvent t \<Rightarrow> if wd_exit s = None then handlerStep t s else s
      | HupEvent \<Rightarrow> if wd_exit s = None then hupStep s else s)"

definition watchdogRun :: "bool \<Rightarrow> wdEvent list \<Rightarrow> watchdog" where
  "watchdogRun restartOnCleanExit es = fold (watchdogStep restartOnCleanExit) es watchdogStart"

section \<open>Invariant\<close>

text \<open>The worker the loop takes care of.\<close>

definition ownWorker :: "watchdog \<Rightarrow> nat set" where
  "ownWorker s = (case wd_main s of M_Spawned p \<Rightarrow> {p} | M_Wait p \<Rightarrow> {p} | _ \<Rightarrow> {})"

definition published :: "watchdog \<Rightarrow> bool" where
  "published s \<longleftrightarrow>
     (case wd_main s of M_Wait p \<Rightarrow> wd_current s = Some p | M_Reaped err \<Rightarrow> True | _ \<Rightarrow> wd_current s = None)"

text \<open>What the handler knows: while it waits the loop is at that worker or past it, and no new one is
  started.\<close>

definition awaited :: "watchdog \<Rightarrow> bool" where
  "awaited s \<longleftrightarrow>
     (case wd_handler s of
        H_Signal \<Rightarrow> wd_down s
      | H_Await \<Rightarrow> wd_down s \<and> (\<forall>p. wd_main s \<noteq> M_Spawned p) \<and> wd_main s \<notin> {M_Start, M_Sleep}
      | H_Waiting p \<Rightarrow>
          wd_down s \<and> ownWorker s \<subseteq> {p} \<and> (\<forall>q. wd_main s \<noteq> M_Spawned q) \<and> wd_main s \<notin> {M_Start, M_Sleep}
      | H_Kill \<Rightarrow> wd_down s \<and> (\<forall>p. wd_main s \<noteq> M_Spawned p) \<and> wd_main s \<notin> {M_Start, M_Sleep}
      | H_Finish forwarded \<Rightarrow>
          forwarded \<longrightarrow> wd_down s \<and> wd_live s = {} \<and> wd_main s \<notin> {M_Start, M_Sleep}
      | _ \<Rightarrow> True)"

definition watchdog_inv :: "watchdog \<Rightarrow> bool" where
  "watchdog_inv s \<longleftrightarrow>
     wd_live s \<subseteq> ownWorker s \<and> published s \<and> awaited s \<and>
     (wd_exit s = Some (HandlerExit True) \<longrightarrow> wd_live s = {})"

lemma watchdog_inv_start: "watchdog_inv watchdogStart"
  by (simp add: watchdog_inv_def watchdogStart_def published_def awaited_def)

lemmas watchdog_defs = watchdog_inv_def published_def awaited_def ownWorker_def

lemma mainStep_inv:
  assumes "watchdog_inv s" and "wd_exit s = None"
  shows "watchdog_inv (mainStep r sp f s)"
  using assms
  by (cases "wd_main s"; cases "wd_handler s")
     (auto simp: watchdog_defs mainStep_def split: option.split)

lemma handlerStep_inv:
  assumes "watchdog_inv s" and "wd_exit s = None"
  shows "watchdog_inv (handlerStep t s)"
  using assms
  by (cases "wd_handler s"; cases "wd_main s"; cases "wd_current s")
     (auto simp: watchdog_defs handlerStep_def deref_def)

lemma watchdog_inv_frame:
  "watchdog_inv s \<Longrightarrow> watchdog_inv (s\<lparr>wd_hup := g, wd_signalled := ps\<rparr>)"
  "watchdog_inv s \<Longrightarrow> watchdog_inv (s\<lparr>wd_hup := g\<rparr>)"
  "watchdog_inv s \<Longrightarrow> watchdog_inv (s\<lparr>wd_exit := Some Panicked\<rparr>)"
  "watchdog_inv s \<Longrightarrow> watchdog_inv (s\<lparr>wd_live := wd_live s - {p}\<rparr>)"
  by (cases "wd_main s"; cases "wd_handler s"; force simp: watchdog_defs)+

lemma hupStep_inv: "watchdog_inv s \<Longrightarrow> watchdog_inv (hupStep s)"
  by (simp add: hupStep_def deref_def watchdog_inv_frame split: hupPC.split option.split)

lemma watchdogStep_inv: "watchdog_inv s \<Longrightarrow> watchdog_inv (watchdogStep r e s)"
  by (cases e) (simp_all add: watchdogStep_def mainStep_inv handlerStep_inv hupStep_inv watchdog_inv_frame(4))

lemma watchdogRun_inv: "watchdog_inv (watchdogRun r es)"
proof -
  have "watchdog_inv s \<Longrightarrow> watchdog_inv (fold (watchdogStep r) es s)" for s
    by (induction es arbitrary: s) (simp_all add: watchdogStep_inv)
  then show ?thesis unfolding watchdogRun_def using watchdog_inv_start by blast
qed

text \<open>C11. However the loop, the signal handlers and the end of workers interleave, there is at most one
  worker at any time: the one the loop has started and waits for.\<close>

theorem one_worker: "wd_live (watchdogRun r es) \<subseteq> ownWorker (watchdogRun r es)"
  using watchdogRun_inv[of r es] by (simp add: watchdog_inv_def)

text \<open>C37. A shutdown that has seen a worker leaves none behind: when the watchdog exits after forwarding
  the signal, no worker runs.\<close>

theorem forwarded_shutdown:
  assumes "wd_exit (watchdogRun r es) = Some (HandlerExit True)"
  shows "wd_live (watchdogRun r es) = {}"
  using watchdogRun_inv[of r es] assms by (simp add: watchdog_inv_def)

lemma forwarded_shutdown_witness:
  "wd_live (watchdogRun True ([MainEvent (Some 1) False, MainEvent None False] @ replicate 6 (HandlerEvent False) @
     [HandlerEvent True, HandlerEvent False, HandlerEvent False])) = {}"
  by (rule forwarded_shutdown)
     (simp add: watchdogRun_def watchdogStart_def watchdogStep_def mainStep_def handlerStep_def deref_def eval_nat_numeral)

section \<open>Two races\<close>

text \<open>A signal that comes between the start of a worker and the assignment to \<open>currentWorker\<close> ends the
  watchdog at once and leaves the worker running without anyone to stop it.\<close>

theorem orphaned_worker:
  "\<exists>es p. wd_exit (watchdogRun r es) = Some (HandlerExit False) \<and> p \<in> wd_live (watchdogRun r es) \<and>
     \<not> wd_pidFile (watchdogRun r es)"
  by (rule exI[of _ "[MainEvent (Some 1) False] @ replicate 3 (HandlerEvent False)"], rule exI[of _ 1])
     (simp add: watchdogRun_def watchdogStart_def watchdogStep_def mainStep_def handlerStep_def deref_def eval_nat_numeral)

text \<open>When the worker ends while the handler looks at it, the handler uses nil: the watchdog panics and
  leaves its PID file.\<close>

theorem shutdown_panics:
  "\<exists>es. wd_exit (watchdogRun r es) = Some Panicked \<and> wd_pidFile (watchdogRun r es)"
  by (rule exI[of _ "[MainEvent (Some 1) False, MainEvent None False, HandlerEvent False, HandlerEvent False,
         WorkerExit 1, MainEvent None True, MainEvent None True, HandlerEvent False]"])
     (simp add: watchdogRun_def watchdogStart_def watchdogStep_def mainStep_def handlerStep_def deref_def)

end
