(* ===== verification/Daemon_Tail.thy ===== *)
theory Daemon_Tail
  imports Cidr_Text
begin

text \<open>
  The excerpt of a log that \<open>status\<close> prints (\<open>tailFile\<close> in \<^verbatim>\<open>src/daemon/daemon_unix.go\<close>): the file is
  read in blocks from its end, the newlines in them are counted, and the text from the start position
  on is printed line by line. The file does not change meanwhile and can be read.
\<close>

section \<open>The search for the start\<close>

text \<open>One block, from its last character to its first: \<open>i\<close> are left; the block starts at \<open>offset\<close>.\<close>

fun scanBlock :: "nat \<Rightarrow> nat \<Rightarrow> string \<Rightarrow> nat \<Rightarrow> nat \<times> nat \<Rightarrow> nat \<times> nat" where
  "scanBlock n offset buf 0 (linesFound, startPos) = (linesFound, startPos)"
| "scanBlock n offset buf (Suc i) (linesFound, startPos) =
     (if buf ! i = CHR 0x0A
      then if linesFound + 1 = n then (linesFound + 1, offset + i + 1)
           else scanBlock n offset buf i (linesFound + 1, startPos)
      else scanBlock n offset buf i (linesFound, startPos))"

definition tailBufSize :: nat where
  "tailBufSize = 4096"

function tailLoop :: "nat \<Rightarrow> string \<Rightarrow> nat \<Rightarrow> nat \<Rightarrow> nat \<times> nat \<Rightarrow> nat" where
  "tailLoop n file bufSize offset (linesFound, startPos) =
     (if 0 < offset \<and> 0 < bufSize \<and> linesFound \<le> n
      then let size' = min bufSize offset; offset' = offset - size'
           in tailLoop n file size' offset' (scanBlock n offset' (take size' (drop offset' file)) size' (linesFound, startPos))
      else startPos)"
  by pat_completeness auto
termination
  by (relation "measure (\<lambda>(n, file, bufSize, offset, s). offset)") auto

definition tailStart :: "nat \<Rightarrow> string \<Rightarrow> nat" where
  "tailStart n file = tailLoop n file tailBufSize (length file) (0, 0)"

text \<open>What it prints from there: the lines of the scanner that the CIDR lists are read with, and whether
  it stopped at a line too long for its buffer, the error of the function.\<close>

definition tailFile :: "string \<Rightarrow> nat \<Rightarrow> string list \<times> bool" where
  "tailFile file n = scan_lines (drop (tailStart n file) file)"

section \<open>What it finds\<close>

text \<open>The reference: the position after the \<open>n\<close>th newline from the end, or the start of the file.\<close>

definition newlines :: "string \<Rightarrow> nat list" where
  "newlines s = filter (\<lambda>i. s ! i = CHR 0x0A) [0..<length s]"

definition afterNewline :: "nat \<Rightarrow> string \<Rightarrow> nat" where
  "afterNewline n s = (if n \<le> length (newlines s) then Suc (newlines s ! (length (newlines s) - n)) else 0)"

text \<open>Newlines from a position on, and the state of the search there.\<close>

definition newlinesFrom :: "nat \<Rightarrow> string \<Rightarrow> nat list" where
  "newlinesFrom k s = filter (\<lambda>i. s ! i = CHR 0x0A) [k..<length s]"

definition found :: "nat \<Rightarrow> string \<Rightarrow> nat \<Rightarrow> nat \<times> nat \<Rightarrow> bool" where
  "found n s k st \<longleftrightarrow>
     (let ns = newlinesFrom k s in
      if length ns < n then st = (length ns, 0) else n \<le> fst st \<and> snd st = Suc (ns ! (length ns - n)))"


lemma newlinesFrom_step:
  assumes "k < length s"
  shows "newlinesFrom k s = (if s ! k = CHR 0x0A then k # newlinesFrom (Suc k) s else newlinesFrom (Suc k) s)"
  using assms by (simp add: newlinesFrom_def upt_conv_Cons)

text \<open>Before the \<open>n\<close>th newline is found the state is a count; from then on the start stays what it is.\<close>

lemma found_step:
  assumes "found n s (Suc k) (c, p)" and "c < n" and "k < length s"
  shows "found n s k (if s ! k = CHR 0x0A then (Suc c, if Suc c = n then Suc k else p) else (c, p))"
  using assms newlinesFrom_step [OF assms(3)] by (auto simp: found_def Let_def split: if_splits)

lemma found_more:
  assumes "found n s (Suc k) (c, p)" and "n \<le> c" and "0 < n" and "k < length s"
  shows "found n s k (c + d, p)"
proof -
  have "n \<le> length (newlinesFrom (Suc k) s)"
    using assms(1,2) by (auto simp: found_def Let_def split: if_splits)
  then show ?thesis
    using assms newlinesFrom_step [OF assms(4)] by (auto simp: found_def Let_def Suc_diff_le nth_Cons' split: if_splits)
qed

lemma found_mono:
  assumes "found n s j (c, p)" and "n \<le> c" and "0 < n" and "k \<le> j" and "j \<le> length s" and "n \<le> c'"
  shows "found n s k (c', p)"
  using assms(4,1,2,5,6)
proof (induction j arbitrary: c rule: dec_induct)
  case base
  then show ?case
    by (auto simp: found_def Let_def split: if_splits)
next
  case (step j)
  have "found n s j (c + 0, p)"
    using step.prems assms(3) by (intro found_more) auto
  then show ?case
    using step by auto
qed

lemma scanBlock_found:
  assumes "found n s (offset + i) (c, p)" and "0 < n" and "i \<le> length buf" and "offset + i \<le> length s"
    and "\<And>j. j < i \<Longrightarrow> buf ! j = s ! (offset + j)"
  shows "found n s offset (scanBlock n offset buf i (c, p))"
  using assms
proof (induction i arbitrary: c p)
  case 0
  then show ?case by simp
next
  case (Suc i)
  have at: "buf ! i = s ! (offset + i)"
    using Suc.prems(5) by simp
  have fnd: "found n s (Suc (offset + i)) (c, p)"
    using Suc.prems(1) by simp
  have rest: "found n s (offset + i) st \<Longrightarrow> found n s offset (scanBlock n offset buf i st)" for st
    using Suc.IH [of "fst st" "snd st"] Suc.prems by simp
  show ?case
  proof (cases "c < n")
    case True
    have st: "found n s (offset + i) (if s ! (offset + i) = CHR 0x0A then (Suc c, if Suc c = n then Suc (offset + i) else p) else (c, p))"
      using found_step [OF fnd True] Suc.prems by simp
    show ?thesis
    proof (cases "s ! (offset + i) = CHR 0x0A \<and> Suc c = n")
      case True
      then show ?thesis
        using st at Suc.prems by (auto intro: found_mono)
    next
      case False
      then show ?thesis
        using rest [OF st] at by auto
    qed
  next
    case False
    then have "found n s (offset + i) (if s ! (offset + i) = CHR 0x0A then (Suc c, p) else (c, p))"
      using found_more [OF fnd, of 1] found_more [OF fnd, of 0] Suc.prems by auto
    then show ?thesis
      using rest at False by auto
  qed
qed

lemma tailLoop_found:
  assumes "found n s offset st" and "0 < n" and "offset \<le> length s" and "0 < bufSize"
  shows "tailLoop n s bufSize offset st = afterNewline n s"
  using assms
proof (induction n s bufSize offset st rule: tailLoop.induct)
  case (1 n s bufSize offset c p)
  define sz where "sz = min bufSize offset"
  show ?case
  proof (cases "0 < offset \<and> c \<le> n")
    case True
    have "found n s (offset - sz) (scanBlock n (offset - sz) (take sz (drop (offset - sz) s)) sz (c, p))"
      using "1.prems" by (intro scanBlock_found) (auto simp: sz_def min_def)
    then show ?thesis
      using "1.IH" "1.prems" True by (simp add: sz_def)
  next
    case False
    have whole: "newlinesFrom 0 s = newlines s"
      by (simp add: newlinesFrom_def newlines_def)
    have "found n s 0 (c, p)"
      using False "1.prems" found_mono [of n s offset c p 0 c] by (cases "offset = 0") auto
    then show ?thesis
      using False by (auto simp: found_def Let_def whole afterNewline_def split: if_splits)
  qed
qed

lemma tailStart_finds:
  assumes "0 < n"
  shows "tailStart n s = afterNewline n s"
  unfolding tailStart_def
  by (rule tailLoop_found) (use assms in \<open>auto simp: found_def newlinesFrom_def tailBufSize_def\<close>)

text \<open>The search for the start of the excerpt: reading the file in blocks of at most 4096 characters
  from its end, \<open>tailFile\<close> finds the position right after the \<open>n\<close>th newline from the end, or the start of a
  file with fewer newlines, wherever the block boundaries fall and however many further blocks the loop
  reads after it has found it.\<close>

theorem tail_start_found:
  assumes "0 < n"
  shows "tailStart n s = afterNewline n s"
  by (rule tailStart_finds [OF assms])

theorem tail_start_found_witness:
  "tailStart 2 (''a'' @ [CHR 0x0A] @ ''b'' @ [CHR 0x0A]) = afterNewline 2 (''a'' @ [CHR 0x0A] @ ''b'' @ [CHR 0x0A])"
  by (rule tail_start_found) simp

section \<open>A log of whole lines\<close>

definition unlines :: "string list \<Rightarrow> string" where
  "unlines ls = concat (map (\<lambda>l. l @ [CHR 0x0A]) ls)"

lemma newlines_line:
  assumes "CHR 0x0A \<notin> set l"
  shows "newlines (l @ CHR 0x0A # s) = length l # map (\<lambda>i. Suc (length l + i)) (newlines s)"
proof -
  have "[0..<length (l @ CHR 0x0A # s)] = [0..<length l] @ length l # map (\<lambda>i. Suc (length l + i)) [0..<length s]"
    by (rule nth_equalityI) (auto simp: nth_append nth_Cons')
  moreover have "filter (\<lambda>i. (l @ CHR 0x0A # s) ! i = CHR 0x0A) [0..<length l] = []"
    using assms by (auto simp: filter_empty_conv nth_append in_set_conv_nth)
  ultimately show ?thesis
    by (simp add: newlines_def filter_map o_def nth_append)
qed

lemma length_newlines_unlines:
  "list_all plain_line ls \<Longrightarrow> length (newlines (unlines ls)) = length ls"
  by (induction ls) (auto simp: unlines_def newlines_line plain_line_def, simp add: newlines_def)

lemma drop_afterNewline:
  assumes "list_all plain_line ls" and "0 < n"
  shows "drop (afterNewline n (unlines ls)) (unlines ls) = unlines (if length ls < n then ls else drop (Suc (length ls - n)) ls)"
  using assms(1)
proof (induction ls)
  case Nil
  then show ?case
    using assms(2) by (simp add: unlines_def afterNewline_def newlines_def)
next
  case (Cons l ls)
  have ns: "newlines (unlines (l # ls)) = length l # map (\<lambda>i. Suc (length l + i)) (newlines (unlines ls))"
    using Cons.prems by (simp add: unlines_def newlines_line plain_line_def)
  have len: "length (newlines (unlines ls)) = length ls"
    using Cons.prems by (simp add: length_newlines_unlines)
  have u: "unlines (l # ls) = l @ CHR 0x0A # unlines ls"
    by (simp add: unlines_def)
  consider "length ls < n" "n \<noteq> Suc (length ls)" | "n = Suc (length ls)" | "n \<le> length ls"
    by linarith
  then show ?case
  proof cases
    case 1
    then show ?thesis by (simp add: afterNewline_def ns len)
  next
    case 2
    have "afterNewline n (unlines (l # ls)) = Suc (length l)"
      using 2 by (simp add: afterNewline_def ns len)
    then show ?thesis
      using 2 by (simp add: u)
  next
    case 3
    then have "afterNewline n (unlines (l # ls)) = Suc (length l + afterNewline n (unlines ls))"
      using assms(2) by (simp add: afterNewline_def ns len Suc_diff_le)
    then show ?thesis
      using Cons 3 by (simp add: u Suc_diff_le)
  qed
qed

text \<open>What \<open>status\<close> prints of a log whose lines are all ended by a newline: asked for \<open>n\<close> lines of a log
  that has as many, it prints the last \<open>n - 1\<close>, for the newline that ends the last line is counted as if
  a line followed it.\<close>

theorem tail_one_line_short:
  assumes "list_all plain_line ls" and "0 < n" and "n \<le> length ls"
  shows "tailFile (unlines ls) n = (drop (Suc (length ls - n)) ls, False) \<and> length (fst (tailFile (unlines ls) n)) = n - 1"
proof -
  have "tailFile (unlines ls) n = scan_lines (unlines (drop (Suc (length ls - n)) ls))"
    using drop_afterNewline [OF assms(1,2)] assms(3) by (simp add: tailFile_def tailStart_finds [OF assms(2)])
  also have "\<dots> = (drop (Suc (length ls - n)) ls, False)"
    unfolding unlines_def using assms(1) by (intro scan_lines_concat) (auto simp: list_all_iff dest: in_set_dropD)
  finally show ?thesis
    using assms by simp
qed

text \<open>The call of the code, on a log of ten lines: nine are printed.\<close>

theorem tail_one_line_short_witness:
  "length (fst (tailFile (unlines (replicate 10 ''line'')) 10)) = 9"
  using tail_one_line_short [of "replicate 10 ''line''" 10] by (simp add: plain_line_def list_all_iff)

end
