(* ===== verification/Shutdown.thy ===== *)
theory Shutdown
  imports Acme_Manager Reload_Timer
begin

text \<open>
  How a serving process ends: \<open>setupSignals\<close> (\<^verbatim>\<open>src/server_unix.go\<close>, \<^verbatim>\<open>src/server_windows.go\<close>), the end
  of \<open>run\<close> (\<^verbatim>\<open>src/server.go\<close>) and the signal goroutine of a plain daemon (\<open>setupGracefulShutdown\<close> without
  a worker, \<^verbatim>\<open>src/daemon/daemon_unix.go\<close>), as interleaved steps. Of \<^verbatim>\<open>net/http\<close> the model uses what its
  documentation says: when \<open>Shutdown\<close> is called, \<open>Serve\<close> returns at once and no request begins any more;
  \<open>Shutdown\<close> itself returns when no request is left.
\<close>

section \<open>State\<close>

datatype signal = SIGHUP | SIGINT | SIGTERM

text \<open>The signals that the two builds ask for.\<close>

definition unixSignals :: "signal list" where "unixSignals = [SIGHUP, SIGINT, SIGTERM]"
definition windowsSignals :: "signal list" where "windowsSignals = [SIGINT, SIGTERM]"

definition ends :: "signal \<Rightarrow> bool" where "ends sig \<longleftrightarrow> sig = SIGINT \<or> sig = SIGTERM"

text \<open>The goroutine of the daemon package, in a plain daemon.\<close>

datatype daemonGoroutine = Absent | Waiting | Received | Removed

text \<open>\<open>ps_channel\<close> is the channel of one signal, \<open>ps_listening\<close> whether the goroutine behind it still reads,
  \<open>ps_shutdown\<close> whether it is inside \<open>Shutdown\<close>, \<open>ps_returned\<close> whether \<open>run\<close> has returned.\<close>

record 'c procState =
  ps_channel :: "signal option"
  ps_listening :: bool
  ps_shutdown :: bool
  ps_serving :: bool
  ps_requests :: nat
  ps_timer :: reloadTimer
  ps_manager :: "'c manager option"
  ps_returned :: bool
  ps_daemon :: daemonGoroutine
  ps_pidFile :: bool
  ps_exited :: bool

definition serving :: "daemonGoroutine \<Rightarrow> 'c manager option \<Rightarrow> 'c procState" where
  "serving d mgr =
     \<lparr>ps_channel = None, ps_listening = True, ps_shutdown = False, ps_serving = True, ps_requests = 0,
      ps_timer = None, ps_manager = mgr, ps_returned = False, ps_daemon = d, ps_pidFile = (d \<noteq> Absent),
      ps_exited = False\<rparr>"

section \<open>Steps\<close>

datatype procEvent =
    Deliver signal
  | TakeSignal duration
  | ShutdownReturns
  | ServeReturns
  | MainReturns
  | DaemonRemoves
  | DaemonExits
  | RequestBegins
  | RequestEnds

text \<open>A signal for which the channel has no room is lost.\<close>

definition deliver :: "signal \<Rightarrow> 'c procState \<Rightarrow> 'c procState" where
  "deliver sig s =
     s\<lparr>ps_channel := (case ps_channel s of None \<Rightarrow> Some sig | waiting \<Rightarrow> waiting),
       ps_daemon := (if ps_daemon s = Waiting \<and> ends sig then Received else ps_daemon s)\<rparr>"

text \<open>The loop of \<open>setupSignals\<close>: one signal.\<close>

definition handleSignal :: "duration \<Rightarrow> 'c procState \<Rightarrow> 'c procState option" where
  "handleSignal now s =
     (if \<not> ps_listening s \<or> ps_shutdown s then None
      else (case ps_channel s of
              None \<Rightarrow> None
            | Some sig \<Rightarrow>
                if sig = SIGHUP then Some (s\<lparr>ps_channel := None, ps_timer := scheduledReload now False (ps_timer s)\<rparr>)
                else Some (s\<lparr>ps_channel := None, ps_serving := False, ps_shutdown := True\<rparr>)))"

text \<open>The end of \<open>run\<close> after \<open>ErrServerClosed\<close>.\<close>

definition serveReturns :: "'c procState \<Rightarrow> 'c procState" where
  "serveReturns s = s\<lparr>ps_manager := map_option managerStop (ps_manager s), ps_returned := True\<rparr>"

fun procStep :: "signal list \<Rightarrow> procEvent \<Rightarrow> 'c procState \<Rightarrow> 'c procState option" where
  "procStep notified (Deliver sig) s = (if sig \<in> set notified then Some (deliver sig s) else None)"
| "procStep notified (TakeSignal now) s = handleSignal now s"
| "procStep notified ShutdownReturns s =
     (if ps_shutdown s \<and> ps_requests s = 0 then Some (s\<lparr>ps_shutdown := False, ps_listening := False\<rparr>) else None)"
| "procStep notified ServeReturns s = (if \<not> ps_serving s \<and> \<not> ps_returned s then Some (serveReturns s) else None)"
| "procStep notified MainReturns s = (if ps_returned s then Some (s\<lparr>ps_exited := True\<rparr>) else None)"
| "procStep notified DaemonRemoves s =
     (if ps_daemon s = Received then Some (s\<lparr>ps_daemon := Removed, ps_pidFile := False\<rparr>) else None)"
| "procStep notified DaemonExits s = (if ps_daemon s = Removed then Some (s\<lparr>ps_exited := True\<rparr>) else None)"
| "procStep notified RequestBegins s =
     (if ps_serving s then Some (s\<lparr>ps_requests := Suc (ps_requests s)\<rparr>) else None)"
| "procStep notified RequestEnds s =
     (if 0 < ps_requests s then Some (s\<lparr>ps_requests := ps_requests s - 1\<rparr>) else None)"

text \<open>A run ends with the process.\<close>

fun procRun :: "signal list \<Rightarrow> procEvent list \<Rightarrow> 'c procState \<Rightarrow> 'c procState option" where
  "procRun notified [] s = Some s"
| "procRun notified (e # es) s =
     (if ps_exited s then None
      else (case procStep notified e s of None \<Rightarrow> None | Some s' \<Rightarrow> procRun notified es s'))"

section \<open>Invariants of runs\<close>

lemma procRun_invariant:
  assumes "procRun notified es s = Some s'" and "P s"
    and "\<And>e s s'. e \<in> set es \<Longrightarrow> P s \<Longrightarrow> procStep notified e s = Some s' \<Longrightarrow> P s'"
  shows "P s'"
  using assms
  by (induction notified es s rule: procRun.induct) (auto split: if_splits option.splits)

lemmas procStep_defs = deliver_def handleSignal_def serveReturns_def

text \<open>Without a signal that ends it, a process goes on serving.\<close>

definition untouched :: "'c procState \<Rightarrow> bool" where
  "untouched s \<longleftrightarrow> ps_serving s \<and> \<not> ps_returned s \<and> \<not> ps_exited s \<and> ps_daemon s \<notin> {Received, Removed} \<and>
     (case ps_channel s of None \<Rightarrow> True | Some sig \<Rightarrow> \<not> ends sig)"

definition quiet :: "procEvent \<Rightarrow> bool" where
  "quiet e \<longleftrightarrow> e \<noteq> Deliver SIGINT \<and> e \<noteq> Deliver SIGTERM"

lemma untouched_step:
  assumes "untouched s" and "quiet e" and "procStep notified e s = Some s'"
  shows "untouched s'"
proof (cases e)
  case (Deliver sig)
  with assms(2) have "sig = SIGHUP" by (cases sig) (auto simp: quiet_def)
  with assms Deliver show ?thesis
    by (auto simp: untouched_def procStep_defs ends_def split: if_splits option.splits)
next
  case (TakeSignal now)
  with assms show ?thesis
    by (auto simp: untouched_def procStep_defs ends_def split: if_splits option.splits elim: signal.exhaust)
       (metis signal.exhaust)+
qed (use assms in \<open>auto simp: untouched_def procStep_defs split: if_splits\<close>)

lemma goes_on:
  assumes "procRun notified es (serving d mgr) = Some s" and "d = Absent \<or> d = Waiting" and "list_all quiet es"
  shows "untouched s"
proof (rule procRun_invariant[where P = untouched, OF assms(1)])
  show "untouched (serving d mgr)" using assms(2) by (auto simp: untouched_def serving_def)
next
  fix e s s'
  assume "e \<in> set es" "untouched s" "procStep notified e s = Some s'"
  with assms(3) show "untouched s'" by (auto simp: list_all_iff intro: untouched_step)
qed

definition orderly :: "'c procState \<Rightarrow> bool" where
  "orderly s \<longleftrightarrow> ps_daemon s = Absent \<and>
     (if ps_returned s then \<not> ps_serving s \<and> (case ps_manager s of None \<Rightarrow> True | Some m \<Rightarrow> mg_stopped m)
      else \<not> ps_exited s)"

lemma orderly_step: "orderly s \<Longrightarrow> procStep notified e s = Some s' \<Longrightarrow> orderly s'"
  by (cases e) (auto simp: orderly_def procStep_defs managerStop_def split: if_splits option.splits)



section \<open>What the order of events allows\<close>

text \<open>\<open>Serve\<close> returns before \<open>Shutdown\<close> does, and \<open>main\<close> does not wait for it: a request that is being
  answered when the signal comes is cut off.\<close>

theorem requests_cut_off:
  "\<exists>s. procRun unixSignals [RequestBegins, Deliver SIGTERM, TakeSignal t, ServeReturns, MainReturns] (serving Absent mgr) = Some s \<and>
    ps_exited s \<and> ps_requests s = 1"
  by (simp add: serving_def unixSignals_def procStep_defs)

text \<open>In a plain daemon two goroutines get the signal. When \<open>main\<close> returns first, the PID file of the dead
  process stays; when the other one exits first, the certificate manager is not stopped.\<close>

theorem pid_file_stays:
  "\<exists>s. procRun unixSignals [Deliver SIGTERM, TakeSignal t, ServeReturns, MainReturns] (serving Waiting mgr) = Some s \<and>
    ps_exited s \<and> ps_pidFile s"
  by (simp add: serving_def unixSignals_def procStep_defs ends_def)

theorem manager_not_stopped:
  "\<exists>s. procRun unixSignals [Deliver SIGTERM, DaemonRemoves, DaemonExits] (serving Waiting mgr) = Some s \<and>
    ps_exited s \<and> ps_manager s = mgr"
  by (simp add: serving_def unixSignals_def procStep_defs ends_def)

text \<open>A signal that comes while another one waits is lost, \<open>SIGTERM\<close> after \<open>SIGHUP\<close> too.\<close>

theorem second_signal_lost:
  "procRun unixSignals [Deliver SIGHUP, Deliver SIGTERM] (serving Absent mgr) =
    procRun unixSignals [Deliver SIGHUP] (serving Absent mgr)"
  by (simp add: serving_def unixSignals_def procStep_defs)

end
