(* ===== verification/Daemon.thy ===== *)
theory Daemon
  imports Cidr_Text Acme_Config
begin

text \<open>
  The daemon commands (\<^verbatim>\<open>src/daemon/daemon_unix.go\<close>): which role a process has, the command word
  among the arguments, the PID file, and \<open>start\<close>, \<open>watch-start\<close>, \<open>stop\<close>, \<open>restart\<close>, \<open>reload\<close> and \<open>status\<close>
  as operations on a machine of files and processes. What happens outside the command (whether a fork
  succeeds, what a signalled process does) is a parameter. The watchdog itself is in
  \<open>Daemon_Watchdog\<close>, the log excerpt of \<open>status\<close> in \<open>Daemon_Tail\<close>.
\<close>

section \<open>Go library\<close>

text \<open>\<^verbatim>\<open>strconv.Atoi\<close>.\<close>

definition Atoi :: "string \<Rightarrow> int option" where
  "Atoi s =
     (let signed = s \<noteq> [] \<and> (hd s = CHR ''-'' \<or> hd s = CHR ''+'');
          ds = (if signed then tl s else s);
          n = (if s \<noteq> [] \<and> hd s = CHR ''-'' then - digits_val 0 ds else digits_val 0 ds)
      in if ds = [] \<or> \<not> list_all is_digit ds \<or> n < - (2 ^ 63) \<or> 2 ^ 63 - 1 < n then None else Some n)"

definition Itoa :: "int \<Rightarrow> string" where
  "Itoa n = (if n < 0 then CHR ''-'' # decimal_of (- n) else decimal_of n)"

definition filepath_Base :: "string \<Rightarrow> string" where
  "filepath_Base p =
     (if p = [] then ''.''
      else let q = TrimRight p CHR ''/'' in
        if q = [] then ''/'' else rev (takeWhile (\<lambda>c. c \<noteq> CHR ''/'') (rev q)))"

text \<open>\<^verbatim>\<open>filepath.Abs\<close>, its error dropped: \<open>cwd\<close> is the working directory, if it can be found.\<close>

definition filepath_Abs :: "string option \<Rightarrow> string \<Rightarrow> string" where
  "filepath_Abs cwd p =
     (if HasPrefix p ''/'' then filepath_Clean p
      else case cwd of None \<Rightarrow> [] | Some d \<Rightarrow> filepath_Join [d, p])"

section \<open>Configuration\<close>

record Commands =
  cmd_Start :: string
  cmd_WatchStart :: string
  cmd_Stop :: string
  cmd_Restart :: string
  cmd_Reload :: string
  cmd_Status :: string

definition noCommands :: Commands where
  "noCommands =
     \<lparr>cmd_Start = [], cmd_WatchStart = [], cmd_Stop = [], cmd_Restart = [], cmd_Reload = [], cmd_Status = []\<rparr>"

definition defaultCommands :: Commands where
  "defaultCommands =
     \<lparr>cmd_Start = ''start'', cmd_WatchStart = ''watch-start'', cmd_Stop = ''stop'', cmd_Restart = ''restart'',
      cmd_Reload = ''reload'', cmd_Status = ''status''\<rparr>"

record daemonConfig =
  dc_AppName :: string
  dc_PidfilePrefix :: string
  dc_HashKey :: string
  dc_WaitAfterStart :: duration
  dc_WatchdogRestartDelay :: duration
  dc_LoggerFile :: string
  dc_WatchdogLoggerFile :: string
  dc_RestartOnCleanExit :: bool
  dc_CommandStrings :: Commands
  dc_TmpFileTouchInterval :: duration
  dc_pidFile :: string

text \<open>\<open>exe\<close> is the path of the executable, empty when it is not known.\<close>

definition setBasicDefaults :: "string \<Rightarrow> daemonConfig \<Rightarrow> daemonConfig" where
  "setBasicDefaults exe cfg =
     (let c1 = (if dc_TmpFileTouchInterval cfg = 0 then cfg\<lparr>dc_TmpFileTouchInterval := 12 * hour\<rparr> else cfg);
          c2 = (if dc_AppName c1 = [] then c1\<lparr>dc_AppName := filepath_Base exe\<rparr> else c1);
          c3 = (if dc_PidfilePrefix c2 = [] then c2\<lparr>dc_PidfilePrefix := filepath_Base exe\<rparr> else c2);
          c4 = (if dc_WaitAfterStart c3 = 0 then c3\<lparr>dc_WaitAfterStart := 500 * millisecond\<rparr> else c3)
      in if dc_WatchdogRestartDelay c4 = 0 then c4\<lparr>dc_WatchdogRestartDelay := 2 * second\<rparr> else c4)"

section \<open>Roles and commands\<close>

definition pidFileEnvVar :: string where "pidFileEnvVar = ''DAEMON_PID_FILE''"
definition watchdogEnvVar :: string where "watchdogEnvVar = ''DAEMON_IS_WATCHDOG''"
definition workerEnvVar :: string where "workerEnvVar = ''DAEMON_IS_WORKER''"

text \<open>\<^verbatim>\<open>os.Getenv\<close> on an environment of \<open>KEY=VALUE\<close> strings; of two entries for a key a process
  gets the last one.\<close>

definition getenv :: "string list \<Rightarrow> string \<Rightarrow> string" where
  "getenv env key =
     (case find (\<lambda>e. HasPrefix e (key @ ''='')) (rev env) of None \<Rightarrow> [] | Some e \<Rightarrow> drop (length key + 1) e)"

datatype role = WorkerRole | WatchdogRole string | DaemonRole string | ParentRole

definition roleOf :: "string list \<Rightarrow> role" where
  "roleOf env =
     (if getenv env workerEnvVar = ''1'' then WorkerRole
      else if getenv env watchdogEnvVar = ''1'' then WatchdogRole (getenv env pidFileEnvVar)
      else if getenv env pidFileEnvVar \<noteq> [] then DaemonRole (getenv env pidFileEnvVar)
      else ParentRole)"

definition validCommands :: "Commands \<Rightarrow> string list" where
  "validCommands c =
     filter (\<lambda>w. w \<noteq> []) [cmd_Start c, cmd_WatchStart c, cmd_Stop c, cmd_Restart c, cmd_Reload c, cmd_Status c]"

text \<open>The loop from the last argument to the first; the number is how many are left.\<close>

fun scanCommand :: "string list \<Rightarrow> string list \<Rightarrow> nat \<Rightarrow> string \<times> string list" where
  "scanCommand valid args 0 = ([], args)"
| "scanCommand valid args (Suc i) =
     (if args ! i \<in> set valid then (args ! i, take i args @ drop (Suc i) args)
      else scanCommand valid args i)"

definition parseArgs :: "string list \<Rightarrow> Commands \<Rightarrow> string \<times> string list" where
  "parseArgs args c = scanCommand (validCommands c) args (length args)"

datatype action =
    RunAttached
  | StartAction "string list"
  | WatchStartAction "string list"
  | StopAction
  | RestartAction
  | ReloadAction
  | StatusAction

text \<open>The map from words to handlers: of two handlers for a word the later one counts.\<close>

definition handlersOf :: "Commands \<Rightarrow> string list \<Rightarrow> (string \<times> action) list" where
  "handlersOf c passArgs =
     [(cmd_Start c, StartAction passArgs), (cmd_WatchStart c, WatchStartAction passArgs),
      (cmd_Stop c, StopAction), (cmd_Restart c, RestartAction), (cmd_Reload c, ReloadAction),
      (cmd_Status c, StatusAction)]"

definition parentAction :: "daemonConfig \<Rightarrow> string list \<Rightarrow> action" where
  "parentAction cfg args =
     (let c = (if dc_CommandStrings cfg = noCommands then defaultCommands else dc_CommandStrings cfg) in
      case parseArgs args c of
        (command, passArgs) \<Rightarrow>
          (case map_of (rev (handlersOf c passArgs)) command of
             Some a \<Rightarrow> if command \<noteq> [] then a else RunAttached
           | None \<Rightarrow> RunAttached))"

section \<open>The PID file\<close>

text \<open>What the path is made from: \<open>md5hex\<close> is the hash in hexadecimal digits.\<close>

record pidEnv =
  pe_cwd :: "string option"
  pe_exe :: string
  pe_uid :: int
  pe_tempDir :: string
  pe_md5hex :: "string \<Rightarrow> string"

definition pidRaw :: "pidEnv \<Rightarrow> string \<Rightarrow> string" where
  "pidRaw e key =
     Itoa (pe_uid e) @ key @ filepath_Abs (pe_cwd e) (pe_exe e)"

definition pidFilePath :: "pidEnv \<Rightarrow> daemonConfig \<Rightarrow> string option" where
  "pidFilePath e cfg =
     (let key = (if dc_HashKey cfg = [] then map_option (\<lambda>d. filepath_Abs (Some d) d) (pe_cwd e) else Some (dc_HashKey cfg))
      in map_option (\<lambda>k. filepath_Join [pe_tempDir e,
           dc_PidfilePrefix cfg @ ''-'' @ pe_md5hex e (pidRaw e k) @ ''.pid'']) key)"

definition writePID :: "int \<Rightarrow> string \<Rightarrow> string" where
  "writePID pid mode = Itoa pid @ [CHR 0x0A] @ mode @ [CHR 0x0A]"

definition readPID :: "string \<Rightarrow> (int \<times> string) option" where
  "readPID data =
     (let lines = SplitN2 (TrimSpace data) CHR 0x0A in
      case Atoi (TrimSpace (hd lines)) of
        None \<Rightarrow> None
      | Some pid \<Rightarrow> Some (pid, if 1 < length lines then TrimSpace (lines ! 1) else ''start''))"

section \<open>The machine\<close>

record process =
  pr_args :: "string list"
  pr_env :: "string list"

text \<open>\<open>m_procs\<close> are the processes that the user may signal.\<close>

record machine =
  m_files :: "string \<Rightarrow> string option"
  m_procs :: "int \<Rightarrow> process option"

datatype forkResult = ForkFails | ExitsAtOnce | Forks int

text \<open>What a command cannot decide: its environment and executable, the outcome of a fork and of a
  write, whether a signal is delivered, and the machine at each look after a SIGTERM.\<close>

record shell =
  sh_environ :: "string list"
  sh_exe :: string
  sh_fork :: "machine \<Rightarrow> forkResult"
  sh_writes :: bool
  sh_signals :: "int \<Rightarrow> bool"
  sh_later :: "machine \<Rightarrow> int \<Rightarrow> nat \<Rightarrow> machine"

definition removeFile :: "string \<Rightarrow> machine \<Rightarrow> machine" where
  "removeFile f m = m\<lparr>m_files := (m_files m)(f := None)\<rparr>"

definition readPIDFile :: "daemonConfig \<Rightarrow> machine \<Rightarrow> (int \<times> string) option" where
  "readPIDFile cfg m = Option.bind (m_files m (dc_pidFile cfg)) readPID"

definition processExists :: "int \<Rightarrow> machine \<Rightarrow> bool" where
  "processExists pid m \<longleftrightarrow> m_procs m pid \<noteq> None"

text \<open>\<^verbatim>\<open>/proc/PID/cmdline\<close> ends every argument with a zero byte.\<close>

definition cmdline :: "string list \<Rightarrow> string" where
  "cmdline args = concat (map (\<lambda>a. a @ [CHR 0x00]) args)"

definition getProcessArgs :: "int \<Rightarrow> machine \<Rightarrow> string list option" where
  "getProcessArgs pid m =
     (case m_procs m pid of
        None \<Rightarrow> None
      | Some p \<Rightarrow>
          let trimmed = TrimRight (cmdline (pr_args p)) CHR 0x00
          in if trimmed = [] then None else Some (Split trimmed CHR 0x00))"

definition getWatchdogLogfileName :: "daemonConfig \<Rightarrow> string" where
  "getWatchdogLogfileName cfg =
     (if dc_WatchdogLoggerFile cfg \<noteq> [] then dc_WatchdogLoggerFile cfg
      else if dc_LoggerFile cfg \<noteq> [] then dc_LoggerFile cfg
      else TrimSuffix (dc_pidFile cfg) ''.pid'' @ ''-watchdog.log'')"

section \<open>The commands\<close>

datatype verdict =
    AlreadyRunning int
  | NotForked
  | DiedAtOnce
  | NotRecorded int
  | Started int
  | WatchdogStarted int
  | NotRunning
  | StalePid int
  | NotSignalled int
  | Stopped int
  | Reloaded int
  | StatusStopped
  | StatusUngraceful int
  | StatusRunning string int

definition forkDaemon :: "shell \<Rightarrow> string list \<Rightarrow> string list \<Rightarrow> machine \<Rightarrow> forkResult \<times> machine" where
  "forkDaemon sh args env m =
     (case sh_fork sh m of
        Forks pid \<Rightarrow>
          (Forks pid, m\<lparr>m_procs := (m_procs m)(pid \<mapsto> \<lparr>pr_args = sh_exe sh # args, pr_env = env\<rparr>)\<rparr>)
      | r \<Rightarrow> (r, m))"

text \<open>The part that \<open>handleStart\<close> and \<open>handleWatchStart\<close> have in common.\<close>

definition clearStale :: "daemonConfig \<Rightarrow> machine \<Rightarrow> int + machine" where
  "clearStale cfg m =
     (case readPIDFile cfg m of
        None \<Rightarrow> Inr m
      | Some (pid, _) \<Rightarrow>
          if processExists pid m then Inl pid else Inr (removeFile (dc_pidFile cfg) m))"

definition dropOldLog :: "daemonConfig \<Rightarrow> machine \<Rightarrow> machine" where
  "dropOldLog cfg m =
     (let wg_logf = getWatchdogLogfileName cfg in
      if dc_LoggerFile cfg \<noteq> wg_logf \<and> m_files m wg_logf \<noteq> None then removeFile wg_logf m else m)"

definition forkAndRecord ::
  "shell \<Rightarrow> daemonConfig \<Rightarrow> string \<Rightarrow> string list \<Rightarrow> string list \<Rightarrow> (int \<Rightarrow> verdict) \<Rightarrow> machine \<Rightarrow> verdict \<times> machine" where
  "forkAndRecord sh cfg mode markers childArgs done_msg m =
     (case forkDaemon sh childArgs (sh_environ sh @ markers) m of
        (ForkFails, m1) \<Rightarrow> (NotForked, m1)
      | (ExitsAtOnce, m1) \<Rightarrow> (DiedAtOnce, m1)
      | (Forks pid, m1) \<Rightarrow>
          if sh_writes sh
          then (done_msg pid, m1\<lparr>m_files := (m_files m1)(dc_pidFile cfg \<mapsto> writePID pid mode)\<rparr>)
          else (NotRecorded pid, m1))"

definition handleStart :: "shell \<Rightarrow> string list \<Rightarrow> daemonConfig \<Rightarrow> machine \<Rightarrow> verdict \<times> machine" where
  "handleStart sh childArgs cfg m =
     (case clearStale cfg m of
        Inl pid \<Rightarrow> (AlreadyRunning pid, m)
      | Inr m1 \<Rightarrow>
          forkAndRecord sh cfg ''start'' [pidFileEnvVar @ ''='' @ dc_pidFile cfg] childArgs Started (dropOldLog cfg m1))"

definition handleWatchStart :: "shell \<Rightarrow> string list \<Rightarrow> daemonConfig \<Rightarrow> machine \<Rightarrow> verdict \<times> machine" where
  "handleWatchStart sh childArgs cfg m =
     (case clearStale cfg m of
        Inl pid \<Rightarrow> (AlreadyRunning pid, m)
      | Inr m1 \<Rightarrow>
          forkAndRecord sh cfg ''watch-start'' [pidFileEnvVar @ ''='' @ dc_pidFile cfg, watchdogEnvVar @ ''=1''] childArgs
            WatchdogStarted (dropOldLog cfg m1))"

text \<open>The wait for the process to exit: the number of looks, if it ever comes to an end.\<close>

partial_function (option) awaitExit :: "(nat \<Rightarrow> bool) \<Rightarrow> nat \<Rightarrow> nat option" where
  "awaitExit alive k = (if alive k then awaitExit alive (Suc k) else Some k)"

definition handleStop :: "shell \<Rightarrow> daemonConfig \<Rightarrow> machine \<Rightarrow> (verdict \<times> machine) option" where
  "handleStop sh cfg m =
     (case readPIDFile cfg m of
        None \<Rightarrow> Some (NotRunning, m)
      | Some (pid, _) \<Rightarrow>
          if \<not> processExists pid m then Some (StalePid pid, removeFile (dc_pidFile cfg) m)
          else if \<not> sh_signals sh pid then Some (NotSignalled pid, removeFile (dc_pidFile cfg) m)
          else map_option (\<lambda>k. (Stopped pid, sh_later sh m pid k))
                 (awaitExit (\<lambda>k. processExists pid (sh_later sh m pid k)) 0))"

definition restartMode :: "daemonConfig \<Rightarrow> machine \<Rightarrow> string" where
  "restartMode cfg m =
     (case readPIDFile cfg m of None \<Rightarrow> ''start'' | Some (_, mode) \<Rightarrow> if mode = [] then ''start'' else mode)"

definition restartArgs :: "daemonConfig \<Rightarrow> machine \<Rightarrow> string list" where
  "restartArgs cfg m =
     (case readPIDFile cfg m of
        None \<Rightarrow> []
      | Some (pid, _) \<Rightarrow> (case getProcessArgs pid m of None \<Rightarrow> [] | Some args \<Rightarrow> tl args))"

definition handleRestart :: "shell \<Rightarrow> daemonConfig \<Rightarrow> machine \<Rightarrow> (verdict \<times> machine) option" where
  "handleRestart sh cfg m =
     (case handleStop sh cfg m of
        Some (Stopped _, m1) \<Rightarrow>
          let cfg1 = cfg\<lparr>dc_WatchdogLoggerFile := getWatchdogLogfileName cfg @ '' ''\<rparr> in
          Some (if restartMode cfg m = ''watch-start'' then handleWatchStart sh (restartArgs cfg m) cfg1 m1
                else handleStart sh (restartArgs cfg m) cfg1 m1)
      | r \<Rightarrow> r)"

definition handleReload :: "shell \<Rightarrow> daemonConfig \<Rightarrow> machine \<Rightarrow> verdict \<times> machine" where
  "handleReload sh cfg m =
     (case readPIDFile cfg m of
        None \<Rightarrow> (NotRunning, m)
      | Some (pid, _) \<Rightarrow>
          if \<not> processExists pid m then (StalePid pid, removeFile (dc_pidFile cfg) m)
          else if \<not> sh_signals sh pid then (NotSignalled pid, m)
          else (Reloaded pid, m))"

definition handleStatus :: "daemonConfig \<Rightarrow> machine \<Rightarrow> verdict \<times> machine" where
  "handleStatus cfg m =
     (case readPIDFile cfg m of
        None \<Rightarrow> (StatusStopped, m)
      | Some (pid, mode) \<Rightarrow>
          if processExists pid m
          then (StatusRunning (if mode = ''watch-start'' then ''watchdog'' else ''daemon'') pid, m)
          else (StatusUngraceful pid, removeFile (dc_pidFile cfg) m))"

text \<open>The environment of a worker: without the markers of the watchdog, with its own.\<close>

definition workerEnv :: "string list \<Rightarrow> string list" where
  "workerEnv environ =
     filter (\<lambda>e. \<not> HasPrefix e (watchdogEnvVar @ ''='') \<and> \<not> HasPrefix e (pidFileEnvVar @ ''='')) environ
       @ [workerEnvVar @ ''=1'']"

end
