(* ===== verification/Daemon_Props.thy ===== *)
theory Daemon_Props
  imports Daemon
begin

text \<open>
  Properties of the daemon commands: the PID file and the command line of a process are read back as
  they were written, every process of a daemon takes the role it was started for, and \<open>stop\<close> returns when the
  process exits.
\<close>

section \<open>Numbers and lines\<close>

lemma decimal_head: "0 \<le> n \<Longrightarrow> \<exists>c cs. decimal_of n = c # cs \<and> is_digit c"
  using decimal_of_digits[of n] by (cases "decimal_of n") auto

lemma digit_no_sign: "is_digit c \<Longrightarrow> c \<noteq> CHR ''-'' \<and> c \<noteq> CHR ''+'' \<and> \<not> is_space c \<and> c \<noteq> CHR 0x0A"
  by (auto simp: is_digit_def is_space_def Let_def)

lemma Atoi_decimal: "0 \<le> n \<Longrightarrow> n < 2 ^ 63 \<Longrightarrow> Atoi (decimal_of n) = Some n"
  using decimal_head[of n] decimal_of_digits[of n] digits_val_decimal[of n] digit_no_sign
  by (auto simp: Atoi_def Let_def)

text \<open>The text between its blanks.\<close>

definition trimmed :: "string \<Rightarrow> bool" where
  "trimmed s \<longleftrightarrow> s \<noteq> [] \<and> \<not> is_space (hd s) \<and> \<not> is_space (last s)"

lemma dropWhile_hd: "s \<noteq> [] \<Longrightarrow> \<not> P (hd s) \<Longrightarrow> dropWhile P s = s"
  by (cases s) auto

lemma trimmed_TrimSpace: "trimmed s \<Longrightarrow> TrimSpace s = s"
  by (simp add: TrimSpace_def trimmed_def dropWhile_hd hd_rev)

lemma trim_line: "trimmed s \<Longrightarrow> TrimSpace (s @ [CHR 0x0A]) = s"
proof -
  assume s: "trimmed s"
  then have "dropWhile is_space (s @ [CHR 0x0A]) = s @ [CHR 0x0A]"
    by (intro dropWhile_hd) (auto simp: trimmed_def)
  moreover have "is_space (CHR 0x0A)" by (simp add: is_space_def)
  ultimately show ?thesis using s by (simp add: TrimSpace_def trimmed_def dropWhile_hd hd_rev)
qed

lemma decimal_trimmed: "0 \<le> n \<Longrightarrow> trimmed (decimal_of n)"
  using decimal_of_digits[of n] digit_no_sign last_in_set[of "decimal_of n"] hd_in_set[of "decimal_of n"]
  by (auto simp: trimmed_def list_all_iff)

section \<open>What is written is read back\<close>

lemma readPID_writePID:
  assumes "0 \<le> pid" and "pid < 2 ^ 63" and "trimmed mode"
  shows "readPID (writePID pid mode) = Some (pid, mode)"
proof -
  let ?d = "decimal_of pid"
  have d: "trimmed ?d" "CHR 0x0A \<notin> set ?d"
    using decimal_trimmed[OF assms(1)] decimal_of_digits[OF assms(1)] digit_no_sign by (auto simp: list_all_iff)
  have "TrimSpace (writePID pid mode) = ?d @ CHR 0x0A # mode"
    using trim_line[of "?d @ CHR 0x0A # mode"] d(1) assms(1,3) by (simp add: writePID_def Itoa_def trimmed_def)
  moreover have "SplitN2 (?d @ CHR 0x0A # mode) CHR 0x0A = [?d, mode]"
    by (simp add: SplitN2_def IndexByte_append[OF d(2)])
  ultimately show ?thesis
    by (simp add: readPID_def Let_def trimmed_TrimSpace d(1) assms(3) Atoi_decimal[OF assms(1,2)])
qed

text \<open>The PID file that a start writes is read back as the process and the mode it was written
  with.\<close>

theorem pid_roundtrip:
  assumes "0 \<le> pid" and "pid < 2 ^ 63" and "mode \<in> {''start'', ''watch-start''}"
  shows "readPID (writePID pid mode) = Some (pid, mode)"
proof (rule readPID_writePID[OF assms(1,2)])
  show "trimmed mode" using assms(3) by (auto simp: trimmed_def is_space_def)
qed

lemma pid_roundtrip_witness: "readPID (writePID 4711 ''watch-start'') = Some (4711, ''watch-start'')"
  by (rule pid_roundtrip) simp_all

lemma cmdline_Join: "as \<noteq> [] \<Longrightarrow> cmdline as = Join as [CHR 0x00] @ [CHR 0x00]"
  by (induction as rule: induct_list012) (auto simp: cmdline_def)

lemma last_Join: "as \<noteq> [] \<Longrightarrow> last as \<noteq> [] \<Longrightarrow> Join as sep \<noteq> [] \<and> last (Join as sep) = last (last as)"
  by (induction as rule: induct_list012) auto

lemma cmdline_trimmed:
  assumes "as \<noteq> []" and "last as \<noteq> []" and "last (last as) \<noteq> CHR 0x00"
  shows "TrimRight (cmdline as) CHR 0x00 = Join as [CHR 0x00]"
proof -
  obtain s c where "Join as [CHR 0x00] = s @ [c]" "c \<noteq> CHR 0x00"
    using last_Join[OF assms(1,2), of "[CHR 0x00]"] assms(3) by (cases "Join as [CHR 0x00]" rule: rev_cases) auto
  then show ?thesis by (simp add: cmdline_Join[OF assms(1)] TrimRight_def)
qed

text \<open>The last argument of a process that is started again must not be empty: trailing empty arguments
  cannot be told from the end.\<close>

definition readable :: "string list \<Rightarrow> bool" where
  "readable as \<longleftrightarrow> as \<noteq> [] \<and> last as \<noteq> [] \<and> list_all (\<lambda>a. CHR 0x00 \<notin> set a) as"

lemma getProcessArgs_readable:
  assumes "m_procs m pid = Some p" and "readable (pr_args p)"
  shows "getProcessArgs pid m = Some (pr_args p)"
proof -
  let ?as = "pr_args p"
  have r: "?as \<noteq> []" "last ?as \<noteq> []" "\<forall>a \<in> set ?as. CHR 0x00 \<notin> set a"
    using assms(2) by (auto simp: readable_def list_all_iff)
  have "last (last ?as) \<noteq> CHR 0x00" using r by (metis last_in_set)
  note t = cmdline_trimmed[OF r(1,2) this]
  from r(3) have "Split (Join ?as [CHR 0x00]) CHR 0x00 = ?as" using r(1) by (simp add: Split_Join list_all_iff)
  with t assms(1) last_Join[OF r(1,2)] show ?thesis by (simp add: getProcessArgs_def Let_def)
qed

section \<open>The command word\<close>

definition commandSpec :: "Commands \<Rightarrow> string list \<Rightarrow> string \<times> string list \<Rightarrow> bool" where
  "commandSpec c args res \<longleftrightarrow>
     (let valid = (\<lambda>w. w \<in> set (validCommands c)) in
      (res = ([], args) \<and> list_all (\<lambda>w. \<not> valid w) args) \<or>
      (\<exists>pre post. args = pre @ fst res # post \<and> snd res = pre @ post \<and> valid (fst res) \<and>
         list_all (\<lambda>w. \<not> valid w) post))"

lemma scanCommand_spec:
  assumes "i \<le> length args" and "list_all (\<lambda>w. w \<notin> set (validCommands c)) (drop i args)"
  shows "commandSpec c args (scanCommand (validCommands c) args i)"
  using assms
proof (induction i)
  case (Suc i)
  then have i: "i < length args" by simp
  show ?case
  proof (cases "args ! i \<in> set (validCommands c)")
    case True
    have "args = take i args @ args ! i # drop (Suc i) args" using i by (simp add: id_take_nth_drop)
    with True Suc.prems(2) show ?thesis by (auto simp: commandSpec_def Let_def)
  next
    case False
    with Suc.prems(2) i have "list_all (\<lambda>w. w \<notin> set (validCommands c)) (drop i args)"
      by (simp add: Cons_nth_drop_Suc[symmetric])
    with Suc.IH i False show ?thesis by simp
  qed
qed (simp add: commandSpec_def)

text \<open>The command is the last argument that is a command word; the daemon gets all the other
  arguments in their order, and without such a word there is no command.\<close>

theorem command_word: "commandSpec c args (parseArgs args c)"
  unfolding parseArgs_def by (rule scanCommand_spec) simp_all

section \<open>Which daemons share a PID file\<close>

text \<open>User, key and executable are hashed without separators: the same program in two places, run in two
  directories, gets one PID file, whatever the hash.\<close>

theorem pid_file_shared:
  "pidFilePath \<lparr>pe_cwd = Some ''/srv'', pe_exe = ''/a/routemux'', pe_uid = uid, pe_tempDir = t, pe_md5hex = h\<rparr>
     (cfg\<lparr>dc_HashKey := []\<rparr>) =
   pidFilePath \<lparr>pe_cwd = Some ''/srv/a'', pe_exe = ''/routemux'', pe_uid = uid, pe_tempDir = t, pe_md5hex = h\<rparr>
     (cfg\<lparr>dc_HashKey := []\<rparr>)"
proof -
  have "filepath_Abs (Some ''/srv'') ''/srv'' = ''/srv''" "filepath_Abs (Some ''/srv'') ''/a/routemux'' = ''/a/routemux''"
      "filepath_Abs (Some ''/srv/a'') ''/srv/a'' = ''/srv/a''" "filepath_Abs (Some ''/srv/a'') ''/routemux'' = ''/routemux''"
    by code_simp+
  then show ?thesis by (simp add: pidFilePath_def pidRaw_def)
qed

section \<open>Roles\<close>

definition unmarked :: "string list \<Rightarrow> bool" where
  "unmarked env \<longleftrightarrow>
     list_all (\<lambda>e. \<not> HasPrefix e (pidFileEnvVar @ ''='') \<and> \<not> HasPrefix e (watchdogEnvVar @ ''='') \<and>
       \<not> HasPrefix e (workerEnvVar @ ''='')) env"

lemma getenv_snoc:
  "getenv (env @ [e]) key = (if HasPrefix e (key @ ''='') then drop (length key + 1) e else getenv env key)"
  by (simp add: getenv_def)

lemma getenv_none: "list_all (\<lambda>e. \<not> HasPrefix e (key @ ''='')) env \<Longrightarrow> getenv env key = []"
proof -
  assume "list_all (\<lambda>e. \<not> HasPrefix e (key @ ''='')) env"
  then have "find (\<lambda>e. HasPrefix e (key @ ''='')) (rev env) = None" by (simp add: find_None_iff list_all_iff)
  then show ?thesis by (simp add: getenv_def)
qed

lemma getenv_unmarked:
  assumes "unmarked env"
  shows "getenv env pidFileEnvVar = []" "getenv env watchdogEnvVar = []" "getenv env workerEnvVar = []"
  using assms by (auto simp: unmarked_def list_all_iff intro!: getenv_none)

lemmas env_vars = pidFileEnvVar_def watchdogEnvVar_def workerEnvVar_def HasPrefix_def

lemma workerEnv_role: "roleOf (workerEnv environ) = WorkerRole"
  by (simp add: workerEnv_def roleOf_def getenv_snoc) (simp add: env_vars)

lemma role_markers:
  assumes "unmarked env" and "pidFile \<noteq> []"
  shows "roleOf (env @ [pidFileEnvVar @ ''='' @ pidFile]) = DaemonRole pidFile"
    and "roleOf (env @ [pidFileEnvVar @ ''='' @ pidFile, watchdogEnvVar @ ''=1'']) = WatchdogRole pidFile"
proof -
  note g = getenv_unmarked[OF assms(1)]
  let ?p = "pidFileEnvVar @ ''='' @ pidFile" and ?w = "watchdogEnvVar @ ''=1''"
  have p: "getenv (env @ [?p]) k = (if k = pidFileEnvVar then pidFile else getenv env k)"
    if "k \<in> {pidFileEnvVar, watchdogEnvVar, workerEnvVar}" for k
    using that by (auto simp: getenv_snoc env_vars)
  then show "roleOf (env @ [?p]) = DaemonRole pidFile"
    using assms(2) g by (simp add: roleOf_def) (simp add: env_vars g[unfolded env_vars])
  have w: "getenv ((env @ [?p]) @ [?w]) k = (if k = watchdogEnvVar then ''1'' else getenv (env @ [?p]) k)"
    if "k \<in> {pidFileEnvVar, watchdogEnvVar, workerEnvVar}" for k
    using that by (subst getenv_snoc) (auto simp: env_vars)
  have "getenv ((env @ [?p]) @ [?w]) workerEnvVar = []" "getenv ((env @ [?p]) @ [?w]) watchdogEnvVar = ''1''"
    "getenv ((env @ [?p]) @ [?w]) pidFileEnvVar = pidFile"
    using p w g by (simp_all add: env_vars(1-3))
  then show "roleOf (env @ [?p, ?w]) = WatchdogRole pidFile" by (simp add: roleOf_def)
qed

text \<open>Each process of a daemon finds its role in the environment that its starter gives it, whatever
  else is in there: the daemon and the watchdog with the PID file, the worker of a watchdog without.\<close>

theorem role_handover:
  assumes "unmarked env" and "pidFile \<noteq> []"
  shows "roleOf (env @ [pidFileEnvVar @ ''='' @ pidFile]) = DaemonRole pidFile \<and>
    roleOf (env @ [pidFileEnvVar @ ''='' @ pidFile, watchdogEnvVar @ ''=1'']) = WatchdogRole pidFile \<and>
    roleOf (workerEnv (env @ [pidFileEnvVar @ ''='' @ pidFile, watchdogEnvVar @ ''=1''])) = WorkerRole"
  using role_markers[OF assms] workerEnv_role by blast

lemma role_handover_witness:
  "roleOf (''LANG=C'' # [pidFileEnvVar @ ''=/tmp/r.pid'', watchdogEnvVar @ ''=1'']) = WatchdogRole ''/tmp/r.pid''"
proof -
  have "unmarked [''LANG=C'']" by code_simp
  from role_handover[OF this, of "''/tmp/r.pid''"] show ?thesis by simp
qed

section \<open>Stopping\<close>

lemma awaitExit_Some: "awaitExit alive k = Some n \<Longrightarrow> \<not> alive n"
  by (rule awaitExit.raw_induct[where P = "\<lambda>alive k n. \<not> alive n"]) (auto split: if_splits)

lemma awaitExit_exits: "\<not> alive (k + d) \<Longrightarrow> awaitExit alive k \<noteq> None"
proof (induction d arbitrary: k)
  case (Suc d)
  then show ?case by (subst awaitExit.simps) auto
qed (simp add: awaitExit.simps)

text \<open>C38. \<open>stop\<close> returns exactly when the process that it has told to terminate exits at some time; when
  it returns the process is gone. There is no other way out of the wait.\<close>

theorem stop_returns:
  assumes "readPIDFile cfg m = Some (pid, mode)" and "processExists pid m" and "sh_signals sh pid"
  shows "(handleStop sh cfg m \<noteq> None) = (\<exists>k. \<not> processExists pid (sh_later sh m pid k)) \<and>
    (case handleStop sh cfg m of None \<Rightarrow> True | Some (v, m') \<Rightarrow> v = Stopped pid \<and> \<not> processExists pid m')"
proof -
  let ?alive = "\<lambda>k. processExists pid (sh_later sh m pid k)"
  have h: "handleStop sh cfg m = map_option (\<lambda>k. (Stopped pid, sh_later sh m pid k)) (awaitExit ?alive 0)"
    using assms by (simp add: handleStop_def)
  show ?thesis
  proof (cases "awaitExit ?alive 0")
    case None
    then have "?alive k" for k using awaitExit_exits[of ?alive 0 k] by auto
    with None show ?thesis by (simp add: h)
  next
    case (Some n)
    with awaitExit_Some[of ?alive 0 n] show ?thesis by (auto simp: h)
  qed
qed

end
