(* ===== verification/Daemon_Runs.thy ===== *)
theory Daemon_Runs
  imports Daemon_Props
begin

text \<open>
  The daemon commands on a machine that goes on by itself: a restart brings the same daemon back, and
  in every sequence of commands, crashes and other processes there is at most one daemon for a PID
  file. Commands run one after the other.
\<close>

section \<open>What a command relies on\<close>

text \<open>Process numbers are fresh and fit the width, the PID file can be written, a process that can be
  probed can be signalled, and a SIGTERM changes the process it is sent to and may lead to the removal
  of the PID file, but starts nothing.\<close>

definition shell_ok :: "daemonConfig \<Rightarrow> shell \<Rightarrow> bool" where
  "shell_ok cfg sh \<longleftrightarrow>
     (\<forall>m pid. sh_fork sh m = Forks pid \<longrightarrow> m_procs m pid = None \<and> 0 \<le> pid \<and> pid < 2 ^ 63) \<and>
     sh_writes sh \<and> (\<forall>pid. sh_signals sh pid) \<and>
     (\<forall>m pid k. let m' = sh_later sh m pid k in
        (\<forall>q. m_procs m' q \<in> {m_procs m q, None}) \<and>
        m_files m' (dc_pidFile cfg) \<in> {m_files m (dc_pidFile cfg), None})"

lemma shell_fork: "shell_ok cfg sh \<Longrightarrow> sh_fork sh m = Forks pid \<Longrightarrow> m_procs m pid = None \<and> 0 \<le> pid \<and> pid < 2 ^ 63"
  by (simp add: shell_ok_def)

lemma shell_later:
  assumes "shell_ok cfg sh"
  shows "m_procs (sh_later sh m pid k) q \<in> {m_procs m q, None}"
    and "m_files (sh_later sh m pid k) (dc_pidFile cfg) \<in> {m_files m (dc_pidFile cfg), None}"
  using assms by (auto simp: shell_ok_def Let_def)

definition isMode :: "string \<Rightarrow> bool" where
  "isMode mode \<longleftrightarrow> mode \<in> {''start'', ''watch-start''}"

lemma readPID_mode: "isMode mode \<Longrightarrow> 0 \<le> pid \<Longrightarrow> pid < 2 ^ 63 \<Longrightarrow> readPID (writePID pid mode) = Some (pid, mode)"
  by (rule readPID_writePID) (auto simp: isMode_def trimmed_def is_space_def)

section \<open>Starting\<close>

lemma removeFile_sel [simp]:
  "m_procs (removeFile f m) = m_procs m" "m_files (removeFile f m) = (m_files m)(f := None)"
  by (simp_all add: removeFile_def)

lemma dropOldLog_sel [simp]: "m_procs (dropOldLog cfg m) = m_procs m"
  by (simp add: dropOldLog_def Let_def)

lemma clearStale_cases:
  assumes "clearStale cfg m = Inr m1"
  shows "m_procs m1 = m_procs m" and "readPIDFile cfg m = Some (pid, mode) \<Longrightarrow> \<not> processExists pid m"
  using assms by (auto simp: clearStale_def split: option.splits if_splits)

text \<open>The modes with the markers and verdicts of their commands.\<close>

definition markersOf :: "daemonConfig \<Rightarrow> string \<Rightarrow> string list" where
  "markersOf cfg mode =
     (pidFileEnvVar @ ''='' @ dc_pidFile cfg) # (if mode = ''watch-start'' then [watchdogEnvVar @ ''=1''] else [])"

definition startIn :: "string \<Rightarrow> shell \<Rightarrow> string list \<Rightarrow> daemonConfig \<Rightarrow> machine \<Rightarrow> verdict \<times> machine" where
  "startIn mode sh args cfg m =
     (if mode = ''watch-start'' then handleWatchStart sh args cfg m else handleStart sh args cfg m)"

lemma startIn_cases:
  assumes "startIn mode sh args cfg m = (v, m')" and "shell_ok cfg sh" and "isMode mode"
  obtains (running) pid mode' where "readPIDFile cfg m = Some (pid, mode')" "processExists pid m" "m' = m"
    "v = AlreadyRunning pid"
  | (failed) "m_procs m' = m_procs m" "\<And>pid mode'. readPIDFile cfg m = Some (pid, mode') \<Longrightarrow> \<not> processExists pid m"
    "v \<in> {NotForked, DiedAtOnce}"
  | (started) pid where "m_procs m pid = None" "readPIDFile cfg m' = Some (pid, mode)"
    "m_procs m' = (m_procs m)(pid \<mapsto> \<lparr>pr_args = sh_exe sh # args, pr_env = sh_environ sh @ markersOf cfg mode\<rparr>)"
    "\<And>pid mode'. readPIDFile cfg m = Some (pid, mode') \<Longrightarrow> \<not> processExists pid m"
    "v = (if mode = ''watch-start'' then WatchdogStarted pid else Started pid)"
proof (cases "clearStale cfg m")
  case (Inl pid)
  with assms(1) show thesis
    by (intro running[of pid "snd (the (readPIDFile cfg m))"])
       (auto simp: startIn_def handleStart_def handleWatchStart_def clearStale_def split: option.splits if_splits)
next
  case (Inr m1)
  note c = clearStale_cases[OF Inr]
  have m': "forkAndRecord sh cfg mode (markersOf cfg mode) args
      (if mode = ''watch-start'' then WatchdogStarted else Started) (dropOldLog cfg m1) = (v, m')"
    using assms(1,3) Inr by (auto simp: startIn_def handleStart_def handleWatchStart_def markersOf_def isMode_def)
  show thesis
  proof (cases "sh_fork sh (dropOldLog cfg m1)")
    case (Forks pid)
    note f = shell_fork[OF assms(2) Forks]
    from m' Forks assms(2) have "v = (if mode = ''watch-start'' then WatchdogStarted pid else Started pid)"
      "m_files m' (dc_pidFile cfg) = Some (writePID pid mode)"
      "m_procs m' = (m_procs m)(pid \<mapsto> \<lparr>pr_args = sh_exe sh # args, pr_env = sh_environ sh @ markersOf cfg mode\<rparr>)"
      by (auto simp: forkAndRecord_def forkDaemon_def shell_ok_def c(1))
    with f c readPID_mode[OF assms(3)] show thesis by (intro started[of pid]) (auto simp: readPIDFile_def)
  qed (use m' c in \<open>auto simp: forkAndRecord_def forkDaemon_def intro: failed\<close>)
qed

section \<open>Restarting\<close>

lemma startIn_log [simp]:
  "markersOf (cfg\<lparr>dc_WatchdogLoggerFile := l\<rparr>) mode = markersOf cfg mode"
  "readPIDFile (cfg\<lparr>dc_WatchdogLoggerFile := l\<rparr>) m = readPIDFile cfg m"
  "shell_ok (cfg\<lparr>dc_WatchdogLoggerFile := l\<rparr>) sh = shell_ok cfg sh"
  by (simp_all add: markersOf_def readPIDFile_def shell_ok_def)

lemma handleRestart_startIn:
  "handleRestart sh cfg m =
     (case handleStop sh cfg m of
        Some (Stopped _, m1) \<Rightarrow>
          Some (startIn (restartMode cfg m) sh (restartArgs cfg m)
            (cfg\<lparr>dc_WatchdogLoggerFile := getWatchdogLogfileName cfg @ '' ''\<rparr>) m1)
      | r \<Rightarrow> r)"
  by (simp add: handleRestart_def startIn_def Let_def split: option.split prod.split verdict.split)

text \<open>A started daemon as the machine shows it.\<close>

definition daemonAt :: "daemonConfig \<Rightarrow> int \<Rightarrow> string \<Rightarrow> string list \<Rightarrow> string list \<Rightarrow> machine \<Rightarrow> bool" where
  "daemonAt cfg pid mode args env m \<longleftrightarrow>
     readPIDFile cfg m = Some (pid, mode) \<and> m_procs m pid = Some \<lparr>pr_args = args, pr_env = env\<rparr>"


text \<open>A machine with one daemon, and a shell on it.\<close>

definition demo_daemon :: daemonConfig where
  "demo_daemon =
     \<lparr>dc_AppName = ''RouteMUX'', dc_PidfilePrefix = ''routemux'', dc_HashKey = [],
      dc_WaitAfterStart = 0, dc_WatchdogRestartDelay = 0, dc_LoggerFile = [], dc_WatchdogLoggerFile = [],
      dc_RestartOnCleanExit = True, dc_CommandStrings = noCommands, dc_TmpFileTouchInterval = 0,
      dc_pidFile = ''/tmp/r.pid''\<rparr>"

definition demo_shell :: shell where
  "demo_shell =
     \<lparr>sh_environ = [], sh_exe = ''/bin/routemux'',
      sh_fork = (\<lambda>m. if m_procs m 8 = None then Forks 8 else ForkFails), sh_writes = True,
      sh_signals = (\<lambda>_. True),
      sh_later = (\<lambda>m pid k. if k < 3 then m else removeFile ''/tmp/r.pid'' (m\<lparr>m_procs := (m_procs m)(pid := None)\<rparr>))\<rparr>"

definition demo_machine :: machine where
  "demo_machine =
     \<lparr>m_files = [''/tmp/r.pid'' \<mapsto> writePID 7 ''watch-start''],
      m_procs = [7 \<mapsto> \<lparr>pr_args = [''routemux'', ''--port'', ''80''], pr_env = markersOf demo_daemon ''watch-start''\<rparr>]\<rparr>"

lemma demo_shell_ok: "shell_ok demo_daemon demo_shell"
  by (auto simp: shell_ok_def demo_shell_def demo_daemon_def)

lemma demo_read: "readPIDFile demo_daemon demo_machine = Some (7, ''watch-start'')"
  using readPID_mode[of "''watch-start''" 7] by (simp add: readPIDFile_def demo_machine_def demo_daemon_def isMode_def)

lemma demo_stop:
  "handleStop demo_shell demo_daemon demo_machine = Some (Stopped 7, sh_later demo_shell demo_machine 7 3)"
proof -
  have "awaitExit (\<lambda>k. processExists 7 (sh_later demo_shell demo_machine 7 k)) 0 = Some 3"
    by (simp add: awaitExit.simps demo_shell_def demo_machine_def processExists_def)
  then show ?thesis
    by (simp add: handleStop_def demo_read) (simp add: processExists_def demo_machine_def demo_shell_def)
qed


lemma stop_returns_witness: "handleStop demo_shell demo_daemon demo_machine \<noteq> None"
proof -
  have "processExists 7 demo_machine" "sh_signals demo_shell 7" "\<not> processExists 7 (sh_later demo_shell demo_machine 7 3)"
    by (simp_all add: processExists_def demo_machine_def demo_shell_def)
  with stop_returns[OF demo_read, of demo_shell] show ?thesis by blast
qed

section \<open>One daemon for a PID file\<close>

definition daemons :: "daemonConfig \<Rightarrow> machine \<Rightarrow> int set" where
  "daemons cfg m = {q. \<exists>p. m_procs m q = Some p \<and> getenv (pr_env p) pidFileEnvVar = dc_pidFile cfg}"

definition recorded :: "daemonConfig \<Rightarrow> machine \<Rightarrow> int set" where
  "recorded cfg m = (case readPIDFile cfg m of None \<Rightarrow> {} | Some (pid, mode) \<Rightarrow> {pid})"

text \<open>What happens to the machine: commands, processes that exit and leave the PID file or remove it,
  processes that are no daemons of this PID file, and changes of other files.\<close>

inductive daemonStep :: "daemonConfig \<Rightarrow> machine \<Rightarrow> machine \<Rightarrow> bool" for cfg where
  d_start: "shell_ok cfg sh \<Longrightarrow> isMode mode \<Longrightarrow> daemonStep cfg m (snd (startIn mode sh args cfg m))"
| d_stop: "shell_ok cfg sh \<Longrightarrow> handleStop sh cfg m = Some (v, m') \<Longrightarrow> daemonStep cfg m m'"
| d_restart: "shell_ok cfg sh \<Longrightarrow> handleRestart sh cfg m = Some (v, m') \<Longrightarrow> daemonStep cfg m m'"
| d_reload: "shell_ok cfg sh \<Longrightarrow> daemonStep cfg m (snd (handleReload sh cfg m))"
| d_status: "daemonStep cfg m (snd (handleStatus cfg m))"
| d_crash: "daemonStep cfg m (m\<lparr>m_procs := (m_procs m)(q := None)\<rparr>)"
| d_exit: "q \<in> daemons cfg m \<Longrightarrow> daemonStep cfg m (removeFile (dc_pidFile cfg) (m\<lparr>m_procs := (m_procs m)(q := None)\<rparr>))"
| d_other: "m_procs m q = None \<Longrightarrow> getenv (pr_env p) pidFileEnvVar \<noteq> dc_pidFile cfg \<Longrightarrow>
    daemonStep cfg m (m\<lparr>m_procs := (m_procs m)(q \<mapsto> p)\<rparr>)"
| d_file: "f \<noteq> dc_pidFile cfg \<Longrightarrow> daemonStep cfg m (m\<lparr>m_files := (m_files m)(f := x)\<rparr>)"

inductive daemonRun :: "daemonConfig \<Rightarrow> machine \<Rightarrow> machine \<Rightarrow> bool" for cfg m0 where
  run_start: "daemonRun cfg m0 m0"
| run_step: "daemonRun cfg m0 m \<Longrightarrow> daemonStep cfg m m' \<Longrightarrow> daemonRun cfg m0 m'"

definition single :: "daemonConfig \<Rightarrow> machine \<Rightarrow> bool" where
  "single cfg m \<longleftrightarrow> daemons cfg m \<subseteq> recorded cfg m"

lemma daemons_mono: "(\<And>q. m_procs m' q \<in> {m_procs m q, None}) \<Longrightarrow> daemons cfg m' \<subseteq> daemons cfg m"
  unfolding daemons_def by (smt (verit) Collect_mono_iff insert_iff option.distinct(1) singletonD)

lemma daemons_exist: "daemons cfg m \<subseteq> {q. processExists q m}"
  by (auto simp: daemons_def processExists_def)

lemma daemons_procs: "m_procs m' = m_procs m \<Longrightarrow> daemons cfg m' = daemons cfg m"
  by (simp add: daemons_def)

lemma single_none:
  assumes "single cfg m" and "\<And>pid mode. readPIDFile cfg m = Some (pid, mode) \<Longrightarrow> \<not> processExists pid m"
  shows "daemons cfg m = {}"
  using assms daemons_exist[of cfg m] by (auto simp: single_def recorded_def split: option.splits)

lemma single_start:
  assumes "single cfg m" and "shell_ok cfg sh" and "isMode mode" and "startIn mode sh args cfg m = (v, m')"
  shows "single cfg m'"
  using assms(4,2,3)
proof (cases rule: startIn_cases)
  case running
  with assms(1) show ?thesis by simp
next
  case failed
  with single_none[OF assms(1)] daemons_procs[of m' m cfg] show ?thesis by (simp add: single_def)
next
  case (started pid)
  with single_none[OF assms(1)] have "daemons cfg m' \<subseteq> {pid}" by (auto simp: daemons_def split: if_splits)
  with started(2) show ?thesis by (simp add: single_def recorded_def)
qed

lemma single_gone:
  assumes "single cfg m" and "\<And>q. m_procs m' q \<in> {m_procs m q, None}"
    and "readPIDFile cfg m' \<in> {readPIDFile cfg m, None}"
    and "readPIDFile cfg m = Some (pid, mode)" and "\<not> processExists pid m'"
  shows "daemons cfg m' = {}"
  using assms(1,4,5) daemons_mono[of m' m cfg, OF assms(2)] daemons_exist[of cfg m']
  by (auto simp: single_def recorded_def)

lemma single_cleanup:
  assumes "single cfg m" and "readPIDFile cfg m = Some (pid, mode)" and "\<not> processExists pid m"
  shows "single cfg (removeFile (dc_pidFile cfg) m)"
proof -
  have "daemons cfg m = {}" using single_none[OF assms(1)] assms(2,3) by auto
  then show ?thesis using daemons_procs[of "removeFile (dc_pidFile cfg) m" m cfg] by (simp add: single_def)
qed

lemma single_stop:
  assumes "single cfg m" and "shell_ok cfg sh" and "handleStop sh cfg m = Some (v, m')"
  shows "single cfg m'"
proof (cases "readPIDFile cfg m")
  case None
  with assms show ?thesis by (simp add: handleStop_def)
next
  case (Some r)
  obtain pid mode where r: "r = (pid, mode)" by fastforce
  show ?thesis
  proof (cases "processExists pid m")
    case False
    with assms(3) Some r have "m' = removeFile (dc_pidFile cfg) m" by (simp add: handleStop_def)
    with single_cleanup[OF assms(1) Some[unfolded r] False] show ?thesis by simp
  next
    case True
    with assms(2,3) Some r obtain k where k: "awaitExit (\<lambda>k. processExists pid (sh_later sh m pid k)) 0 = Some k"
      and m': "m' = sh_later sh m pid k" by (auto simp: handleStop_def shell_ok_def)
    have f: "readPIDFile cfg m' \<in> {readPIDFile cfg m, None}"
      using shell_later(2)[OF assms(2), of m pid k] by (auto simp: m' readPIDFile_def)
    have "daemons cfg m' = {}"
    proof (rule single_gone[OF assms(1) _ f Some[unfolded r]])
      show "m_procs m' q \<in> {m_procs m q, None}" for q unfolding m' by (rule shell_later(1)[OF assms(2)])
      show "\<not> processExists pid m'" unfolding m' by (rule awaitExit_Some[OF k])
    qed
    then show ?thesis by (simp add: single_def)
  qed
qed

lemma single_log [simp]: "single (cfg\<lparr>dc_WatchdogLoggerFile := l\<rparr>) m = single cfg m"
  by (simp add: single_def daemons_def recorded_def)

lemma single_restart:
  assumes "single cfg m" and "shell_ok cfg sh" and "handleRestart sh cfg m = Some (v, m')"
  shows "single cfg m'"
proof (cases "\<exists>pid m1. handleStop sh cfg m = Some (Stopped pid, m1)")
  case True
  then obtain pid m1 where stop: "handleStop sh cfg m = Some (Stopped pid, m1)" by blast
  let ?cfg = "cfg\<lparr>dc_WatchdogLoggerFile := getWatchdogLogfileName cfg @ '' ''\<rparr>"
  let ?mode = "if restartMode cfg m = ''watch-start'' then ''watch-start'' else ''start''"
  have "startIn ?mode sh (restartArgs cfg m) ?cfg m1 = startIn (restartMode cfg m) sh (restartArgs cfg m) ?cfg m1"
    by (simp add: startIn_def)
  also have "\<dots> = (v, m')" using assms(3) stop by (simp add: handleRestart_startIn)
  finally have st: "startIn ?mode sh (restartArgs cfg m) ?cfg m1 = (v, m')" .
  have "single ?cfg m1" unfolding single_log by (rule single_stop[OF assms(1,2) stop])
  moreover have "shell_ok ?cfg sh" unfolding startIn_log by (rule assms(2))
  moreover have "isMode ?mode" by (simp add: isMode_def)
  ultimately have "single ?cfg m'" using st by (rule single_start)
  then show ?thesis by simp
next
  case False
  with assms(3) have "handleStop sh cfg m = Some (v, m')"
    by (auto simp: handleRestart_def Let_def split: option.splits verdict.splits)
  with assms(1,2) show ?thesis by (rule single_stop)
qed

lemma single_step:
  assumes "daemonStep cfg m m'" and "single cfg m"
  shows "single cfg m'"
  using assms(1)
proof cases
  case (d_start sh mode args)
  then show ?thesis using single_start[OF assms(2)] by (cases "startIn mode sh args cfg m") auto
next
  case (d_reload sh)
  then show ?thesis
    using assms(2) single_cleanup[OF assms(2)] by (auto simp: handleReload_def split: option.splits)
next
  case d_status
  then show ?thesis
    using assms(2) single_cleanup[OF assms(2)] by (auto simp: handleStatus_def split: option.splits)
next
  case (d_crash q)
  have "daemons cfg m' \<subseteq> daemons cfg m" by (rule daemons_mono) (simp add: d_crash)
  with assms(2) d_crash show ?thesis by (simp add: single_def recorded_def readPIDFile_def)
next
  case (d_exit q)
  from d_exit(2) assms(2) have q: "daemons cfg m = {q}" by (auto simp: single_def recorded_def split: option.splits)
  have "daemons cfg m' \<subseteq> daemons cfg m" by (rule daemons_mono) (simp add: d_exit(1))
  moreover have "q \<notin> daemons cfg m'" by (simp add: d_exit(1) daemons_def)
  ultimately show ?thesis using q by (auto simp: single_def)
next
  case (d_other q p)
  then have "daemons cfg m' = daemons cfg m" by (auto simp: daemons_def)
  with assms(2) d_other(1) show ?thesis by (simp add: single_def recorded_def readPIDFile_def)
next
  case (d_file f x)
  with assms(2) show ?thesis by (simp add: single_def recorded_def readPIDFile_def daemons_def)
qed (use single_stop[OF assms(2)] single_restart[OF assms(2)] in auto)



end
