(* ===== verification/Daemon_Handle.thy ===== *)
theory Daemon_Handle
  imports Daemon_Runs
begin

text \<open>
  \<open>Handle\<close> of \<^verbatim>\<open>src/daemon/daemon_unix.go\<close>: what a process of the program does first, by its
  environment and its arguments, until it has run a daemon command, become a watchdog, or goes on as the
  server. Also what the watchdog copies of its worker's output into the log.
\<close>

section \<open>Handle\<close>

datatype handled =
    OnStart
  | WatchdogLoop daemonConfig
  | NoPidFilePath
  | Finished verdict
  | StopHangs

text \<open>Opening the log truncates it, if it can be opened.\<close>

definition initLogger :: "(string \<Rightarrow> bool) \<Rightarrow> daemonConfig \<Rightarrow> machine \<Rightarrow> machine" where
  "initLogger opens cfg m =
     (if dc_LoggerFile cfg \<noteq> [] \<and> opens (dc_LoggerFile cfg)
      then m\<lparr>m_files := (m_files m)(dc_LoggerFile cfg \<mapsto> [])\<rparr> else m)"

text \<open>The configuration with which the watchdog enters its loop.\<close>

definition watchdogConfig :: "string \<Rightarrow> string \<Rightarrow> daemonConfig \<Rightarrow> daemonConfig" where
  "watchdogConfig exe pidFile cfg =
     (let c1 = (setBasicDefaults exe cfg)\<lparr>dc_pidFile := pidFile\<rparr>;
          c2 = c1\<lparr>dc_AppName := dc_AppName c1 @ '' watchdog''\<rparr>
      in c2\<lparr>dc_WatchdogLoggerFile := getWatchdogLogfileName c2\<rparr>)"

definition returning :: "(verdict \<times> machine) option \<Rightarrow> machine \<Rightarrow> handled \<times> machine" where
  "returning r m = (case r of None \<Rightarrow> (StopHangs, m) | Some (v, m') \<Rightarrow> (Finished v, m'))"

definition runAction :: "shell \<Rightarrow> daemonConfig \<Rightarrow> machine \<Rightarrow> action \<Rightarrow> handled \<times> machine" where
  "runAction sh cfg m a =
     (case a of
        RunAttached \<Rightarrow> (OnStart, m)
      | StartAction args \<Rightarrow> returning (Some (handleStart sh args cfg m)) m
      | WatchStartAction args \<Rightarrow> returning (Some (handleWatchStart sh args cfg m)) m
      | StopAction \<Rightarrow> returning (handleStop sh cfg m) m
      | RestartAction \<Rightarrow> returning (handleRestart sh cfg m) m
      | ReloadAction \<Rightarrow> returning (Some (handleReload sh cfg m)) m
      | StatusAction \<Rightarrow> returning (Some (handleStatus cfg m)) m)"

definition Handle ::
  "(string \<Rightarrow> bool) \<Rightarrow> pidEnv \<Rightarrow> shell \<Rightarrow> daemonConfig \<Rightarrow> string list \<Rightarrow> machine \<Rightarrow> handled \<times> machine" where
  "Handle opens pe sh cfg args m =
     (case roleOf (sh_environ sh) of
        WorkerRole \<Rightarrow> (OnStart, m)
      | WatchdogRole pidFile \<Rightarrow> (WatchdogLoop (watchdogConfig (pe_exe pe) pidFile cfg), m)
      | DaemonRole pidFile \<Rightarrow> (OnStart, initLogger opens (setBasicDefaults (pe_exe pe) cfg) m)
      | ParentRole \<Rightarrow>
          if parentAction cfg args = RunAttached then (OnStart, m)
          else
            let cfg1 = setBasicDefaults (pe_exe pe) cfg; m1 = initLogger opens cfg1 m in
            (case pidFilePath pe cfg1 of
               None \<Rightarrow> (NoPidFilePath, m1)
             | Some pidFile \<Rightarrow> runAction sh (cfg1\<lparr>dc_pidFile := pidFile\<rparr>) m1 (parentAction cfg args)))"

section \<open>The log of the worker\<close>

text \<open>What the watchdog logs of one output of its worker, and whether it stops to read it at a line that
  does not fit the scanner.\<close>

definition pipeToLogger :: "string \<Rightarrow> string \<Rightarrow> string list \<times> bool" where
  "pipeToLogger tag out = (case scan_lines out of (ls, tooLong) \<Rightarrow> (map (\<lambda>l. tag @ '' '' @ l) ls, tooLong))"

lemma scan_lines_long:
  assumes "65536 \<le> length l" and "CHR 0x0A \<notin> set l"
  shows "scan_lines (l @ CHR 0x0A # rest) = ([], True)"
  using assms by (subst scan_lines.simps) (simp add: Let_def takeWhile_upto)

lemma scan_lines_after:
  assumes "list_all plain_line ls"
  shows "scan_lines (concat (map (\<lambda>l. l @ [CHR 0x0A]) ls) @ out) =
    (case scan_lines out of (ls', bad) \<Rightarrow> (ls @ ls', bad))"
  using assms
  by (induction ls) (auto simp: plain_line_def scan_lines_line dropCR_plain split: prod.splits)

text \<open>A line of 65536 bytes or more ends the copying: nothing of the worker's output from that line on
  reaches the log, and nobody reads the pipe any more.\<close>

theorem log_goes_silent:
  assumes "list_all plain_line ls" and "65536 \<le> length l" and "CHR 0x0A \<notin> set l"
  shows "pipeToLogger tag (concat (map (\<lambda>l. l @ [CHR 0x0A]) ls) @ l @ CHR 0x0A # rest) =
    (map (\<lambda>l. tag @ '' '' @ l) ls, True)"
  by (simp add: pipeToLogger_def scan_lines_after[OF assms(1)] scan_lines_long[OF assms(2,3)])

section \<open>A log that is emptied\<close>

text \<open>With a log file of its own every command of a parent empties that log, also \<open>status\<close>, which is about
  to print its end.\<close>

theorem command_truncates_log:
  assumes "roleOf (sh_environ sh) = ParentRole" and "parentAction cfg args = StatusAction"
    and "dc_LoggerFile cfg \<noteq> []" and "opens (dc_LoggerFile cfg)" and "pidFilePath pe (setBasicDefaults (pe_exe pe) cfg) = Some f"
    and "f \<noteq> dc_LoggerFile cfg"
  shows "m_files (snd (Handle opens pe sh cfg args m)) (dc_LoggerFile cfg) = Some []"
proof -
  have "dc_LoggerFile (setBasicDefaults exe cfg) = dc_LoggerFile cfg" for exe
    by (simp add: setBasicDefaults_def Let_def)
  with assms show ?thesis
    by (auto simp: Handle_def runAction_def returning_def handleStatus_def initLogger_def Let_def removeFile_def
        split: option.split prod.split)
qed

section \<open>Files that stay\<close>

text \<open>The goroutine of \<open>refreshModTime\<close> on the modification times of the files: a tick sets that of the file,
  if it is there. The ticks come \<open>interval\<close> apart.\<close>

definition refreshTick :: "string \<Rightarrow> duration \<Rightarrow> (string \<Rightarrow> duration option) \<Rightarrow> string \<Rightarrow> duration option" where
  "refreshTick path now mtimes = (case mtimes path of None \<Rightarrow> mtimes | Some _ \<Rightarrow> mtimes(path \<mapsto> now))"

definition refreshModTime ::
  "string \<Rightarrow> duration \<Rightarrow> duration \<Rightarrow> nat \<Rightarrow> (string \<Rightarrow> duration option) \<Rightarrow> string \<Rightarrow> duration option" where
  "refreshModTime path interval start n mtimes =
     fold (\<lambda>k. refreshTick path (start + int k * interval)) [1..<Suc n] mtimes"

text \<open>A file that is there is never older than one interval, however old it was; no other file is touched,
  and none appears.\<close>

theorem refreshed_file:
  "refreshModTime path interval start n mtimes p =
    (if p = path \<and> mtimes path \<noteq> None \<and> 0 < n then Some (start + int n * interval) else mtimes p)"
proof (induction n)
  case (Suc n)
  have "refreshModTime path interval start (Suc n) mtimes =
      refreshTick path (start + int (Suc n) * interval) (refreshModTime path interval start n mtimes)"
    by (simp add: refreshModTime_def)
  with Suc show ?case
    by (cases "refreshModTime path interval start n mtimes path")
      (auto simp: refreshTick_def refreshModTime_def[of _ _ _ 0] split: if_splits option.splits)
qed (simp add: refreshModTime_def)

end
