(* ===== verification/Main_Program.thy ===== *)
theory Main_Program
  imports Server_Props Daemon_Handle
begin

text \<open>
  The program as a whole (\<^verbatim>\<open>src/main.go\<close>): what a process does with its environment and arguments. A
  process that is no command of a daemon reads its configuration, checks it and serves. That the
  listener accepts connections is the network's part.
\<close>

datatype 'c mainResult =
    ArgumentError parseError
  | ConfigError configError
  | ConfigOK
  | NoServer serverError
  | NotRun serverError
  | Serving "'c server"

definition runMain :: "('c, 'k) serverWorld \<Rightarrow> string list \<Rightarrow> 'c mainResult" where
  "runMain w args =
     (case parseAll (wd_cli w) args of
        Inl e \<Rightarrow> ArgumentError e
      | Inr (cfg, configValidateOnly) \<Rightarrow>
          (case validate cfg of
             Some e \<Rightarrow> ConfigError e
           | None \<Rightarrow>
               if configValidateOnly then ConfigOK
               else (case newServer w cfg of
                       Inl e \<Rightarrow> NoServer e
                     | Inr sv \<Rightarrow> (case startTLS w sv of Inl e \<Rightarrow> NotRun e | Inr sv' \<Rightarrow> Serving sv'))))"

text \<open>A process that serves does so by the configuration of its arguments, and that configuration is
  valid; its server is one of those that the properties of runs speak of.\<close>

lemma serving_running:
  fixes w :: "('c, unit) serverWorld"
  assumes "runMain w args = Serving sv"
  shows "\<exists>cfg sv0. parseAll (wd_cli w) args = Inr (cfg, False) \<and> validate cfg = None \<and> newServer w cfg = Inr sv0 \<and>
    running cfg sv0 sv \<and> ss_cfg (sv_state sv) = cfg"
proof -
  from assms obtain cfg sv0 where *: "parseAll (wd_cli w) args = Inr (cfg, False)" "validate cfg = None"
      "newServer w cfg = Inr sv0" "startTLS w sv0 = Inr sv"
    by (auto simp: runMain_def split: sum.splits option.splits if_splits prod.splits)
  have "serves sv0 ([] @ [StartTLS w]) sv" by (rule serves.step[OF serves.start]) (simp add: *(4))
  with *(1,3) have "running cfg sv0 sv" unfolding running_def by blast
  moreover have "ss_cfg (sv_state sv) = cfg"
    using startTLS_frame[OF *(4)] *(3) by (auto simp: newServer_def split: sum.splits prod.splits)
  ultimately show ?thesis using * by blast
qed

section \<open>With the daemon\<close>

text \<open>The configuration that \<open>main\<close> gives to the daemon package.\<close>

definition mainConfig :: daemonConfig where
  "mainConfig =
     \<lparr>dc_AppName = ''RouteMUX'', dc_PidfilePrefix = [], dc_HashKey = [], dc_WaitAfterStart = 0,
      dc_WatchdogRestartDelay = 0, dc_LoggerFile = [], dc_WatchdogLoggerFile = [], dc_RestartOnCleanExit = True,
      dc_CommandStrings = noCommands, dc_TmpFileTouchInterval = 0, dc_pidFile = []\<rparr>"

datatype 'c programResult = Ran "'c mainResult" | DaemonWork handled

definition program ::
  "('c, 'k) serverWorld \<Rightarrow> (string \<Rightarrow> bool) \<Rightarrow> pidEnv \<Rightarrow> shell \<Rightarrow> string list \<Rightarrow> machine \<Rightarrow> 'c programResult \<times> machine" where
  "program w opens pe sh args m =
     (case Handle opens pe sh mainConfig args m of
        (OnStart, m') \<Rightarrow> (Ran (runMain w args), m')
      | (h, m') \<Rightarrow> (DaemonWork h, m'))"

lemma filepath_Join_nonempty: "p \<noteq> [] \<Longrightarrow> filepath_Join [d, p] \<noteq> []"
  by (auto simp: filepath_Join_def filepath_Clean_def Let_def)

lemma pidFilePath_nonempty: "pidFilePath pe cfg = Some f \<Longrightarrow> f \<noteq> []"
  by (auto simp: pidFilePath_def Let_def filepath_Join_nonempty)

lemma started_process:
  assumes "startIn mode sh args cfg m = (v, m')" and "v = Started pid \<or> v = WatchdogStarted pid" and "isMode mode"
  shows "m_procs m' pid = Some \<lparr>pr_args = sh_exe sh # args, pr_env = sh_environ sh @ markersOf cfg mode\<rparr> \<and>
    (v = Started pid \<longleftrightarrow> mode = ''start'')"
  using assms
  by (auto simp: startIn_def handleStart_def handleWatchStart_def forkAndRecord_def forkDaemon_def markersOf_def isMode_def
      split: sum.splits forkResult.splits if_splits prod.splits)

lemma unmarked_parent: "unmarked env \<Longrightarrow> roleOf env = ParentRole"
  by (simp add: roleOf_def getenv_unmarked)

definition startAction :: "string \<Rightarrow> string list \<Rightarrow> action" where
  "startAction mode rest = (if mode = ''watch-start'' then WatchStartAction rest else StartAction rest)"

lemma program_started:
  assumes "unmarked (sh_environ sh)" and "isMode mode" and "parentAction mainConfig args = startAction mode rest"
    and "program w opens pe sh args m = (DaemonWork (Finished v), m')"
  obtains cfg m1 where "startIn mode sh rest cfg m1 = (v, m')" "dc_pidFile cfg \<noteq> []"
proof -
  have "parentAction mainConfig args \<noteq> RunAttached" using assms(3) by (simp add: startAction_def)
  with assms(1,4) obtain f where f: "pidFilePath pe (setBasicDefaults (pe_exe pe) mainConfig) = Some f"
    and r: "runAction sh ((setBasicDefaults (pe_exe pe) mainConfig)\<lparr>dc_pidFile := f\<rparr>)
        (initLogger opens (setBasicDefaults (pe_exe pe) mainConfig) m) (startAction mode rest) = (Finished v, m')"
    by (auto simp: program_def Handle_def unmarked_parent assms(3) Let_def split: handled.splits prod.splits option.splits)
  have "startIn mode sh rest ((setBasicDefaults (pe_exe pe) mainConfig)\<lparr>dc_pidFile := f\<rparr>)
      (initLogger opens (setBasicDefaults (pe_exe pe) mainConfig) m) = (v, m')"
    using r assms(2) by (auto simp: runAction_def startAction_def startIn_def returning_def isMode_def split: prod.splits)
  from that[OF this] pidFilePath_nonempty[OF f] show thesis by simp
qed

text \<open>C12. From the command line to the daemon: the process that \<open>start\<close> leaves behind is one that serves by
  the arguments without the command word; the one that \<open>watch-start\<close> leaves behind is a watchdog, and
  every worker it starts with its own arguments serves by them.\<close>

theorem daemon_serves_arguments:
  assumes "unmarked (sh_environ sh)" and "isMode mode" and "parentAction mainConfig args = startAction mode rest"
    and "program w opens pe sh args m = (DaemonWork (Finished v), m')" and "v = Started pid \<or> v = WatchdogStarted pid"
  shows "\<exists>p. m_procs m' pid = Some p \<and> tl (pr_args p) = rest \<and>
    (if mode = ''start''
     then fst (program w opens pe (sh\<lparr>sh_environ := pr_env p\<rparr>) rest m') = Ran (runMain w rest)
     else (\<exists>c. fst (program w opens pe (sh\<lparr>sh_environ := pr_env p\<rparr>) rest m') = DaemonWork (WatchdogLoop c)) \<and>
       fst (program w opens pe (sh\<lparr>sh_environ := workerEnv (pr_env p)\<rparr>) rest m') = Ran (runMain w rest))"
proof -
  obtain cfg m1 where s: "startIn mode sh rest cfg m1 = (v, m')" and f: "dc_pidFile cfg \<noteq> []"
    by (rule program_started[OF assms(1-4)])
  note p = started_process[OF s assms(5,2)]
  have w: "program w opens pe (sh\<lparr>sh_environ := workerEnv e\<rparr>) rest m' = (Ran (runMain w rest), m')" for e
    by (simp add: program_def Handle_def workerEnv_role)
  have "roleOf (sh_environ sh @ markersOf cfg mode) =
      (if mode = ''start'' then DaemonRole (dc_pidFile cfg) else WatchdogRole (dc_pidFile cfg))"
    using role_markers[OF assms(1) f] assms(2) by (auto simp: markersOf_def isMode_def)
  with p w show ?thesis by (auto simp: program_def Handle_def)
qed

definition demo_place :: pidEnv where
  "demo_place =
     \<lparr>pe_cwd = Some ''/srv'', pe_exe = ''/bin/routemux'', pe_uid = 7, pe_tempDir = ''/tmp'', pe_md5hex = (\<lambda>_. ''0'')\<rparr>"

definition demo_args :: "string list" where
  "demo_args = [''--port'', ''80'', ''start'']"

lemma demo_start:
  "parentAction mainConfig demo_args = startAction ''start'' [''--port'', ''80'']"
  "fst (Handle (\<lambda>_. True) demo_place demo_shell mainConfig demo_args demo_machine) = Finished (Started 8)"
  "unmarked (sh_environ demo_shell)"
  by code_simp+

lemma daemon_serves_arguments_witness:
  "\<exists>p. m_procs (snd (program Server_Props.demo_world (\<lambda>_. True) demo_place demo_shell demo_args demo_machine)) 8 = Some p \<and>
     tl (pr_args p) = [''--port'', ''80'']"
proof -
  let ?run = "program Server_Props.demo_world (\<lambda>_. True) demo_place demo_shell demo_args demo_machine"
  have "?run = (DaemonWork (Finished (Started 8)), snd ?run)"
    using demo_start(2) by (auto simp: program_def split: prod.splits handled.splits)
  from daemon_serves_arguments[OF demo_start(3) _ demo_start(1) this] show ?thesis by (auto simp: isMode_def)
qed

end
