(* ===== verification/Daemon_Windows.thy ===== *)
theory Daemon_Windows
  imports Main_Program
begin

text \<open>
  The daemon package on Windows (\<^verbatim>\<open>src/daemon/daemon_windows.go\<close>): three command words that are
  refused, and the server otherwise. The command line that \<open>wmic\<close> prints is a parameter.
\<close>

section \<open>Commands\<close>

definition windowsWords :: "string list" where
  "windowsWords = [''start'', ''stop'', ''status'']"

definition windowsParseArgs :: "string list \<Rightarrow> string \<times> string list" where
  "windowsParseArgs args = scanCommand windowsWords args (length args)"

datatype windowsHandled = Unsupported | WindowsOnStart

definition windowsHandle :: "string list \<Rightarrow> windowsHandled" where
  "windowsHandle args =
     (case windowsParseArgs args of (command, rest) \<Rightarrow> if command \<in> set windowsWords then Unsupported else WindowsOnStart)"

definition windowsProgram :: "('c, 'k) serverWorld \<Rightarrow> string list \<Rightarrow> 'c mainResult option" where
  "windowsProgram w args = (case windowsHandle args of Unsupported \<Rightarrow> None | WindowsOnStart \<Rightarrow> Some (runMain w args))"

text \<open>The arguments of a process from the output of \<open>wmic\<close>, if it ran.\<close>

definition windowsProcessArgs :: "string option \<Rightarrow> string list option" where
  "windowsProcessArgs out = map_option (\<lambda>o'. Fields (TrimSpace (TrimPrefix (TrimSpace o') ''CommandLine=''))) out"

section \<open>Against the other systems\<close>

text \<open>The words are those of a daemon that knows three commands only.\<close>

definition threeCommands :: Commands where
  "threeCommands =
     \<lparr>cmd_Start = ''start'', cmd_WatchStart = [], cmd_Stop = ''stop'', cmd_Restart = [], cmd_Reload = [],
      cmd_Status = ''status''\<rparr>"

lemma windowsParseArgs_parseArgs: "windowsParseArgs args = parseArgs args threeCommands"
proof -
  have "windowsWords = validCommands threeCommands" by code_simp
  then show ?thesis by (simp add: windowsParseArgs_def parseArgs_def)
qed

lemma windowsHandle_iff: "windowsHandle args = WindowsOnStart \<longleftrightarrow> (\<forall>a \<in> set args. a \<notin> set windowsWords)"
proof -
  have w: "validCommands threeCommands = windowsWords" "[] \<notin> set windowsWords" by code_simp+
  have "commandSpec threeCommands args (windowsParseArgs args)"
    unfolding windowsParseArgs_parseArgs by (rule command_word)
  then show ?thesis
    using w(2) by (cases "windowsParseArgs args")
      (auto simp: commandSpec_def Let_def w(1) windowsHandle_def list_all_iff)
qed

lemma default_words:
  "set windowsWords \<subseteq> set (validCommands defaultCommands)" "[] \<notin> set (validCommands defaultCommands)"
  by code_simp+

lemma runAttached_words:
  assumes "parentAction mainConfig args = RunAttached"
  shows "\<forall>a \<in> set args. a \<notin> set (validCommands defaultCommands)"
proof -
  obtain cmd rest where p: "parseArgs args defaultCommands = (cmd, rest)" by (cases "parseArgs args defaultCommands")
  have "cmd \<notin> set (validCommands defaultCommands)"
    using assms p by (auto simp: parentAction_def mainConfig_def handlersOf_def validCommands_def defaultCommands_def
        split: option.splits if_splits)
  with command_word[of defaultCommands args] p default_words(2) show ?thesis
    by (auto simp: commandSpec_def Let_def list_all_iff)
qed

text \<open>A command line that starts the server attached on the other systems starts the same server on
  Windows.\<close>

theorem windows_serves:
  assumes "parentAction mainConfig args = RunAttached"
  shows "windowsProgram w args = Some (runMain w args)"
proof -
  have "windowsHandle args = WindowsOnStart"
    using runAttached_words[OF assms] default_words(1) by (auto simp: windowsHandle_iff)
  then show ?thesis by (simp add: windowsProgram_def)
qed

text \<open>The other three commands are not refused there: the word goes to the server as an argument.\<close>

theorem windows_passes_commands:
  "parentAction mainConfig [''watch-start''] = WatchStartAction []"
  "parentAction mainConfig [''restart''] = RestartAction"
  "parentAction mainConfig [''reload''] = ReloadAction"
  "list_all (\<lambda>a. windowsHandle [a] = WindowsOnStart) [''watch-start'', ''restart'', ''reload'']"
  by code_simp+

text \<open>An argument with a space in it does not come back whole.\<close>

theorem windows_args_split:
  "windowsProcessArgs (Some ''CommandLine=routemux --config \"my files/c.yml\"'') =
    Some [''routemux'', ''--config'', ''\"my'', ''files/c.yml\"'']"
  by code_simp

end
