(* ===== verification/Spec2Isabelle.thy ===== *)
theory Spec2Isabelle
  imports Config_Props Upstream_Picker Vhosts_Props Jwt_Props Acme_Props Serve Cli_Cases Server_Props
    Reload_Props Config_Strict Acme_Bootstrap Daemon_Watchdog Daemon_Tail Shutdown Main_Program Daemon_Windows
begin

text \<open>
  A verification development for RouteMUX, an HTTP reverse proxy written in Go: its configuration,
  its request path, its address lists, its JWT check, its certificates, its reload and its daemon, each
  as executable definitions that follow the code, with the theorems that make it correct.

  \<^bold>\<open>How the parts work together.\<close> A process starts in \<^verbatim>\<open>src/main.go\<close>: the daemon package decides by the
  environment and the command word whether it is a command, a watchdog, or a server. A server reads its
  arguments and its file into one \<open>Config\<close>, checks it, and compiles it: every vhost becomes a
  multiplexer from paths to route handlers, header values become lists of segments, address lists are
  loaded. A request then meets, in this order, the ACME challenges, the IP filter, the vhost of its
  host, the longest route of its path, the JWT check, the basic authentication, and the handler of the
  route, which for an upstream rewrites the headers. Meanwhile address lists are refreshed and
  certificates renewed, and a change of the file or a SIGHUP replaces the whole compiled state.

  \<^bold>\<open>Theories and code.\<close>
  \<^item> Go's library, as far as it is used: \<open>Go_Strings\<close>, \<open>Go_Net\<close>, \<open>Go_Time\<close>, \<open>Go_Http\<close>, \<open>Go_Url\<close>, \<open>Go_Mux\<close>
    (\<^verbatim>\<open>http.ServeMux\<close>), \<open>Go_Base64\<close>, \<open>Go_Sha1\<close>. \<open>Prelude\<close> holds the error type and generic lemmas.
  \<^item> \<^verbatim>\<open>src/ipfilter.go\<close>: \<open>Cidr_Net\<close> (what a network contains), \<open>Cidr_List\<close> (entries, loading, the flat list),
    \<open>Cidr_Text\<close> (files and the cache), \<open>Cidr_Refresh\<close> (goroutines as a step relation), \<open>Ip_Filter\<close> (policies).
  \<^item> \<^verbatim>\<open>src/headers.go\<close> and the Director of \<^verbatim>\<open>src/server.go\<close>: \<open>Header_Syntax\<close> and \<open>Header_Eval\<close> (the compiler
    and the evaluation of header values), \<open>Header_Rewrite\<close>, \<open>Director\<close>, \<open>Director_Props\<close>.
  \<^item> \<^verbatim>\<open>src/config.go\<close>: \<open>Config_Types\<close>, \<open>Config_Load\<close>, \<open>Config_File\<close>, \<open>Config_Props\<close>, \<open>Config_Strict\<close> (the check
    of keys and the schema it amounts to). \<^verbatim>\<open>src/cli.go\<close>: \<open>Cli\<close>, \<open>Cli_Props\<close>, \<open>Cli_Cases\<close>, \<open>Listen\<close>.
  \<^item> \<^verbatim>\<open>src/server.go\<close>: \<open>Upstream_Picker\<close> (load balancing), \<open>Vhosts\<close> and \<open>Vhosts_Props\<close> (compilation and
    dispatch), \<open>Serve\<close> (authentication and routes), \<open>Server\<close> (state, start, handler, reload), \<open>Server_Run\<close>
    (runs and their invariant), \<open>Server_Props\<close>, \<open>Reload_Timer\<close>, \<open>Reload_Props\<close>. \<^verbatim>\<open>src/server_unix.go\<close> and
    \<^verbatim>\<open>src/server_windows.go\<close>: \<open>Shutdown\<close> (signals and the end of the process).
  \<^item> \<^verbatim>\<open>src/jwtverify\<close>: \<open>Jwks\<close>, \<open>Jwt_Verify\<close>, \<open>Jwt_Props\<close>.
  \<^item> \<^verbatim>\<open>src/acme\<close> and \<^verbatim>\<open>src/acme_bridge.go\<close>: \<open>Acme_Config\<close>, \<open>Acme_Cert\<close>, \<open>Acme_Challenge\<close>, \<open>Acme_Retry\<close>, \<open>Acme_Issue\<close>,
    \<open>Acme_Manager\<close>, \<open>Acme_Props\<close>, \<open>Acme_Bridge\<close>, \<open>Acme_Account\<close> (files and accounts), \<open>Acme_EAB\<close>,
    \<open>Acme_Bootstrap\<close> (the first certificate and the handshakes). The manager uses the accounts, credentials
    and file writes of these theories.
  \<^item> \<^verbatim>\<open>src/daemon/daemon_unix.go\<close>: \<open>Daemon\<close> and \<open>Daemon_Props\<close> (commands), \<open>Daemon_Runs\<close> (sequences of them),
    \<open>Daemon_Watchdog\<close>, \<open>Daemon_Tail\<close> (the log excerpt), \<open>Daemon_Handle\<close> (\<open>Handle\<close>, logs and modification
    times). \<^verbatim>\<open>src/daemon/daemon_windows.go\<close>: \<open>Daemon_Windows\<close>. \<^verbatim>\<open>src/main.go\<close>: \<open>Main_Program\<close>, where \<open>program\<close> is
    what a process does from its environment and arguments on, as a command, a watchdog or the server.

  \<^bold>\<open>State and operations.\<close> A Go struct is a record whose fields have the struct's names, some with a
  prefix; a pointer is an option, a Go map a list of entries or a function to options, an \<^verbatim>\<open>error\<close>
  result a sum. What a method changes it returns. Code under a lock is one step; where other goroutines can
  come between, the operation is split: a reload into \<open>beginReload\<close> and \<open>finishReload\<close>, a signal handler of
  the watchdog into its single accesses of the shared variable, a file write into every disk it goes
  through. Runs of these steps are the inductive relations \<open>rreach\<close>, \<open>windows\<close>, \<open>serves\<close> and \<open>daemonRun\<close>
  and the folds \<open>watchdogRun\<close> and \<open>procRun\<close>. Clocks, random draws, the file system, the network and what other processes do are
  arguments. Counters and durations that may wrap are kept at 64 bits where the code depends on it
  (the round-robin counter, the time to live of a key set).

  \<^bold>\<open>Interfaces.\<close> \<open>address_list\<close> is what a policy needs of a list of networks, provided by \<open>CIDRList\<close>;
  \<open>fair_choice\<close> what load balancing promises, provided by both modes; \<open>challenge_store\<close> what an issuer
  needs of a store of responses, provided by the token server and by the certificate store; \<open>whole_writes\<close>
  what a client of file writes relies on, provided by \<open>writeFileAtomic\<close>.

  \<^bold>\<open>What is shown.\<close>
  \<^item> The server as a whole, in every run with any reloads: each request gets the answer that the live
    configuration prescribes, nothing is forwarded that filter, JWT check and password do not admit,
    a reload installs everything or nothing, the settings of the listener stay, refreshers of replaced
    lists stop, and requests cannot tell a refused reload from none.
  \<^item> Dispatch: the vhost chosen is the first that matches, catch-alls last; the route chosen is the longest.
  \<^item> Headers: untrusted clients cannot forge the forwarded headers or the trusted chain, credentials stay
    here, the compiled values mean what their text says, and the flags computed ahead only skip work.
  \<^item> Address lists: exact membership, the policy, the invariant of refreshed lists, the cache round trip.
  \<^item> Load balancing gives every upstream exactly its weight. Tokens are accepted only with the right key,
    algorithm and times; a public key is never a shared secret; key URLs stay with trusted providers.
  \<^item> Certificates: no challenge response is left behind, a failed attempt keeps the old certificates and
    backs off, accounts and files are stored whole, TLS settings survive a reload that tries to change them.
  \<^item> The daemon: at most one daemon for a PID file and one worker for a watchdog, \<open>stop\<close> returns when the
    process ends, \<open>restart\<close> brings the same daemon back, a burst of triggers is one reload; the process that
    \<open>start\<close> or \<open>watch-start\<close> leaves behind serves by the arguments without the command word.
  \<^item> A configuration file passes the strict check exactly if its keys conform to a schema; a listener answers
    every handshake from its start on; a server ends only by a signal, with its manager stopped.
  \<^item> Where the code does less than its comments or its documentation say, a theorem states what it does.

  \<^bold>\<open>Bounds.\<close> Every loop of the model ends and none has fuel, except those whose bound is the code's
  (fifteen looks at an order) and the wait of \<open>stop\<close>, which is a partial function: it returns exactly if
  the process ends. A scanner gives up at lines of 65536 bytes, as the code's does.

  \<^bold>\<open>Not modelled.\<close> The transport of \<^verbatim>\<open>httputil.ReverseProxy\<close> and \<^verbatim>\<open>net/http\<close> below the handler, and of its
  \<open>Shutdown\<close> more than what it promises; WebSocket traffic after the upgrade; TLS handshakes beyond the choice
  of protocol and certificate; the decoders of YAML, JSON, PEM and X.509, the JWT and ACME libraries (all
  parameters, with what is documented of them as hypotheses where a theorem needs it); the download of the
  self-update, help texts and log lines. Text outside ASCII is treated byte by byte.
\<close>

end
